theory Spec2Isabelle
  imports Main "HOL-Library.Word" "HOL-Library.Monad_Syntax"
begin

section \<open>The COLR table reader and compositor of \<^verbatim>\<open>src/sfnt/ttcolr.c\<close>\<close>

text \<open>
  The embedding follows \<^verbatim>\<open>ttcolr.c\<close> function by function.  A pointer into the
  table is the (integer) distance from the first byte of the table; a pointer that may
  be \<^verbatim>\<open>NULL\<close> is an \<open>option\<close>.  Every function that dereferences a pointer returns an
  \<open>option\<close>: \<open>None\<close> stands for an access outside the buffer (or through \<^verbatim>\<open>NULL\<close>), which
  is undefined behaviour in C.  Unsigned C integers are \<open>nat\<close>, signed ones \<open>int\<close>; where
  a C operation can wrap, the reduction is written out.  \<^verbatim>\<open>FT_ULong\<close> is \<^verbatim>\<open>unsigned long\<close>,
  taken as 64 bits wide (LP64); \<^verbatim>\<open>FT_UInt\<close> and \<^verbatim>\<open>FT_Int\<close> are 32 bits wide.
\<close>

subsection \<open>Constants\<close>

type_synonym FT_Byte = "8 word"

definition BASE_GLYPH_SIZE :: nat where "BASE_GLYPH_SIZE = 6"
definition BASE_GLYPH_V1_SIZE :: nat where "BASE_GLYPH_V1_SIZE = 6"
definition LAYER_V1_RECORD_SIZE :: nat where "LAYER_V1_RECORD_SIZE = 6"
definition COLOR_STOP_SIZE :: nat where "COLOR_STOP_SIZE = 6"
definition LAYER_SIZE :: nat where "LAYER_SIZE = 4"
definition COLR_HEADER_SIZE :: nat where "COLR_HEADER_SIZE = 14"

text \<open>Conversions to the unsigned types: reduction modulo the width.\<close>

definition to_FT_UInt :: "int \<Rightarrow> nat" where
  "to_FT_UInt i = nat (i mod 2 ^ 32)"

definition to_FT_ULong :: "int \<Rightarrow> nat" where
  "to_FT_ULong i = nat (i mod 2 ^ 64)"

definition to_FT_UShort :: "nat \<Rightarrow> nat" where
  "to_FT_UShort n = n mod 2 ^ 16"

subsection \<open>Reading the table: the macros of \<^verbatim>\<open>ftstream.h\<close>\<close>

text \<open>
  Modelled from the spec: the macros \<^verbatim>\<open>FT_NEXT_USHORT\<close>, \<^verbatim>\<open>FT_NEXT_SHORT\<close>,
  \<^verbatim>\<open>FT_NEXT_ULONG\<close>, \<^verbatim>\<open>FT_NEXT_LONG\<close> and \<^verbatim>\<open>FT_PEEK_ULONG\<close> are declared in
  \<^verbatim>\<open>ftstream.h\<close>, which is not among the sources.  Following section 6 of the
  specification (big-endian multi-byte fields), a 16-bit field is two bytes and a 32-bit
  field four bytes, most significant byte first; the \<^verbatim>\<open>NEXT\<close> forms advance the
  pointer past the field.  A byte outside the buffer cannot be read: \<open>None\<close>.
\<close>

definition peek_byte :: "FT_Byte list \<Rightarrow> int \<Rightarrow> nat option" where
  "peek_byte buf a =
     (if 0 \<le> a \<and> a < int (length buf) then Some (unat (buf ! nat a)) else None)"

definition FT_PEEK_USHORT :: "FT_Byte list \<Rightarrow> int \<Rightarrow> nat option" where
  "FT_PEEK_USHORT buf a =
     do { b0 \<leftarrow> peek_byte buf a;
          b1 \<leftarrow> peek_byte buf (a + 1);
          Some (256 * b0 + b1) }"

definition FT_PEEK_ULONG :: "FT_Byte list \<Rightarrow> int \<Rightarrow> nat option" where
  "FT_PEEK_ULONG buf a =
     do { b0 \<leftarrow> peek_byte buf a;
          b1 \<leftarrow> peek_byte buf (a + 1);
          b2 \<leftarrow> peek_byte buf (a + 2);
          b3 \<leftarrow> peek_byte buf (a + 3);
          Some (16777216 * b0 + 65536 * b1 + 256 * b2 + b3) }"

definition FT_NEXT_USHORT :: "FT_Byte list \<Rightarrow> int \<Rightarrow> (nat \<times> int) option" where
  "FT_NEXT_USHORT buf p = map_option (\<lambda>v. (v, p + 2)) (FT_PEEK_USHORT buf p)"

definition FT_NEXT_ULONG :: "FT_Byte list \<Rightarrow> int \<Rightarrow> (nat \<times> int) option" where
  "FT_NEXT_ULONG buf p = map_option (\<lambda>v. (v, p + 4)) (FT_PEEK_ULONG buf p)"

text \<open>The signed forms read the same bytes as two's complement.\<close>

definition signed_16 :: "nat \<Rightarrow> int" where
  "signed_16 v = (if v < 32768 then int v else int v - 65536)"

definition signed_32 :: "nat \<Rightarrow> int" where
  "signed_32 v = (if v < 2147483648 then int v else int v - 4294967296)"

definition FT_NEXT_SHORT :: "FT_Byte list \<Rightarrow> int \<Rightarrow> (int \<times> int) option" where
  "FT_NEXT_SHORT buf p = map_option (\<lambda>v. (signed_16 v, p + 2)) (FT_PEEK_USHORT buf p)"

definition FT_NEXT_LONG :: "FT_Byte list \<Rightarrow> int \<Rightarrow> (int \<times> int) option" where
  "FT_NEXT_LONG buf p = map_option (\<lambda>v. (signed_32 v, p + 4)) (FT_PEEK_ULONG buf p)"

subsection \<open>The table and the face\<close>

record BaseGlyphRecord =
  bg_gid :: nat
  bg_first_layer_index :: nat
  bg_num_layers :: nat

record BaseGlyphV1Record =
  bgv1_gid :: nat
  bgv1_layer_array_offset :: nat

text \<open>
  \<^verbatim>\<open>Colr\<close>: the pointers \<^verbatim>\<open>base_glyphs\<close>, \<^verbatim>\<open>layers\<close> and \<^verbatim>\<open>base_glyphs_v1\<close> point
  into \<^verbatim>\<open>table\<close>; \<^verbatim>\<open>base_glyphs_v1\<close> stays \<^verbatim>\<open>NULL\<close> for a version 0 table
  (\<^verbatim>\<open>FT_NEW\<close> clears the structure).
\<close>

record Colr =
  colr_version :: nat
  colr_num_base_glyphs :: nat
  colr_num_layers :: nat
  colr_base_glyphs :: int
  colr_layers :: int
  colr_num_base_glyphs_v1 :: nat
  colr_base_glyphs_v1 :: "int option"
  colr_table :: "FT_Byte list"
  colr_table_size :: nat

datatype FT_Error =
    FT_Err_Ok
  | Invalid_File_Format
  | Invalid_Table
  | Table_Missing
  | Invalid_Stream_Operation
  | Out_Of_Memory

record FT_Color =
  blue :: FT_Byte
  green :: FT_Byte
  red :: FT_Byte
  alpha :: FT_Byte

text \<open>
  The fields of \<^verbatim>\<open>TT_Face\<close> that \<^verbatim>\<open>ttcolr.c\<close> uses.  \<^verbatim>\<open>face->root.memory\<close> is
  the allocator: \<open>mem_fails\<close> says whether its next allocation fails, \<open>mem_blocks\<close>
  counts the blocks it has handed out and not got back.
\<close>

record TT_Face =
  face_cpal :: bool
  face_colr :: "Colr option"
  face_num_glyphs :: int
  face_num_palette_entries :: nat
  face_palette_flags :: "nat list option"
  face_palette_index :: nat
  face_palette :: "FT_Color list"
  face_have_foreground_color :: bool
  face_foreground_color :: FT_Color
  mem_fails :: bool
  mem_blocks :: nat

text \<open>
  The stream: \<open>goto_table_error\<close> is what \<^verbatim>\<open>face->goto_table\<close> returns for the tag
  \<^verbatim>\<open>COLR\<close> and \<open>goto_table_size\<close> the declared length of the table it stores in
  \<^verbatim>\<open>table_size\<close>, the stream then standing at the table's first byte;
  \<open>stream_bytes\<close> are the bytes from there on; \<open>stream_frames\<close> counts the frames
  extracted and not released.
\<close>

record FT_Stream =
  goto_table_error :: FT_Error
  goto_table_size :: nat
  stream_bytes :: "FT_Byte list"
  stream_frames :: nat

text \<open>
  Modelled from the spec: \<^verbatim>\<open>FT_FRAME_EXTRACT\<close>, \<^verbatim>\<open>FT_FRAME_RELEASE\<close>, \<^verbatim>\<open>FT_NEW\<close>
  and \<^verbatim>\<open>FT_FREE\<close> are not among the sources.  The byte-buffer accessor of section 6
  provides the raw table bytes and their length: extracting a frame of \<open>n\<close> bytes gives
  exactly the next \<open>n\<close> bytes of the stream, or fails when the stream is shorter.
  Releasing \<^verbatim>\<open>NULL\<close> does nothing.
\<close>

definition FT_FRAME_EXTRACT :: "FT_Stream \<Rightarrow> nat \<Rightarrow> FT_Error + (FT_Byte list \<times> FT_Stream)" where
  "FT_FRAME_EXTRACT stream n =
     (if n \<le> length (stream_bytes stream)
      then Inr (take n (stream_bytes stream),
                stream\<lparr>stream_frames := stream_frames stream + 1\<rparr>)
      else Inl Invalid_Stream_Operation)"

definition FT_FRAME_RELEASE :: "FT_Stream \<Rightarrow> FT_Stream" where
  "FT_FRAME_RELEASE stream = stream\<lparr>stream_frames := stream_frames stream - 1\<rparr>"

definition FT_NEW :: "TT_Face \<Rightarrow> FT_Error + TT_Face" where
  "FT_NEW face =
     (if mem_fails face then Inl Out_Of_Memory
      else Inr (face\<lparr>mem_blocks := mem_blocks face + 1\<rparr>))"

definition FT_FREE :: "TT_Face \<Rightarrow> TT_Face" where
  "FT_FREE face = face\<lparr>mem_blocks := mem_blocks face - 1\<rparr>"

subsection \<open>\<^verbatim>\<open>tt_face_load_colr\<close>\<close>

text \<open>
  The label \<^verbatim>\<open>InvalidTable\<close>, reached after the frame was extracted and the
  structure allocated: both are given back and the face keeps its \<^verbatim>\<open>colr\<close> field.
\<close>

definition InvalidTable :: "TT_Face \<Rightarrow> FT_Stream \<Rightarrow> (FT_Error \<times> TT_Face \<times> FT_Stream) option" where
  "InvalidTable face stream = Some (Invalid_Table, FT_FREE face, FT_FRAME_RELEASE stream)"

text \<open>The assignments that follow the block \<^verbatim>\<open>if ( colr->version == 1 )\<close>, up to
  \<^verbatim>\<open>return FT_Err_Ok\<close>.\<close>

definition load_colr_finish ::
  "TT_Face \<Rightarrow> FT_Stream \<Rightarrow> Colr \<Rightarrow> FT_Byte list \<Rightarrow> nat \<Rightarrow> nat \<Rightarrow> nat \<Rightarrow>
   (FT_Error \<times> TT_Face \<times> FT_Stream) option" where
  "load_colr_finish face stream colr tbl table_size base_glyph_offset layer_offset =
     (let colr = colr\<lparr>colr_base_glyphs := int base_glyph_offset,
                      colr_layers := int layer_offset,
                      colr_table := tbl,
                      colr_table_size := table_size\<rparr>
      in Some (FT_Err_Ok, face\<lparr>face_colr := Some colr\<rparr>, stream))"

definition tt_face_load_colr ::
  "TT_Face \<Rightarrow> FT_Stream \<Rightarrow> (FT_Error \<times> TT_Face \<times> FT_Stream) option" where
  "tt_face_load_colr face stream =
     (if \<not> face_cpal face then Some (Invalid_File_Format, face, stream)
      else if goto_table_error stream \<noteq> FT_Err_Ok
      then Some (goto_table_error stream, face, stream)
      else
        let table_size = goto_table_size stream in
        if table_size < COLR_HEADER_SIZE then Some (Invalid_Table, face, stream)
        else case FT_FRAME_EXTRACT stream table_size of
          Inl error \<Rightarrow> Some (error, face, stream)
        | Inr (tbl, stream) \<Rightarrow>
          (case FT_NEW face of
            Inl error \<Rightarrow> Some (error, face, FT_FRAME_RELEASE stream)
          | Inr face \<Rightarrow>
            do {
              (version, p) \<leftarrow> FT_NEXT_USHORT tbl 0;
              if version \<noteq> 0 \<and> version \<noteq> 1 then InvalidTable face stream
              else do {
                (num_base_glyphs, p) \<leftarrow> FT_NEXT_USHORT tbl p;
                (base_glyph_offset, p) \<leftarrow> FT_NEXT_ULONG tbl p;
                if base_glyph_offset \<ge> table_size then InvalidTable face stream
                else if num_base_glyphs * BASE_GLYPH_SIZE > table_size - base_glyph_offset
                then InvalidTable face stream
                else do {
                  (layer_offset, p) \<leftarrow> FT_NEXT_ULONG tbl p;
                  (num_layers, p) \<leftarrow> FT_NEXT_USHORT tbl p;
                  if layer_offset \<ge> table_size then InvalidTable face stream
                  else if num_layers * LAYER_SIZE > table_size - layer_offset
                  then InvalidTable face stream
                  else
                    let colr = \<lparr>colr_version = version,
                                colr_num_base_glyphs = num_base_glyphs,
                                colr_num_layers = num_layers,
                                colr_base_glyphs = 0, colr_layers = 0,
                                colr_num_base_glyphs_v1 = 0,
                                colr_base_glyphs_v1 = None,
                                colr_table = [], colr_table_size = 0\<rparr>
                    in if version = 1 then do {
                         (base_glyphs_v1_offset, p) \<leftarrow> FT_NEXT_ULONG tbl p;
                         if base_glyphs_v1_offset \<ge> table_size then InvalidTable face stream
                         else do {
                           num_base_glyphs_v1 \<leftarrow> FT_PEEK_ULONG tbl (int base_glyphs_v1_offset);
                           if to_FT_ULong (int (num_base_glyphs_v1 * BASE_GLYPH_V1_SIZE)) >
                              table_size - base_glyphs_v1_offset
                           then InvalidTable face stream
                           else load_colr_finish face stream
                                  (colr\<lparr>colr_num_base_glyphs_v1 := to_FT_UShort num_base_glyphs_v1,
                                        colr_base_glyphs_v1 := Some (int base_glyphs_v1_offset)\<rparr>)
                                  tbl table_size base_glyph_offset layer_offset
                         }
                       }
                       else load_colr_finish face stream colr tbl table_size
                              base_glyph_offset layer_offset
                }
              }
            })
     )"

subsection \<open>\<^verbatim>\<open>find_base_glyph_record\<close>\<close>

text \<open>
  The \<^verbatim>\<open>while ( min <= max )\<close> loop.  \<open>min_idx\<close>, \<open>max_idx\<close> (the source's
  \<^verbatim>\<open>min\<close> and \<^verbatim>\<open>max\<close>) and \<open>mid\<close> are \<^verbatim>\<open>FT_Int\<close>;
  the callers pass a 16-bit count, so that no value leaves the range of \<^verbatim>\<open>FT_Int\<close>.
  Inside the loop \<^verbatim>\<open>max - min\<close> is not negative, where C's \<^verbatim>\<open>/\<close> and \<open>div\<close> agree.
  The result is \<open>None\<close> for a read outside the table, \<open>Some None\<close> for
  \<^verbatim>\<open>return 0\<close> and \<open>Some (Some record)\<close> for \<^verbatim>\<open>return 1\<close>.
\<close>

function find_base_glyph_loop ::
  "FT_Byte list \<Rightarrow> int \<Rightarrow> nat \<Rightarrow> int \<Rightarrow> int \<Rightarrow> BaseGlyphRecord option option" where
  "find_base_glyph_loop tbl base_glyph_begin glyph_id min_idx max_idx =
     (if min_idx \<le> max_idx then
        let mid = min_idx + (max_idx - min_idx) div 2;
            p = base_glyph_begin + mid * int BASE_GLYPH_SIZE
        in case FT_NEXT_USHORT tbl p of
             None \<Rightarrow> None
           | Some (gid, p) \<Rightarrow>
               if gid < glyph_id then
                 find_base_glyph_loop tbl base_glyph_begin glyph_id (mid + 1) max_idx
               else if gid > glyph_id then
                 find_base_glyph_loop tbl base_glyph_begin glyph_id min_idx (mid - 1)
               else
                 do { (first_layer_index, p) \<leftarrow> FT_NEXT_USHORT tbl p;
                      (num_layers, p) \<leftarrow> FT_NEXT_USHORT tbl p;
                      Some (Some \<lparr>bg_gid = gid,
                                  bg_first_layer_index = first_layer_index,
                                  bg_num_layers = num_layers\<rparr>) }
      else Some None)"
  by pat_completeness auto
termination
  by (relation "measure (\<lambda>(tbl, b, g, mn, mx). nat (mx - mn + 1))") auto

declare find_base_glyph_loop.simps [simp del]

definition find_base_glyph_record ::
  "FT_Byte list \<Rightarrow> int \<Rightarrow> int \<Rightarrow> nat \<Rightarrow> BaseGlyphRecord option option" where
  "find_base_glyph_record tbl base_glyph_begin num_base_glyph glyph_id =
     find_base_glyph_loop tbl base_glyph_begin glyph_id 0 (num_base_glyph - 1)"

subsection \<open>\<^verbatim>\<open>find_base_glyph_v1_record\<close>\<close>

function find_base_glyph_v1_loop ::
  "FT_Byte list \<Rightarrow> int \<Rightarrow> nat \<Rightarrow> int \<Rightarrow> int \<Rightarrow> BaseGlyphV1Record option option" where
  "find_base_glyph_v1_loop tbl base_glyph_begin glyph_id min_idx max_idx =
     (if min_idx \<le> max_idx then
        let mid = min_idx + (max_idx - min_idx) div 2;
            p = base_glyph_begin + 4 + mid * int BASE_GLYPH_V1_SIZE
        in case FT_NEXT_USHORT tbl p of
             None \<Rightarrow> None
           | Some (gid, p) \<Rightarrow>
               if gid < glyph_id then
                 find_base_glyph_v1_loop tbl base_glyph_begin glyph_id (mid + 1) max_idx
               else if gid > glyph_id then
                 find_base_glyph_v1_loop tbl base_glyph_begin glyph_id min_idx (mid - 1)
               else
                 do { (layer_array_offset, p) \<leftarrow> FT_NEXT_ULONG tbl p;
                      Some (Some \<lparr>bgv1_gid = gid,
                                  bgv1_layer_array_offset = layer_array_offset\<rparr>) }
      else Some None)"
  by pat_completeness auto
termination
  by (relation "measure (\<lambda>(tbl, b, g, mn, mx). nat (mx - mn + 1))") auto

declare find_base_glyph_v1_loop.simps [simp del]

definition find_base_glyph_v1_record ::
  "FT_Byte list \<Rightarrow> int \<Rightarrow> int \<Rightarrow> nat \<Rightarrow> BaseGlyphV1Record option option" where
  "find_base_glyph_v1_record tbl base_glyph_begin num_base_glyph glyph_id =
     find_base_glyph_v1_loop tbl base_glyph_begin glyph_id 0 (num_base_glyph - 1)"

subsection \<open>\<^verbatim>\<open>tt_face_get_colr_layer\<close>\<close>

text \<open>\<^verbatim>\<open>FT_LayerIterator\<close>: two \<^verbatim>\<open>FT_UInt\<close> counters and a pointer, \<^verbatim>\<open>NULL\<close> before
  the first call.\<close>

record FT_LayerIterator =
  it_num_layers :: nat
  it_layer :: nat
  it_p :: "int option"

definition incr_FT_UInt :: "nat \<Rightarrow> nat" where
  "incr_FT_UInt n = (n + 1) mod 2 ^ 32"

text \<open>
  The calls take the values behind \<^verbatim>\<open>aglyph_index\<close>, \<^verbatim>\<open>acolor_index\<close> and
  \<^verbatim>\<open>iterator\<close> and give back the returned \<^verbatim>\<open>FT_Bool\<close> with the values they hold
  afterwards.  \<open>colr_layer_next\<close> is the code from
  \<^verbatim>\<open>if ( iterator->layer >= iterator->num_layers )\<close> on: \<^verbatim>\<open>FT_NEXT_USHORT\<close> moves
  \<^verbatim>\<open>iterator->p\<close> itself, before the record is validated.
\<close>

definition colr_layer_next ::
  "TT_Face \<Rightarrow> Colr \<Rightarrow> nat \<times> nat \<times> FT_LayerIterator \<Rightarrow>
   (bool \<times> nat \<times> nat \<times> FT_LayerIterator) option" where
  "colr_layer_next face colr st =
     (case st of (aglyph_index, acolor_index, iterator) \<Rightarrow>
        if it_layer iterator \<ge> it_num_layers iterator
        then Some (False, aglyph_index, acolor_index, iterator)
        else do {
          p \<leftarrow> it_p iterator;
          (aglyph_index, p) \<leftarrow> FT_NEXT_USHORT (colr_table colr) p;
          (acolor_index, p) \<leftarrow> FT_NEXT_USHORT (colr_table colr) p;
          let iterator = iterator\<lparr>it_p := Some p\<rparr> in
          if aglyph_index \<ge> to_FT_UInt (face_num_glyphs face) \<or>
             (acolor_index \<noteq> 0xFFFF \<and> acolor_index \<ge> face_num_palette_entries face)
          then Some (False, aglyph_index, acolor_index, iterator)
          else Some (True, aglyph_index, acolor_index,
                     iterator\<lparr>it_layer := incr_FT_UInt (it_layer iterator)\<rparr>)
        })"

definition tt_face_get_colr_layer ::
  "TT_Face \<Rightarrow> nat \<Rightarrow> nat \<times> nat \<times> FT_LayerIterator \<Rightarrow>
   (bool \<times> nat \<times> nat \<times> FT_LayerIterator) option" where
  "tt_face_get_colr_layer face base_glyph st =
     (case st of (aglyph_index, acolor_index, iterator) \<Rightarrow>
      case face_colr face of
        None \<Rightarrow> Some (False, aglyph_index, acolor_index, iterator)
      | Some colr \<Rightarrow>
        if it_p iterator = None then
          let iterator = iterator\<lparr>it_layer := 0\<rparr> in
          case find_base_glyph_record (colr_table colr) (colr_base_glyphs colr)
                 (int (colr_num_base_glyphs colr)) base_glyph of
            None \<Rightarrow> None
          | Some None \<Rightarrow> Some (False, aglyph_index, acolor_index, iterator)
          | Some (Some glyph_record) \<Rightarrow>
              if bg_num_layers glyph_record = 0
              then Some (False, aglyph_index, acolor_index, iterator)
              else
                let iterator = iterator\<lparr>it_num_layers := bg_num_layers glyph_record\<rparr>;
                    offset = LAYER_SIZE * bg_first_layer_index glyph_record
                in if offset + LAYER_SIZE * bg_num_layers glyph_record > colr_table_size colr
                   then Some (False, aglyph_index, acolor_index, iterator)
                   else colr_layer_next face colr
                          (aglyph_index, acolor_index,
                           iterator\<lparr>it_p := Some (colr_layers colr + int offset)\<rparr>)
        else colr_layer_next face colr (aglyph_index, acolor_index, iterator))"

text \<open>Calling \<^verbatim>\<open>tt_face_get_colr_layer\<close> \<open>n\<close> times in a row on the same cursor, as
  a caller's loop does but without stopping at the first 0: for each call in turn, the
  pair it delivered when it returned 1, \<open>None\<close> when it returned 0.\<close>

fun colr_layer_calls ::
  "nat \<Rightarrow> TT_Face \<Rightarrow> nat \<Rightarrow> nat \<times> nat \<times> FT_LayerIterator \<Rightarrow>
   (nat \<times> nat) option list option" where
  "colr_layer_calls 0 face base_glyph st = Some []"
| "colr_layer_calls (Suc n) face base_glyph st =
     do { (r, g, c, iterator) \<leftarrow> tt_face_get_colr_layer face base_glyph st;
          rest \<leftarrow> colr_layer_calls n face base_glyph (g, c, iterator);
          Some ((if r then Some (g, c) else None) # rest) }"

subsection \<open>Paints\<close>

text \<open>
  Modelled from the spec: the types \<^verbatim>\<open>FT_COLR_Paint\<close>, \<^verbatim>\<open>FT_ColorLine\<close>,
  \<^verbatim>\<open>FT_ColorStopIterator\<close>, \<^verbatim>\<open>FT_ColorStop\<close> and the enumerations
  \<^verbatim>\<open>FT_PaintFormat\<close> and \<^verbatim>\<open>FT_PaintExtend\<close> are declared in \<^verbatim>\<open>ftcolor.h\<close>,
  which is not among the sources.  Section 3 of the specification gives the members:
  Solid (palette index, alpha), LinearGradient (p0, p1, p2, ColorLine), RadialGradient
  (c0, r0, c1, r1, ColorLine, Affine), the extend modes PAD, REPEAT, REFLECT, and the
  2x2 Affine (xx, xy, yx, yy).  The numbering of the enumerations is not in the
  specification: the format tags are taken as 1, 2, 3 with 4 the first unknown one, the
  extend modes as 0, 1, 2; only the example tables depend on it.  The fields hold the
  values as the reading macros deliver them.

  \<^verbatim>\<open>FT_COLR_Paint\<close> is a format tag and a union \<^verbatim>\<open>u\<close>.  The record below has one
  field for each member that \<^verbatim>\<open>read_paint\<close> assigns; the color line, which the
  source reaches through \<^verbatim>\<open>u.linear_gradient.colorline\<close> for both gradients, is one
  field.  A field that a call does not assign keeps the value the caller's structure
  had.
\<close>

definition COLR_PAINTFORMAT_SOLID :: nat where "COLR_PAINTFORMAT_SOLID = 1"
definition COLR_PAINTFORMAT_LINEAR_GRADIENT :: nat where "COLR_PAINTFORMAT_LINEAR_GRADIENT = 2"
definition COLR_PAINTFORMAT_RADIAL_GRADIENT :: nat where "COLR_PAINTFORMAT_RADIAL_GRADIENT = 3"
definition COLR_PAINT_FORMAT_MAX :: nat where "COLR_PAINT_FORMAT_MAX = 4"
definition COLR_PAINT_EXTEND_REFLECT :: nat where "COLR_PAINT_EXTEND_REFLECT = 2"

record FT_ColorIndex =
  palette_index :: nat
  color_alpha :: nat

record FT_ColorStopIterator =
  num_color_stops :: nat
  current_color_stop :: nat
  stop_p :: "int option"

record FT_ColorLine =
  line_extend :: nat
  color_stop_iterator :: FT_ColorStopIterator

record FT_ColorStop =
  stop_offset :: nat
  stop_color :: FT_ColorIndex

record FT_Vector =
  vec_x :: int
  vec_y :: int

record FT_Matrix =
  xx :: int
  xy :: int
  yx :: int
  yy :: int

record FT_COLR_Paint =
  format :: nat
  solid_color :: FT_ColorIndex
  gradient_colorline :: FT_ColorLine
  linear_p0 :: FT_Vector
  linear_p1 :: FT_Vector
  linear_p2 :: FT_Vector
  radial_c0 :: FT_Vector
  radial_r0 :: nat
  radial_c1 :: FT_Vector
  radial_r1 :: nat
  radial_affine :: FT_Matrix

subsection \<open>\<^verbatim>\<open>read_color_line\<close>, \<^verbatim>\<open>read_affine\<close>, \<^verbatim>\<open>read_paint\<close>\<close>

text \<open>Neither \<^verbatim>\<open>read_color_line\<close> nor \<^verbatim>\<open>read_affine\<close> compares its pointer with the
  table (\<^verbatim>\<open>TODO: Check pointer limits\<close>): the reads are where the offset sends them.\<close>

definition read_color_line ::
  "FT_Byte list \<Rightarrow> int \<Rightarrow> nat \<Rightarrow> FT_ColorLine \<Rightarrow> (bool \<times> FT_ColorLine) option" where
  "read_color_line tbl paint_base colorline_offset colorline =
     do { (paint_extend, p) \<leftarrow> FT_NEXT_USHORT tbl (paint_base + int colorline_offset);
          if paint_extend > COLR_PAINT_EXTEND_REFLECT then Some (False, colorline)
          else do {
            (n, p) \<leftarrow> FT_NEXT_USHORT tbl p;
            Some (True, \<lparr>line_extend = paint_extend,
                         color_stop_iterator =
                           \<lparr>num_color_stops = n, current_color_stop = 0, stop_p = Some p\<rparr>\<rparr>)
          } }"

definition read_affine ::
  "FT_Byte list \<Rightarrow> int \<Rightarrow> nat \<Rightarrow> FT_Matrix \<Rightarrow> (bool \<times> FT_Matrix) option" where
  "read_affine tbl paint_base affine_offset affine =
     do { (axx, p) \<leftarrow> FT_NEXT_LONG tbl (paint_base + int affine_offset);
          (_, p) \<leftarrow> FT_NEXT_ULONG tbl p;
          (axy, p) \<leftarrow> FT_NEXT_LONG tbl p;
          (_, p) \<leftarrow> FT_NEXT_ULONG tbl p;
          (ayx, p) \<leftarrow> FT_NEXT_LONG tbl p;
          (_, p) \<leftarrow> FT_NEXT_ULONG tbl p;
          (ayy, p) \<leftarrow> FT_NEXT_LONG tbl p;
          (_, p) \<leftarrow> FT_NEXT_ULONG tbl p;
          Some (True, affine\<lparr>xx := axx, xy := axy, yx := ayx, yy := ayy\<rparr>) }"

text \<open>A coordinate or radius followed by its discarded \<^verbatim>\<open>VarIdx\<close>.\<close>

definition next_short_var :: "FT_Byte list \<Rightarrow> int \<Rightarrow> (int \<times> int) option" where
  "next_short_var tbl p =
     do { (v, p) \<leftarrow> FT_NEXT_SHORT tbl p; (_, p) \<leftarrow> FT_NEXT_ULONG tbl p; Some (v, p) }"

definition next_ushort_var :: "FT_Byte list \<Rightarrow> int \<Rightarrow> (nat \<times> int) option" where
  "next_ushort_var tbl p =
     do { (v, p) \<leftarrow> FT_NEXT_USHORT tbl p; (_, p) \<leftarrow> FT_NEXT_ULONG tbl p; Some (v, p) }"

definition read_paint_solid :: "FT_Byte list \<Rightarrow> int \<Rightarrow> FT_COLR_Paint \<Rightarrow> (bool \<times> FT_COLR_Paint) option" where
  "read_paint_solid tbl p apaint =
     do { (pal, p) \<leftarrow> FT_NEXT_USHORT tbl p;
          (al, p) \<leftarrow> FT_NEXT_USHORT tbl p;
          (_, p) \<leftarrow> FT_NEXT_ULONG tbl p;
          Some (True, apaint\<lparr>solid_color := \<lparr>palette_index = pal, color_alpha = al\<rparr>\<rparr>) }"

definition read_paint_linear ::
  "FT_Byte list \<Rightarrow> int \<Rightarrow> int \<Rightarrow> FT_COLR_Paint \<Rightarrow> (bool \<times> FT_COLR_Paint) option" where
  "read_paint_linear tbl paint_base p apaint =
     do { (color_line_offset, p) \<leftarrow> FT_NEXT_ULONG tbl p;
          (ok, colorline) \<leftarrow> read_color_line tbl paint_base color_line_offset
                               (gradient_colorline apaint);
          if \<not> ok then Some (False, apaint)
          else do {
            (p0x, p) \<leftarrow> next_short_var tbl p;
            (p0y, p) \<leftarrow> next_short_var tbl p;
            (p1x, p) \<leftarrow> next_short_var tbl p;
            (p1y, p) \<leftarrow> next_short_var tbl p;
            (p2x, p) \<leftarrow> next_short_var tbl p;
            (p2y, p) \<leftarrow> next_short_var tbl p;
            Some (True, apaint\<lparr>gradient_colorline := colorline,
                               linear_p0 := \<lparr>vec_x = p0x, vec_y = p0y\<rparr>,
                               linear_p1 := \<lparr>vec_x = p1x, vec_y = p1y\<rparr>,
                               linear_p2 := \<lparr>vec_x = p2x, vec_y = p2y\<rparr>\<rparr>)
          } }"

text \<open>
  The radial gradient.  With a zero affine offset the source returns 1 at
  \<^verbatim>\<open>if ( !affine_offset ) return 1;\<close>, above the four assignments to
  \<^verbatim>\<open>affine\<close>: the matrix is not assigned.  With a nonzero offset the four assignments
  (1, 0, 1, 0) come first and \<^verbatim>\<open>read_affine\<close> then assigns all four components.
\<close>

definition read_paint_radial ::
  "FT_Byte list \<Rightarrow> int \<Rightarrow> int \<Rightarrow> FT_COLR_Paint \<Rightarrow> (bool \<times> FT_COLR_Paint) option" where
  "read_paint_radial tbl paint_base p apaint =
     do { (color_line_offset, p) \<leftarrow> FT_NEXT_ULONG tbl p;
          (ok, colorline) \<leftarrow> read_color_line tbl paint_base color_line_offset
                               (gradient_colorline apaint);
          if \<not> ok then Some (False, apaint)
          else do {
            (c0x, p) \<leftarrow> next_short_var tbl p;
            (c0y, p) \<leftarrow> next_short_var tbl p;
            (r0, p) \<leftarrow> next_ushort_var tbl p;
            (c1x, p) \<leftarrow> next_short_var tbl p;
            (c1y, p) \<leftarrow> next_short_var tbl p;
            (r1, p) \<leftarrow> next_ushort_var tbl p;
            (affine_offset, p) \<leftarrow> FT_NEXT_ULONG tbl p;
            let apaint = apaint\<lparr>gradient_colorline := colorline,
                               radial_c0 := \<lparr>vec_x = c0x, vec_y = c0y\<rparr>,
                               radial_r0 := r0,
                               radial_c1 := \<lparr>vec_x = c1x, vec_y = c1y\<rparr>,
                               radial_r1 := r1\<rparr>
            in if affine_offset = 0 then Some (True, apaint)
               else do {
                 (ok, affine) \<leftarrow> read_affine tbl paint_base affine_offset
                                   \<lparr>xx = 1, xy = 0, yx = 1, yy = 0\<rparr>;
                 Some (ok, apaint\<lparr>radial_affine := affine\<rparr>)
               }
          } }"

definition read_paint ::
  "FT_Byte list \<Rightarrow> int \<Rightarrow> nat \<Rightarrow> FT_COLR_Paint \<Rightarrow> (bool \<times> FT_COLR_Paint) option" where
  "read_paint tbl layer_v1_array paint_offset apaint =
     (let paint_base = layer_v1_array + int paint_offset in
      do { (fmt, p) \<leftarrow> FT_NEXT_USHORT tbl paint_base;
           let apaint = apaint\<lparr>format := fmt\<rparr> in
           if fmt \<ge> COLR_PAINT_FORMAT_MAX then Some (False, apaint)
           else if fmt = COLR_PAINTFORMAT_SOLID then read_paint_solid tbl p apaint
           else if fmt = COLR_PAINTFORMAT_LINEAR_GRADIENT
                then read_paint_linear tbl paint_base p apaint
           else if fmt = COLR_PAINTFORMAT_RADIAL_GRADIENT
                then read_paint_radial tbl paint_base p apaint
           else Some (True, apaint) })"

subsection \<open>\<^verbatim>\<open>tt_face_get_colr_layer_gradients\<close>\<close>

text \<open>The code from \<^verbatim>\<open>if ( iterator->layer >= iterator->num_layers )\<close> on.  The
  pointer is advanced in the local \<^verbatim>\<open>p\<close> and stored back only before
  \<^verbatim>\<open>return 1\<close>.  \<^verbatim>\<open>iterator->layer * LAYER_V1_RECORD_SIZE\<close> is an \<^verbatim>\<open>FT_UInt\<close>
  product.\<close>

definition colr_layer_gradients_next ::
  "TT_Face \<Rightarrow> Colr \<Rightarrow> nat \<times> FT_COLR_Paint \<times> FT_LayerIterator \<Rightarrow>
   (bool \<times> nat \<times> FT_COLR_Paint \<times> FT_LayerIterator) option" where
  "colr_layer_gradients_next face colr st =
     (case st of (aglyph_index, paint, iterator) \<Rightarrow>
        if it_layer iterator \<ge> it_num_layers iterator
        then Some (False, aglyph_index, paint, iterator)
        else do {
          p \<leftarrow> it_p iterator;
          let layer_v1_array =
                p - int ((it_layer iterator * LAYER_V1_RECORD_SIZE) mod 2 ^ 32) - 4 in
          do {
            (gid, p) \<leftarrow> FT_NEXT_USHORT (colr_table colr) p;
            if gid > to_FT_UInt (face_num_glyphs face)
            then Some (False, aglyph_index, paint, iterator)
            else do {
              (paint_offset, p) \<leftarrow> FT_NEXT_ULONG (colr_table colr) p;
              (ok, paint) \<leftarrow> read_paint (colr_table colr) layer_v1_array paint_offset paint;
              if \<not> ok then Some (False, aglyph_index, paint, iterator)
              else Some (True, gid, paint,
                         iterator\<lparr>it_p := Some p,
                                  it_layer := incr_FT_UInt (it_layer iterator)\<rparr>)
            }
          }
        })"

text \<open>\<^verbatim>\<open>colr->version\<close> is read without a test of \<^verbatim>\<open>colr\<close>.\<close>

definition tt_face_get_colr_layer_gradients ::
  "TT_Face \<Rightarrow> nat \<Rightarrow> nat \<times> FT_COLR_Paint \<times> FT_LayerIterator \<Rightarrow>
   (bool \<times> nat \<times> FT_COLR_Paint \<times> FT_LayerIterator) option" where
  "tt_face_get_colr_layer_gradients face base_glyph st =
     (case st of (aglyph_index, paint, iterator) \<Rightarrow>
      case face_colr face of
        None \<Rightarrow> None
      | Some colr \<Rightarrow>
        if colr_version colr < 1 \<or> colr_num_base_glyphs_v1 colr = 0
        then Some (False, aglyph_index, paint, iterator)
        else case colr_base_glyphs_v1 colr of
          None \<Rightarrow> Some (False, aglyph_index, paint, iterator)
        | Some base_glyphs_v1 \<Rightarrow>
          if it_p iterator = None then
            let iterator = iterator\<lparr>it_layer := 0\<rparr> in
            case find_base_glyph_v1_record (colr_table colr) base_glyphs_v1
                   (int (colr_num_base_glyphs_v1 colr)) base_glyph of
              None \<Rightarrow> None
            | Some None \<Rightarrow> Some (False, aglyph_index, paint, iterator)
            | Some (Some base_glyph_v1_record) \<Rightarrow>
                if bgv1_layer_array_offset base_glyph_v1_record = 0 \<or>
                   bgv1_layer_array_offset base_glyph_v1_record > colr_table_size colr
                then Some (False, aglyph_index, paint, iterator)
                else do {
                  (n, p) \<leftarrow> FT_NEXT_ULONG (colr_table colr)
                              (base_glyphs_v1 +
                               int (bgv1_layer_array_offset base_glyph_v1_record));
                  let iterator = iterator\<lparr>it_num_layers := n\<rparr> in
                  if p > int (colr_table_size colr)
                  then Some (False, aglyph_index, paint, iterator)
                  else colr_layer_gradients_next face colr
                         (aglyph_index, paint, iterator\<lparr>it_p := Some p\<rparr>)
                }
          else colr_layer_gradients_next face colr (aglyph_index, paint, iterator))"

subsection \<open>\<^verbatim>\<open>tt_face_get_colorline_stops\<close>\<close>

text \<open>The bound compares \<^verbatim>\<open>iterator->p\<close> plus the remaining stops times
  \<^verbatim>\<open>COLOR_STOP_SIZE\<close> (an \<^verbatim>\<open>FT_UInt\<close> product) with the end of the table; the five
  reads that follow take 2 + 4 + 2 + 2 + 4 bytes.\<close>

definition tt_face_get_colorline_stops ::
  "TT_Face \<Rightarrow> FT_ColorStop \<times> FT_ColorStopIterator \<Rightarrow>
   (bool \<times> FT_ColorStop \<times> FT_ColorStopIterator) option" where
  "tt_face_get_colorline_stops face st =
     (case st of (color_stop, iterator) \<Rightarrow>
        if current_color_stop iterator \<ge> num_color_stops iterator
        then Some (False, color_stop, iterator)
        else do {
          colr \<leftarrow> face_colr face;
          p \<leftarrow> stop_p iterator;
          if p + int (((num_color_stops iterator - current_color_stop iterator) *
                       COLOR_STOP_SIZE) mod 2 ^ 32) > int (colr_table_size colr)
          then Some (False, color_stop, iterator)
          else do {
            (so, p) \<leftarrow> FT_NEXT_USHORT (colr_table colr) p;
            (_, p) \<leftarrow> FT_NEXT_ULONG (colr_table colr) p;
            (pal, p) \<leftarrow> FT_NEXT_USHORT (colr_table colr) p;
            (al, p) \<leftarrow> FT_NEXT_USHORT (colr_table colr) p;
            (_, p) \<leftarrow> FT_NEXT_ULONG (colr_table colr) p;
            Some (True,
                  \<lparr>stop_offset = so,
                   stop_color = \<lparr>palette_index = pal, color_alpha = al\<rparr>\<rparr>,
                  iterator\<lparr>stop_p := Some p,
                           current_color_stop :=
                             incr_FT_UInt (current_color_stop iterator)\<rparr>)
          }
        })"

subsection \<open>\<^verbatim>\<open>tt_face_colr_blend_layer\<close>\<close>

text \<open>
  Modelled from the spec: \<^verbatim>\<open>FT_GlyphSlot\<close> and \<^verbatim>\<open>FT_Bitmap\<close> are declared in
  \<^verbatim>\<open>freetype.h\<close> and \<^verbatim>\<open>ftimage.h\<close>, and \<^verbatim>\<open>ft_glyphslot_alloc_bitmap\<close>,
  \<^verbatim>\<open>ft_glyphslot_set_bitmap\<close>, \<^verbatim>\<open>FT_ALLOC\<close>, \<^verbatim>\<open>FT_MEM_ZERO\<close> and
  \<^verbatim>\<open>FT_MEM_COPY\<close> are defined elsewhere; none is among the sources.  Section 3 of the
  specification describes the canvas: origin (left, top), width, height, pixel stride
  and a BGRA8 buffer; section 4.6 says that a new buffer is zero-filled and section 6
  that the allocator allocates, copies and frees.  A bitmap's buffer is a byte list of
  its own, \<open>None\<close> for \<^verbatim>\<open>NULL\<close>; \<open>rows\<close> and \<open>width\<close> are \<^verbatim>\<open>unsigned int\<close>, \<open>pitch\<close>
  is \<^verbatim>\<open>int\<close>.  Both allocations ask the allocator of the face.
\<close>

datatype FT_Pixel_Mode = FT_PIXEL_MODE_NONE | FT_PIXEL_MODE_GRAY | FT_PIXEL_MODE_BGRA

datatype FT_Glyph_Format = FT_GLYPH_FORMAT_NONE | FT_GLYPH_FORMAT_BITMAP | FT_GLYPH_FORMAT_OUTLINE

record FT_Bitmap =
  rows :: nat
  width :: nat
  pitch :: int
  buffer :: "FT_Byte list option"
  num_grays :: nat
  pixel_mode :: FT_Pixel_Mode

record FT_GlyphSlot =
  bitmap :: FT_Bitmap
  bitmap_left :: int
  bitmap_top :: int
  slot_format :: FT_Glyph_Format
  own_bitmap :: bool

definition to_FT_Int :: "nat \<Rightarrow> int" where
  "to_FT_Int n =
     (let m = int n mod 2 ^ 32 in if m < 2 ^ 31 then m else m - 2 ^ 32)"

definition mul_FT_UInt :: "nat \<Rightarrow> nat \<Rightarrow> nat" where
  "mul_FT_UInt a b = (a * b) mod 2 ^ 32"

definition ft_glyphslot_alloc_bitmap :: "TT_Face \<Rightarrow> FT_GlyphSlot \<Rightarrow> nat \<Rightarrow> FT_Error \<times> FT_GlyphSlot" where
  "ft_glyphslot_alloc_bitmap face slot size_bytes =
     (if mem_fails face then (Out_Of_Memory, slot)
      else (FT_Err_Ok,
            slot\<lparr>bitmap := (bitmap slot)\<lparr>buffer := Some (replicate size_bytes 0)\<rparr>,
                 own_bitmap := True\<rparr>))"

definition FT_ALLOC :: "TT_Face \<Rightarrow> nat \<Rightarrow> FT_Error + FT_Byte list" where
  "FT_ALLOC face size_bytes =
     (if mem_fails face then Inl Out_Of_Memory else Inr (replicate size_bytes 0))"

text \<open>\<^verbatim>\<open>FT_MEM_COPY( q, p, n )\<close>: \<open>n\<close> bytes from offset \<open>p\<close> of \<open>src\<close> to offset \<open>q\<close> of
  \<open>dst\<close>, both ranges inside their buffers.\<close>

definition FT_MEM_COPY ::
  "FT_Byte list \<Rightarrow> int \<Rightarrow> FT_Byte list \<Rightarrow> int \<Rightarrow> nat \<Rightarrow> FT_Byte list option" where
  "FT_MEM_COPY dst q src p n =
     (if n = 0 then Some dst
      else if 0 \<le> p \<and> p + int n \<le> int (length src) \<and> 0 \<le> q \<and> q + int n \<le> int (length dst)
      then Some (take (nat q) dst @ take n (drop (nat p) src) @ drop (nat q + n) dst)
      else None)"

text \<open>The loop \<^verbatim>\<open>for ( y = 0; y < dstSlot->bitmap.rows; y++ )\<close> of the resize.\<close>

function copy_rows ::
  "nat \<Rightarrow> nat \<Rightarrow> FT_Byte list \<Rightarrow> int \<Rightarrow> int \<Rightarrow> FT_Byte list \<Rightarrow> int \<Rightarrow> int \<Rightarrow> nat \<Rightarrow>
   FT_Byte list option" where
  "copy_rows y nrows buf q qpitch old p ppitch n =
     (if y < nrows then
        case FT_MEM_COPY buf q old p n of
          None \<Rightarrow> None
        | Some buf \<Rightarrow> copy_rows (y + 1) nrows buf (q + qpitch) qpitch old (p + ppitch) ppitch n
      else Some buf)"
  by pat_completeness auto
termination
  by (relation "measure (\<lambda>(y, nrows, r). nrows - y)") auto

declare copy_rows.simps [simp del]

text \<open>The \<^verbatim>\<open>else\<close> branch of \<^verbatim>\<open>if ( !dstSlot->bitmap.buffer )\<close>, \<open>old\<close> being the
  buffer of the destination.  The sums and differences of \<^verbatim>\<open>FT_Int\<close> values are
  taken in the integers (their overflow is undefined in C).\<close>

definition blend_resize ::
  "TT_Face \<Rightarrow> FT_GlyphSlot \<Rightarrow> FT_Byte list \<Rightarrow> FT_GlyphSlot \<Rightarrow> (FT_Error \<times> FT_GlyphSlot) option" where
  "blend_resize face dstSlot old srcSlot =
     (let x_min = min (bitmap_left dstSlot) (bitmap_left srcSlot);
          x_max = max (bitmap_left dstSlot + to_FT_Int (width (bitmap dstSlot)))
                      (bitmap_left srcSlot + to_FT_Int (width (bitmap srcSlot)));
          y_min = min (bitmap_top dstSlot - to_FT_Int (rows (bitmap dstSlot)))
                      (bitmap_top srcSlot - to_FT_Int (rows (bitmap srcSlot)));
          y_max = max (bitmap_top dstSlot) (bitmap_top srcSlot)
      in if x_min \<noteq> bitmap_left dstSlot \<or>
            x_max \<noteq> bitmap_left dstSlot + to_FT_Int (width (bitmap dstSlot)) \<or>
            y_min \<noteq> bitmap_top dstSlot - to_FT_Int (rows (bitmap dstSlot)) \<or>
            y_max \<noteq> bitmap_top dstSlot
         then
           let new_width = to_FT_UInt (x_max - x_min);
               new_rows = to_FT_UInt (y_max - y_min);
               new_pitch = mul_FT_UInt new_width 4;
               size_bytes = mul_FT_UInt new_rows new_pitch
           in case FT_ALLOC face size_bytes of
                Inl error \<Rightarrow> Some (error, dstSlot)
              | Inr buf \<Rightarrow>
                  do { buf \<leftarrow> copy_rows 0 (rows (bitmap dstSlot)) buf
                                (to_FT_Int new_pitch * (y_max - bitmap_top dstSlot) +
                                 4 * (bitmap_left dstSlot - x_min))
                                (int new_pitch)
                                old 0 (pitch (bitmap dstSlot))
                                (mul_FT_UInt (width (bitmap dstSlot)) 4);
                       Some (FT_Err_Ok,
                             dstSlot\<lparr>bitmap := (bitmap dstSlot)\<lparr>buffer := Some buf,
                                                                  width := new_width,
                                                                  rows := new_rows,
                                                                  pitch := to_FT_Int new_pitch\<rparr>,
                                     bitmap_top := y_max,
                                     bitmap_left := x_min,
                                     own_bitmap := True,
                                     slot_format := FT_GLYPH_FORMAT_BITMAP\<rparr>) }
         else Some (FT_Err_Ok, dstSlot))"

text \<open>The \<^verbatim>\<open>then\<close> branch: an empty destination takes the footprint of the source.\<close>

definition blend_init :: "TT_Face \<Rightarrow> FT_GlyphSlot \<Rightarrow> FT_GlyphSlot \<Rightarrow> FT_Error \<times> FT_GlyphSlot" where
  "blend_init face dstSlot srcSlot =
     (let new_pitch = to_FT_Int (width (bitmap srcSlot)) * 4;
          dstSlot = dstSlot\<lparr>bitmap_left := bitmap_left srcSlot,
                            bitmap_top := bitmap_top srcSlot,
                            bitmap := (bitmap dstSlot)\<lparr>width := width (bitmap srcSlot),
                                                         rows := rows (bitmap srcSlot),
                                                         pixel_mode := FT_PIXEL_MODE_BGRA,
                                                         pitch := new_pitch,
                                                         num_grays := 256\<rparr>\<rparr>;
          size_bytes = mul_FT_UInt (rows (bitmap dstSlot)) (to_FT_UInt new_pitch)
      in ft_glyphslot_alloc_bitmap face dstSlot size_bytes)"

definition blend_prepare ::
  "TT_Face \<Rightarrow> FT_GlyphSlot \<Rightarrow> FT_GlyphSlot \<Rightarrow> (FT_Error \<times> FT_GlyphSlot) option" where
  "blend_prepare face dstSlot srcSlot =
     (case buffer (bitmap dstSlot) of
        None \<Rightarrow> Some (blend_init face dstSlot srcSlot)
      | Some old \<Rightarrow> blend_resize face dstSlot old srcSlot)"

text \<open>The color of the layer.  \<^verbatim>\<open>FT_PALETTE_FOR_DARK_BACKGROUND\<close> is the bit of value
  2; \<^verbatim>\<open>face->palette\<close> and \<^verbatim>\<open>palette_flags\<close> are arrays, read inside their bounds.\<close>

definition white_opaque :: FT_Color where
  "white_opaque = \<lparr>blue = 0xFF, green = 0xFF, red = 0xFF, alpha = 0xFF\<rparr>"

definition black_opaque :: FT_Color where
  "black_opaque = \<lparr>blue = 0x00, green = 0x00, red = 0x00, alpha = 0xFF\<rparr>"

definition nth_opt :: "'a list \<Rightarrow> nat \<Rightarrow> 'a option" where
  "nth_opt xs i = (if i < length xs then Some (xs ! i) else None)"

definition blend_color :: "TT_Face \<Rightarrow> nat \<Rightarrow> FT_Color option" where
  "blend_color face color_index =
     (if color_index = 0xFFFF then
        if face_have_foreground_color face then Some (face_foreground_color face)
        else case face_palette_flags face of
               None \<Rightarrow> Some black_opaque
             | Some flags \<Rightarrow>
                 do { f \<leftarrow> nth_opt flags (face_palette_index face);
                      if f div 2 mod 2 = 1 then Some white_opaque else Some black_opaque }
      else nth_opt (face_palette face) color_index)"

text \<open>One pixel: the body of the inner loop, from the source's \<open>aa\<close> and the four
  destination bytes to the four bytes stored.  All operands are \<^verbatim>\<open>int\<close> and not
  negative; \<^verbatim>\<open>(FT_Byte)\<close> keeps the low eight bits.\<close>

definition blend_pixel :: "FT_Color \<Rightarrow> int \<Rightarrow> int \<times> int \<times> int \<times> int \<Rightarrow>
    FT_Byte \<times> FT_Byte \<times> FT_Byte \<times> FT_Byte" where
  "blend_pixel color aa d =
     (case d of (bb, bg, br, ba) \<Rightarrow>
        let fa = uint (alpha color) * aa div 255;
            fb = uint (blue color) * fa div 255;
            fg = uint (green color) * fa div 255;
            fr = uint (red color) * fa div 255;
            ba2 = 255 - fa
        in (word_of_int (bb * ba2 div 255 + fb),
            word_of_int (bg * ba2 div 255 + fg),
            word_of_int (br * ba2 div 255 + fr),
            word_of_int (ba * ba2 div 255 + fa)))"

text \<open>The subscript \<^verbatim>\<open>4 * x + c\<close> is an \<^verbatim>\<open>FT_UInt\<close> expression.\<close>

definition idx4 :: "nat \<Rightarrow> nat \<Rightarrow> int" where
  "idx4 x c = int ((4 * x + c) mod 2 ^ 32)"

function blend_row ::
  "nat \<Rightarrow> nat \<Rightarrow> FT_Byte list \<Rightarrow> int \<Rightarrow> FT_Byte list \<Rightarrow> int \<Rightarrow> FT_Color \<Rightarrow>
   FT_Byte list option" where
  "blend_row x w srcbuf src dstbuf dst color =
     (if x < w then
        case (peek_byte srcbuf (src + int x),
              peek_byte dstbuf (dst + idx4 x 0), peek_byte dstbuf (dst + idx4 x 1),
              peek_byte dstbuf (dst + idx4 x 2), peek_byte dstbuf (dst + idx4 x 3)) of
          (Some aa, Some bb, Some bg, Some br, Some ba) \<Rightarrow>
            (case blend_pixel color (int aa) (int bb, int bg, int br, int ba) of
               (nb, ng, nr, na) \<Rightarrow>
                 blend_row (x + 1) w srcbuf src
                   (dstbuf[nat (dst + idx4 x 0) := nb, nat (dst + idx4 x 1) := ng,
                           nat (dst + idx4 x 2) := nr, nat (dst + idx4 x 3) := na])
                   dst color)
        | _ \<Rightarrow> None
      else Some dstbuf)"
  by pat_completeness auto
termination
  by (relation "measure (\<lambda>(x, w, r). w - x)") auto

declare blend_row.simps [simp del]

function blend_rows ::
  "nat \<Rightarrow> nat \<Rightarrow> nat \<Rightarrow> FT_Byte list \<Rightarrow> int \<Rightarrow> int \<Rightarrow> FT_Byte list \<Rightarrow> int \<Rightarrow> int \<Rightarrow>
   FT_Color \<Rightarrow> FT_Byte list option" where
  "blend_rows y nrows w srcbuf src spitch dstbuf dst dpitch color =
     (if y < nrows then
        case blend_row 0 w srcbuf src dstbuf dst color of
          None \<Rightarrow> None
        | Some dstbuf \<Rightarrow>
            blend_rows (y + 1) nrows w srcbuf (src + spitch) spitch
              dstbuf (dst + dpitch) dpitch color
      else Some dstbuf)"
  by pat_completeness auto
termination
  by (relation "measure (\<lambda>(y, nrows, r). nrows - y)") auto

declare blend_rows.simps [simp del]

text \<open>The whole function.  A \<^verbatim>\<open>NULL\<close> source buffer is an empty one: any read of it
  is outside it.\<close>

definition tt_face_colr_blend_layer ::
  "TT_Face \<Rightarrow> nat \<Rightarrow> FT_GlyphSlot \<Rightarrow> FT_GlyphSlot \<Rightarrow> (FT_Error \<times> FT_GlyphSlot) option" where
  "tt_face_colr_blend_layer face color_index dstSlot srcSlot =
     do { (error, dstSlot) \<leftarrow> blend_prepare face dstSlot srcSlot;
          if error \<noteq> FT_Err_Ok then Some (error, dstSlot)
          else do {
            color \<leftarrow> blend_color face color_index;
            dstbuf \<leftarrow> buffer (bitmap dstSlot);
            dstbuf \<leftarrow> blend_rows 0 (rows (bitmap srcSlot)) (width (bitmap srcSlot))
                        (case buffer (bitmap srcSlot) of None \<Rightarrow> [] | Some b \<Rightarrow> b)
                        0 (pitch (bitmap srcSlot))
                        dstbuf
                        (pitch (bitmap dstSlot) * (bitmap_top dstSlot - bitmap_top srcSlot) +
                         4 * (bitmap_left srcSlot - bitmap_left dstSlot))
                        (pitch (bitmap dstSlot))
                        color;
            Some (FT_Err_Ok, dstSlot\<lparr>bitmap := (bitmap dstSlot)\<lparr>buffer := Some dstbuf\<rparr>\<rparr>)
          } }"

subsection \<open>What the specification asks of an accepted table\<close>

text \<open>
  The conditions of sections 4.1 and 8 of the specification, in its words, on the
  declared length \<open>n\<close> and the bytes \<open>tbl\<close>: the header has the minimum size, the version
  is 0 or 1, and \<open>offset + count * record_size \<le> table_size\<close> for the base-glyph array,
  the layer array and, for version 1, the v1 base-glyph array, whose count is the four
  bytes at its offset.  A field that is not in the buffer satisfies nothing.
\<close>

definition colr_header_fits :: "nat \<Rightarrow> FT_Byte list \<Rightarrow> bool" where
  "colr_header_fits n tbl =
     (COLR_HEADER_SIZE \<le> n \<and>
      (case (FT_PEEK_USHORT tbl 0, FT_PEEK_USHORT tbl 2, FT_PEEK_ULONG tbl 4,
             FT_PEEK_ULONG tbl 8, FT_PEEK_USHORT tbl 12) of
         (Some version, Some num_base_glyphs, Some base_glyph_offset,
          Some layer_offset, Some num_layers) \<Rightarrow>
           (version = 0 \<or> version = 1) \<and>
           base_glyph_offset + num_base_glyphs * BASE_GLYPH_SIZE \<le> n \<and>
           layer_offset + num_layers * LAYER_SIZE \<le> n \<and>
           (if version = 1 then
              (case FT_PEEK_ULONG tbl 14 of
                 None \<Rightarrow> False
               | Some base_glyphs_v1_offset \<Rightarrow>
                   (case FT_PEEK_ULONG tbl (int base_glyphs_v1_offset) of
                      None \<Rightarrow> False
                    | Some num_base_glyphs_v1 \<Rightarrow>
                        base_glyphs_v1_offset + num_base_glyphs_v1 * BASE_GLYPH_V1_SIZE \<le> n))
            else True)
       | _ \<Rightarrow> False))"

subsection \<open>The records on disk\<close>

text \<open>
  The layout of section 6 of the specification, against which the searches and the
  iterators are compared: a base-glyph record is 6 bytes (glyph id 2, first layer index
  2, layer count 2), a v1 base-glyph record 6 bytes (glyph id 2, layer array offset 4)
  after the array's 4-byte count, a layer record 4 bytes (glyph id 2, palette color
  index 2); all fields big-endian.  \<open>u16_at\<close> and \<open>u32_at\<close> are the values of the fields
  at an offset that lies inside the table.
\<close>

definition u16_at :: "FT_Byte list \<Rightarrow> int \<Rightarrow> nat" where
  "u16_at tbl a = 256 * unat (tbl ! nat a) + unat (tbl ! nat (a + 1))"

definition u32_at :: "FT_Byte list \<Rightarrow> int \<Rightarrow> nat" where
  "u32_at tbl a = 16777216 * unat (tbl ! nat a) + 65536 * unat (tbl ! nat (a + 1)) +
                  256 * unat (tbl ! nat (a + 2)) + unat (tbl ! nat (a + 3))"

definition BaseGlyphRecord_at :: "FT_Byte list \<Rightarrow> int \<Rightarrow> nat \<Rightarrow> BaseGlyphRecord" where
  "BaseGlyphRecord_at tbl base i =
     \<lparr>bg_gid = u16_at tbl (base + 6 * int i),
      bg_first_layer_index = u16_at tbl (base + 6 * int i + 2),
      bg_num_layers = u16_at tbl (base + 6 * int i + 4)\<rparr>"

definition BaseGlyphV1Record_at :: "FT_Byte list \<Rightarrow> int \<Rightarrow> nat \<Rightarrow> BaseGlyphV1Record" where
  "BaseGlyphV1Record_at tbl base i =
     \<lparr>bgv1_gid = u16_at tbl (base + 4 + 6 * int i),
      bgv1_layer_array_offset = u32_at tbl (base + 4 + 6 * int i + 2)\<rparr>"

text \<open>The glyph ids of an array of \<open>n\<close> records, in array order; the arrays are sorted
  when the ids ascend strictly (ascending, no duplicates).\<close>

definition base_glyph_gids :: "FT_Byte list \<Rightarrow> int \<Rightarrow> nat \<Rightarrow> nat list" where
  "base_glyph_gids tbl base n = map (\<lambda>i. bg_gid (BaseGlyphRecord_at tbl base i)) [0..<n]"

definition base_glyph_v1_gids :: "FT_Byte list \<Rightarrow> int \<Rightarrow> nat \<Rightarrow> nat list" where
  "base_glyph_v1_gids tbl base n = map (\<lambda>i. bgv1_gid (BaseGlyphV1Record_at tbl base i)) [0..<n]"

text \<open>The \<open>i\<close>-th layer record of the layer array at \<open>layers\<close>: glyph id and palette color
  index.\<close>

definition Layer_at :: "FT_Byte list \<Rightarrow> int \<Rightarrow> nat \<Rightarrow> nat \<times> nat" where
  "Layer_at tbl layers i = (u16_at tbl (layers + 4 * int i), u16_at tbl (layers + 4 * int i + 2))"

text \<open>The per-layer validation of section 4.3 of the specification: the glyph id is
  below the number of glyphs of the font, and the palette color index is the sentinel
  0xFFFF or below the number of palette entries.\<close>

definition layer_valid :: "TT_Face \<Rightarrow> nat \<times> nat \<Rightarrow> bool" where
  "layer_valid face l =
     (case l of (g, c) \<Rightarrow>
        int g < face_num_glyphs face \<and> (c = 0xFFFF \<or> c < face_num_palette_entries face))"

subsection \<open>Pixels of a BGRA buffer\<close>

text \<open>The four bytes (blue, green, red, alpha) of the pixel that starts at index \<open>i\<close>
  of a buffer, and the inner loop's body applied to a source byte and such a pixel.\<close>

definition bgra_at :: "FT_Byte list \<Rightarrow> nat \<Rightarrow> FT_Byte \<times> FT_Byte \<times> FT_Byte \<times> FT_Byte" where
  "bgra_at buf i = (buf ! i, buf ! (i + 1), buf ! (i + 2), buf ! (i + 3))"

definition blend_bgra ::
  "FT_Color \<Rightarrow> FT_Byte \<Rightarrow> FT_Byte \<times> FT_Byte \<times> FT_Byte \<times> FT_Byte \<Rightarrow>
   FT_Byte \<times> FT_Byte \<times> FT_Byte \<times> FT_Byte" where
  "blend_bgra color aa px =
     (case px of (bb, bg, br, ba) \<Rightarrow>
        blend_pixel color (uint aa) (uint bb, uint bg, uint br, uint ba))"

text \<open>Where the layer's first pixel lies in the canvas: the value the source gives
  \<^verbatim>\<open>dst\<close> before its loops, as a byte offset into the canvas buffer.\<close>

definition blend_origin :: "FT_GlyphSlot \<Rightarrow> FT_GlyphSlot \<Rightarrow> int" where
  "blend_origin canvas srcSlot =
     pitch (bitmap canvas) * (bitmap_top canvas - bitmap_top srcSlot) +
     4 * (bitmap_left srcSlot - bitmap_left canvas)"

text \<open>A bitmap whose buffer holds its rows: \<open>bpp\<close> bytes per pixel, rows \<open>pitch\<close> bytes
  apart and not overlapping.\<close>

definition bitmap_holds_rows :: "nat \<Rightarrow> FT_Bitmap \<Rightarrow> FT_Byte list \<Rightarrow> bool" where
  "bitmap_holds_rows bpp bm buf =
     (buffer bm = Some buf \<and> int (bpp * width bm) \<le> pitch bm \<and>
      int (rows bm) * pitch bm \<le> int (length buf))"

text \<open>The footprint of a layer lies inside the canvas.\<close>

definition footprint_inside :: "FT_GlyphSlot \<Rightarrow> FT_GlyphSlot \<Rightarrow> bool" where
  "footprint_inside srcSlot canvas =
     (bitmap_left canvas \<le> bitmap_left srcSlot \<and>
      bitmap_left srcSlot + int (width (bitmap srcSlot)) \<le>
        bitmap_left canvas + int (width (bitmap canvas)) \<and>
      bitmap_top srcSlot \<le> bitmap_top canvas \<and>
      bitmap_top canvas - int (rows (bitmap canvas)) \<le>
        bitmap_top srcSlot - int (rows (bitmap srcSlot)))"

text \<open>The union bounding box of the canvas and a layer's footprint, in the source's
  names: columns from \<open>x_min\<close> to \<open>x_max\<close>, rows from \<open>y_max\<close> (top) down to \<open>y_min\<close>.\<close>

definition union_x_min :: "FT_GlyphSlot \<Rightarrow> FT_GlyphSlot \<Rightarrow> int" where
  "union_x_min dstSlot srcSlot = min (bitmap_left dstSlot) (bitmap_left srcSlot)"

definition union_x_max :: "FT_GlyphSlot \<Rightarrow> FT_GlyphSlot \<Rightarrow> int" where
  "union_x_max dstSlot srcSlot =
     max (bitmap_left dstSlot + int (width (bitmap dstSlot)))
         (bitmap_left srcSlot + int (width (bitmap srcSlot)))"

definition union_y_min :: "FT_GlyphSlot \<Rightarrow> FT_GlyphSlot \<Rightarrow> int" where
  "union_y_min dstSlot srcSlot =
     min (bitmap_top dstSlot - int (rows (bitmap dstSlot)))
         (bitmap_top srcSlot - int (rows (bitmap srcSlot)))"

definition union_y_max :: "FT_GlyphSlot \<Rightarrow> FT_GlyphSlot \<Rightarrow> int" where
  "union_y_max dstSlot srcSlot = max (bitmap_top dstSlot) (bitmap_top srcSlot)"

subsection \<open>Example tables\<close>

text \<open>A face with a palette of two entries and ten glyphs, no COLR table loaded yet.\<close>

definition ex_face :: TT_Face where
  "ex_face = \<lparr>face_cpal = True, face_colr = None, face_num_glyphs = 10,
     face_num_palette_entries = 2, face_palette_flags = None, face_palette_index = 0,
     face_palette = [\<lparr>blue = 0, green = 0, red = 255, alpha = 255\<rparr>,
                     \<lparr>blue = 40, green = 30, red = 20, alpha = 128\<rparr>],
     face_have_foreground_color = False, face_foreground_color = black_opaque,
     mem_fails = False, mem_blocks = 0\<rparr>"

definition ex_stream :: "FT_Byte list \<Rightarrow> FT_Stream" where
  "ex_stream tbl = \<lparr>goto_table_error = FT_Err_Ok, goto_table_size = length tbl,
                    stream_bytes = tbl, stream_frames = 0\<rparr>"

definition fresh_iterator :: FT_LayerIterator where
  "fresh_iterator = \<lparr>it_num_layers = 0, it_layer = 0, it_p = None\<rparr>"

text \<open>Version 0: base glyphs 2, 5 and 9 at offset 14; glyph 5 has the two layers
  (8, 1) and (3, 0xFFFF) from layer index 1, glyph 9 has no layer.\<close>

definition ex_v0 :: "FT_Byte list" where
  "ex_v0 = [0,0, 0,3, 0,0,0,14, 0,0,0,32, 0,3,
            0,2, 0,0, 0,1,   0,5, 0,1, 0,2,   0,9, 0,3, 0,0,
            0,7, 0,0,   0,8, 0,1,   0,3, 0xFF,0xFF]"

definition ex_v0_colr :: "FT_Byte list \<Rightarrow> Colr" where
  "ex_v0_colr tbl = \<lparr>colr_version = 0, colr_num_base_glyphs = 3, colr_num_layers = 3,
     colr_base_glyphs = 14, colr_layers = 32,
     colr_num_base_glyphs_v1 = 0, colr_base_glyphs_v1 = None,
     colr_table = tbl, colr_table_size = length tbl\<rparr>"

text \<open>The same table with glyph id 100 in the first layer of glyph 5: the face has
  ten glyphs.\<close>

definition ex_v0_bad_layer :: "FT_Byte list" where
  "ex_v0_bad_layer = [0,0, 0,3, 0,0,0,14, 0,0,0,32, 0,3,
            0,2, 0,0, 0,1,   0,5, 0,1, 0,2,   0,9, 0,3, 0,0,
            0,7, 0,0,   0,100, 0,1,   0,3, 0xFF,0xFF]"

text \<open>Version 1: one base glyph (5) with one layer whose paint is solid.  The layer's
  glyph id is 10, the number of glyphs of the face.\<close>

definition ex_v1_solid :: "FT_Byte list" where
  "ex_v1_solid = [0,1, 0,0, 0,0,0,18, 0,0,0,18, 0,0, 0,0,0,18,
                  0,0,0,1,  0,5, 0,0,0,10,
                  0,0,0,1,  0,10, 0,0,0,10,
                  0,1, 0,1, 0x40,0, 0,0,0,0]"

text \<open>Version 1: one base glyph (5) with one layer (glyph 3) whose paint is a linear
  gradient; its color line declares one stop and lies six bytes before the end of the
  table.\<close>

definition ex_v1_linear :: "FT_Byte list" where
  "ex_v1_linear = [0,1, 0,0, 0,0,0,18, 0,0,0,18, 0,0, 0,0,0,18,
                   0,0,0,1,  0,5, 0,0,0,10,
                   0,0,0,1,  0,3, 0,0,0,10,
                   0,2, 0,0,0,42,
                   0,1, 0,0,0,0,  0,2, 0,0,0,0,  0,3, 0,0,0,0,
                   0,4, 0,0,0,0,  0,5, 0,0,0,0,  0,6, 0,0,0,0,
                   0,0, 0,1,
                   0,0, 0,0,0,0]"

definition ex_v1_colr :: "FT_Byte list \<Rightarrow> Colr" where
  "ex_v1_colr tbl = \<lparr>colr_version = 1, colr_num_base_glyphs = 0, colr_num_layers = 0,
     colr_base_glyphs = 18, colr_layers = 18,
     colr_num_base_glyphs_v1 = 1, colr_base_glyphs_v1 = Some 18,
     colr_table = tbl, colr_table_size = length tbl\<rparr>"

text \<open>A radial gradient paint record with affine offset 0, followed by its color line
  (no stops), and a paint structure whose affine holds 7 in every component.\<close>

definition ex_radial :: "FT_Byte list" where
  "ex_radial = [0,3, 0,0,0,46,
                0,1, 0,0,0,0,  0,2, 0,0,0,0,  0,3, 0,0,0,0,
                0,4, 0,0,0,0,  0,5, 0,0,0,0,  0,6, 0,0,0,0,
                0,0,0,0,
                0,0, 0,0]"

definition ex_paint :: FT_COLR_Paint where
  "ex_paint = \<lparr>format = 0, solid_color = \<lparr>palette_index = 0, color_alpha = 0\<rparr>,
     gradient_colorline = \<lparr>line_extend = 0, color_stop_iterator =
        \<lparr>num_color_stops = 0, current_color_stop = 0, stop_p = None\<rparr>\<rparr>,
     linear_p0 = \<lparr>vec_x = 0, vec_y = 0\<rparr>, linear_p1 = \<lparr>vec_x = 0, vec_y = 0\<rparr>,
     linear_p2 = \<lparr>vec_x = 0, vec_y = 0\<rparr>,
     radial_c0 = \<lparr>vec_x = 0, vec_y = 0\<rparr>, radial_r0 = 0,
     radial_c1 = \<lparr>vec_x = 0, vec_y = 0\<rparr>, radial_r1 = 0,
     radial_affine = \<lparr>xx = 7, xy = 7, yx = 7, yy = 7\<rparr>\<rparr>"

definition ex_stop :: FT_ColorStop where
  "ex_stop = \<lparr>stop_offset = 0, stop_color = \<lparr>palette_index = 0, color_alpha = 0\<rparr>\<rparr>"

text \<open>\<open>ex_v0\<close> with a layer count of 4 in the header: the layer array would end at
  offset 48 of 44 bytes.\<close>

definition ex_v0_long_layers :: "FT_Byte list" where
  "ex_v0_long_layers = [0,0, 0,3, 0,0,0,14, 0,0,0,32, 0,4,
            0,2, 0,0, 0,1,   0,5, 0,1, 0,2,   0,9, 0,3, 0,0,
            0,7, 0,0,   0,8, 0,1,   0,3, 0xFF,0xFF]"

text \<open>A version 1 header cut after its fourteenth byte, and a version 1 table of 19
  bytes whose v1 base-glyph offset is 18: one byte of the count is in the table.\<close>

definition ex_v1_short :: "FT_Byte list" where
  "ex_v1_short = [0,1, 0,0, 0,0,0,0, 0,0,0,0, 0,0]"

definition ex_v1_count_at_end :: "FT_Byte list" where
  "ex_v1_count_at_end = [0,1, 0,0, 0,0,0,14, 0,0,0,14, 0,0, 0,0,0,18, 0]"



definition ex_canvas_1x1 :: FT_GlyphSlot where
  "ex_canvas_1x1 = \<lparr>bitmap = \<lparr>rows = 1, width = 1, pitch = 4, buffer = Some [0, 0, 0, 0],
                                num_grays = 256, pixel_mode = FT_PIXEL_MODE_BGRA\<rparr>,
                     bitmap_left = 0, bitmap_top = 1, slot_format = FT_GLYPH_FORMAT_NONE,
                     own_bitmap = True\<rparr>"

text \<open>The canvas after the red pixel has been blended into it, and a second layer of
  one pixel that lies one column to the left of it and one row above.\<close>

definition ex_canvas_red :: FT_GlyphSlot where
  "ex_canvas_red = ex_canvas_1x1\<lparr>bitmap := (bitmap ex_canvas_1x1)\<lparr>buffer := Some [0, 0, 255, 255]\<rparr>\<rparr>"

definition ex_src_up_left :: FT_GlyphSlot where
  "ex_src_up_left = \<lparr>bitmap = \<lparr>rows = 1, width = 1, pitch = 1, buffer = Some [255],
                                 num_grays = 256, pixel_mode = FT_PIXEL_MODE_GRAY\<rparr>,
                      bitmap_left = - 1, bitmap_top = 2, slot_format = FT_GLYPH_FORMAT_BITMAP,
                      own_bitmap = True\<rparr>"

text \<open>A layer one pixel wide and 16385 pixels high with full coverage, its top at the
  top of \<open>ex_canvas_red\<close> and its column 65535 columns to the right; and a slot with
  the bounds of the union bounding box (65536 by 16385 pixels) whose buffer has the
  262144 bytes of one row.\<close>

definition ex_src_tall :: FT_GlyphSlot where
  "ex_src_tall = \<lparr>bitmap = \<lparr>rows = 16385, width = 1, pitch = 1,
                              buffer = Some (replicate 16385 255), num_grays = 256,
                              pixel_mode = FT_PIXEL_MODE_GRAY\<rparr>,
                   bitmap_left = 65535, bitmap_top = 1, slot_format = FT_GLYPH_FORMAT_BITMAP,
                   own_bitmap = True\<rparr>"

definition ex_canvas_wrapped :: FT_GlyphSlot where
  "ex_canvas_wrapped = \<lparr>bitmap = \<lparr>rows = 16385, width = 65536, pitch = 262144,
                                    buffer = Some ([0, 0, 255, 255] @ replicate 262140 0),
                                    num_grays = 256, pixel_mode = FT_PIXEL_MODE_BGRA\<rparr>,
                         bitmap_left = 0, bitmap_top = 1,
                         slot_format = FT_GLYPH_FORMAT_BITMAP, own_bitmap = True\<rparr>"

section \<open>Properties\<close>

subsection \<open>Unfolding sets for evaluation\<close>

lemmas read_defs = peek_byte_def FT_PEEK_USHORT_def FT_PEEK_ULONG_def FT_NEXT_USHORT_def
  FT_NEXT_ULONG_def FT_NEXT_SHORT_def FT_NEXT_LONG_def signed_16_def signed_32_def

lemmas size_defs = BASE_GLYPH_SIZE_def BASE_GLYPH_V1_SIZE_def LAYER_V1_RECORD_SIZE_def
  COLOR_STOP_SIZE_def LAYER_SIZE_def COLR_HEADER_SIZE_def

lemmas paint_defs = COLR_PAINTFORMAT_SOLID_def COLR_PAINTFORMAT_LINEAR_GRADIENT_def
  COLR_PAINTFORMAT_RADIAL_GRADIENT_def COLR_PAINT_FORMAT_MAX_def COLR_PAINT_EXTEND_REFLECT_def
  read_paint_def read_paint_solid_def read_paint_linear_def read_paint_radial_def
  read_color_line_def read_affine_def next_short_var_def next_ushort_var_def

lemmas load_defs = tt_face_load_colr_def FT_FRAME_EXTRACT_def FT_FRAME_RELEASE_def FT_NEW_def
  FT_FREE_def InvalidTable_def load_colr_finish_def to_FT_ULong_def to_FT_UShort_def

lemmas layer_defs = tt_face_get_colr_layer_def colr_layer_next_def find_base_glyph_record_def
  find_base_glyph_loop.simps to_FT_UInt_def incr_FT_UInt_def

lemmas gradients_defs = tt_face_get_colr_layer_gradients_def colr_layer_gradients_next_def
  find_base_glyph_v1_record_def find_base_glyph_v1_loop.simps to_FT_UInt_def incr_FT_UInt_def

subsection \<open>The example tables are accepted by the decoder\<close>

lemma load_ex_v0:
  "tt_face_load_colr ex_face (ex_stream ex_v0) =
     Some (FT_Err_Ok, ex_face\<lparr>face_colr := Some (ex_v0_colr ex_v0), mem_blocks := 1\<rparr>,
           (ex_stream ex_v0)\<lparr>stream_frames := 1\<rparr>)"
  by (simp add: load_defs read_defs size_defs ex_face_def ex_stream_def ex_v0_def ex_v0_colr_def)

lemma load_ex_v0_bad_layer:
  "tt_face_load_colr ex_face (ex_stream ex_v0_bad_layer) =
     Some (FT_Err_Ok, ex_face\<lparr>face_colr := Some (ex_v0_colr ex_v0_bad_layer), mem_blocks := 1\<rparr>,
           (ex_stream ex_v0_bad_layer)\<lparr>stream_frames := 1\<rparr>)"
  by (simp add: load_defs read_defs size_defs ex_face_def ex_stream_def ex_v0_bad_layer_def
      ex_v0_colr_def)

lemma load_ex_v1_solid:
  "tt_face_load_colr ex_face (ex_stream ex_v1_solid) =
     Some (FT_Err_Ok, ex_face\<lparr>face_colr := Some (ex_v1_colr ex_v1_solid), mem_blocks := 1\<rparr>,
           (ex_stream ex_v1_solid)\<lparr>stream_frames := 1\<rparr>)"
  by (simp add: load_defs read_defs size_defs ex_face_def ex_stream_def ex_v1_solid_def
      ex_v1_colr_def)

lemma load_ex_v1_linear:
  "tt_face_load_colr ex_face (ex_stream ex_v1_linear) =
     Some (FT_Err_Ok, ex_face\<lparr>face_colr := Some (ex_v1_colr ex_v1_linear), mem_blocks := 1\<rparr>,
           (ex_stream ex_v1_linear)\<lparr>stream_frames := 1\<rparr>)"
  by (simp add: load_defs read_defs size_defs ex_face_def ex_stream_def ex_v1_linear_def
      ex_v1_colr_def)


subsection \<open>The palette comes first\<close>

text \<open>
  C10.  A face without a CPAL table: \<^verbatim>\<open>tt_face_load_colr\<close> fails with
  \<^verbatim>\<open>Invalid_File_Format\<close> whatever the stream holds (no byte of it is looked at, no
  frame is extracted, nothing is allocated), and the face is left as it was, so without
  a COLR table if it had none.
\<close>

theorem load_colr_needs_cpal:
  "\<not> face_cpal face \<Longrightarrow>
   tt_face_load_colr face stream = Some (Invalid_File_Format, face, stream)"
  by (simp add: tt_face_load_colr_def)

text \<open>
  C10 at a concrete face: \<open>ex_face\<close> with its CPAL table taken away, and a stream
  holding the well-formed table \<open>ex_v0\<close>.
\<close>

theorem load_colr_needs_cpal_witness:
  "\<not> face_cpal (ex_face\<lparr>face_cpal := False\<rparr>) \<and>
   tt_face_load_colr (ex_face\<lparr>face_cpal := False\<rparr>) (ex_stream ex_v0) =
     Some (Invalid_File_Format, ex_face\<lparr>face_cpal := False\<rparr>, ex_stream ex_v0) \<and>
   face_colr (ex_face\<lparr>face_cpal := False\<rparr>) = None"
  using load_colr_needs_cpal [of "ex_face\<lparr>face_cpal := False\<rparr>" "ex_stream ex_v0"]
  by (simp add: ex_face_def)

subsection \<open>Reads outside the table\<close>

text \<open>
  C1.  The claim is that no traversal reads outside the table and that every color-stop
  read is validated against the end of the table first.  The table \<open>ex_v1_linear\<close> (90
  bytes) is accepted by the decoder; the first call of
  \<^verbatim>\<open>tt_face_get_colr_layer_gradients\<close> for glyph 5 succeeds and delivers a color
  line with one stop at offset 84.  The bound of \<^verbatim>\<open>tt_face_get_colorline_stops\<close>
  holds (84 + 1 * 6 is not beyond 90), and the reads that follow leave the table at
  offset 90: the result is \<open>None\<close>.
\<close>

theorem colorline_stops_read_past_table_end:
  "tt_face_load_colr ex_face (ex_stream ex_v1_linear) =
     Some (FT_Err_Ok, ex_face\<lparr>face_colr := Some (ex_v1_colr ex_v1_linear), mem_blocks := 1\<rparr>,
           (ex_stream ex_v1_linear)\<lparr>stream_frames := 1\<rparr>) \<and>
   map_option (\<lambda>(r, g, paint, it). (r, g, color_stop_iterator (gradient_colorline paint)))
     (tt_face_get_colr_layer_gradients
        (ex_face\<lparr>face_colr := Some (ex_v1_colr ex_v1_linear), mem_blocks := 1\<rparr>) 5
        (0, ex_paint, fresh_iterator)) =
     Some (True, 3, \<lparr>num_color_stops = 1, current_color_stop = 0, stop_p = Some 84\<rparr>) \<and>
   length ex_v1_linear = 90 \<and>
   tt_face_get_colorline_stops
     (ex_face\<lparr>face_colr := Some (ex_v1_colr ex_v1_linear), mem_blocks := 1\<rparr>)
     (ex_stop, \<lparr>num_color_stops = 1, current_color_stop = 0, stop_p = Some 84\<rparr>) = None"
proof -
  have a: "map_option (\<lambda>(r, g, paint, it). (r, g, color_stop_iterator (gradient_colorline paint)))
     (tt_face_get_colr_layer_gradients
        (ex_face\<lparr>face_colr := Some (ex_v1_colr ex_v1_linear), mem_blocks := 1\<rparr>) 5
        (0, ex_paint, fresh_iterator)) =
     Some (True, 3, \<lparr>num_color_stops = 1, current_color_stop = 0, stop_p = Some 84\<rparr>)"
    by (simp add: gradients_defs read_defs size_defs paint_defs ex_face_def ex_v1_colr_def
        ex_v1_linear_def fresh_iterator_def ex_paint_def Let_def)
  have b: "tt_face_get_colorline_stops
     (ex_face\<lparr>face_colr := Some (ex_v1_colr ex_v1_linear), mem_blocks := 1\<rparr>)
     (ex_stop, \<lparr>num_color_stops = 1, current_color_stop = 0, stop_p = Some 84\<rparr>) = None"
    by (simp add: tt_face_get_colorline_stops_def read_defs size_defs ex_face_def
        ex_v1_colr_def ex_v1_linear_def ex_stop_def)
  have c: "length ex_v1_linear = 90"
    by (simp add: ex_v1_linear_def)
  from load_ex_v1_linear a b c show ?thesis by blast
qed

subsection \<open>The affine of a radial gradient\<close>

text \<open>
  C3.  The claim is that a radial gradient with affine offset 0 decodes to the identity
  affine (1, 0, 0, 1).  \<open>ex_radial\<close> is such a paint record; decoded into a structure
  whose affine holds (7, 7, 7, 7), \<^verbatim>\<open>read_paint\<close> returns 1 and the affine still
  holds (7, 7, 7, 7): the source returns before its assignments to the matrix.
\<close>

theorem read_paint_radial_zero_offset_keeps_affine:
  "map_option (\<lambda>(r, paint). (r, format paint, radial_affine paint))
     (read_paint ex_radial 0 0 ex_paint) =
     Some (True, COLR_PAINTFORMAT_RADIAL_GRADIENT, \<lparr>xx = 7, xy = 7, yx = 7, yy = 7\<rparr>)"
  by (simp add: read_defs paint_defs ex_radial_def ex_paint_def Let_def)

text \<open>What does hold of the paint decoder: a solid paint delivers the palette index and
  the alpha value as stored, and a nonzero affine offset delivers the four components
  stored at \<open>paint_base + offset\<close>, each followed by its four discarded bytes.\<close>

lemma read_paint_solid_stored:
  assumes "read_paint tbl layer_v1_array paint_offset apaint = Some (ok, apaint')"
    and "format apaint' = COLR_PAINTFORMAT_SOLID"
  shows "ok \<and>
         FT_PEEK_USHORT tbl (layer_v1_array + int paint_offset + 2) =
           Some (palette_index (solid_color apaint')) \<and>
         FT_PEEK_USHORT tbl (layer_v1_array + int paint_offset + 4) =
           Some (color_alpha (solid_color apaint'))"
  using assms
  by (auto simp: read_paint_def read_paint_solid_def read_paint_linear_def
      read_paint_radial_def FT_NEXT_USHORT_def FT_NEXT_ULONG_def Let_def
      COLR_PAINTFORMAT_SOLID_def COLR_PAINTFORMAT_LINEAR_GRADIENT_def
      COLR_PAINTFORMAT_RADIAL_GRADIENT_def COLR_PAINT_FORMAT_MAX_def add.commute
      split: if_splits bind_splits)

lemma read_affine_stored:
  assumes "read_affine tbl paint_base affine_offset affine = Some (ok, m)"
  shows "ok \<and>
         map_option signed_32 (FT_PEEK_ULONG tbl (paint_base + int affine_offset)) = Some (xx m) \<and>
         map_option signed_32 (FT_PEEK_ULONG tbl (paint_base + int affine_offset + 8)) =
           Some (xy m) \<and>
         map_option signed_32 (FT_PEEK_ULONG tbl (paint_base + int affine_offset + 16)) =
           Some (yx m) \<and>
         map_option signed_32 (FT_PEEK_ULONG tbl (paint_base + int affine_offset + 24)) =
           Some (yy m)"
  using assms
  by (clarsimp simp: read_affine_def FT_NEXT_LONG_def FT_NEXT_ULONG_def bind_eq_Some_conv
      algebra_simps)

lemma read_paint_radial_affine:
  assumes "read_paint_radial tbl paint_base p apaint = Some (ok, apaint')"
    and "FT_PEEK_ULONG tbl (p + 40) = Some affine_offset"
    and "affine_offset \<noteq> 0"
    and "ok"
  shows "read_affine tbl paint_base affine_offset \<lparr>xx = 1, xy = 0, yx = 1, yy = 0\<rparr> =
           Some (True, radial_affine apaint')"
  using assms
  by (clarsimp simp: read_paint_radial_def next_short_var_def next_ushort_var_def
      FT_NEXT_SHORT_def FT_NEXT_USHORT_def FT_NEXT_ULONG_def bind_eq_Some_conv
      algebra_simps split: if_splits)

subsection \<open>A failed layer and the calls after it\<close>

text \<open>
  C4.  The claim is that after a per-record failure every later call on the same cursor
  yields no more layers.  In \<open>ex_v0_bad_layer\<close> (accepted by the decoder) the first layer
  of glyph 5 names glyph 100 of a face with ten glyphs.  The first call of
  \<^verbatim>\<open>tt_face_get_colr_layer\<close> returns 0, with the cursor's pointer moved past the
  record and its layer counter still 0; the second call on that cursor returns 1 with
  the pair (3, 0xFFFF).
\<close>

theorem colr_layer_call_after_failure_succeeds:
  "tt_face_load_colr ex_face (ex_stream ex_v0_bad_layer) =
     Some (FT_Err_Ok, ex_face\<lparr>face_colr := Some (ex_v0_colr ex_v0_bad_layer), mem_blocks := 1\<rparr>,
           (ex_stream ex_v0_bad_layer)\<lparr>stream_frames := 1\<rparr>) \<and>
   tt_face_get_colr_layer
     (ex_face\<lparr>face_colr := Some (ex_v0_colr ex_v0_bad_layer), mem_blocks := 1\<rparr>) 5
     (0, 0, fresh_iterator) =
     Some (False, 100, 1, \<lparr>it_num_layers = 2, it_layer = 0, it_p = Some 40\<rparr>) \<and>
   tt_face_get_colr_layer
     (ex_face\<lparr>face_colr := Some (ex_v0_colr ex_v0_bad_layer), mem_blocks := 1\<rparr>) 5
     (100, 1, \<lparr>it_num_layers = 2, it_layer = 0, it_p = Some 40\<rparr>) =
     Some (True, 3, 0xFFFF, \<lparr>it_num_layers = 2, it_layer = 1, it_p = Some 44\<rparr>)"
proof -
  have a: "tt_face_get_colr_layer
     (ex_face\<lparr>face_colr := Some (ex_v0_colr ex_v0_bad_layer), mem_blocks := 1\<rparr>) 5
     (0, 0, fresh_iterator) =
     Some (False, 100, 1, \<lparr>it_num_layers = 2, it_layer = 0, it_p = Some 40\<rparr>)"
    by (simp add: layer_defs read_defs size_defs ex_face_def ex_v0_colr_def
        ex_v0_bad_layer_def fresh_iterator_def Let_def)
  have b: "tt_face_get_colr_layer
     (ex_face\<lparr>face_colr := Some (ex_v0_colr ex_v0_bad_layer), mem_blocks := 1\<rparr>) 5
     (100, 1, \<lparr>it_num_layers = 2, it_layer = 0, it_p = Some 40\<rparr>) =
     Some (True, 3, 0xFFFF, \<lparr>it_num_layers = 2, it_layer = 1, it_p = Some 44\<rparr>)"
    by (simp add: layer_defs read_defs size_defs ex_face_def ex_v0_colr_def
        ex_v0_bad_layer_def Let_def)
  from load_ex_v0_bad_layer a b show ?thesis by blast
qed

text \<open>A call of \<^verbatim>\<open>tt_face_get_colorline_stops\<close> that returns 0 changes neither the
  stop nor the cursor, so that the next call on that cursor returns 0 again.\<close>

lemma colorline_stops_failure_keeps_cursor:
  assumes "tt_face_get_colorline_stops face st = Some (False, st')"
  shows "st' = st"
  using assms
  by (cases st)
     (auto simp: tt_face_get_colorline_stops_def bind_eq_Some_conv split: if_splits)

subsection \<open>The glyph id of a version 1 layer\<close>

text \<open>
  C5.  The claim is that both iterators fail on a glyph id greater than or equal to the
  number of glyphs.  In \<open>ex_v1_solid\<close> (accepted by the decoder) the layer of glyph 5
  names glyph 10 and the face has ten glyphs (0 to 9):
  \<^verbatim>\<open>tt_face_get_colr_layer_gradients\<close> returns 1 with glyph index 10.  Its test is
  \<^verbatim>\<open>gid > num_glyphs\<close>, where \<^verbatim>\<open>tt_face_get_colr_layer\<close> has \<^verbatim>\<open>>=\<close>.
\<close>

theorem colr_layer_gradients_accepts_gid_num_glyphs:
  "tt_face_load_colr ex_face (ex_stream ex_v1_solid) =
     Some (FT_Err_Ok, ex_face\<lparr>face_colr := Some (ex_v1_colr ex_v1_solid), mem_blocks := 1\<rparr>,
           (ex_stream ex_v1_solid)\<lparr>stream_frames := 1\<rparr>) \<and>
   face_num_glyphs ex_face = 10 \<and>
   tt_face_get_colr_layer_gradients
     (ex_face\<lparr>face_colr := Some (ex_v1_colr ex_v1_solid), mem_blocks := 1\<rparr>) 5
     (0, ex_paint, fresh_iterator) =
     Some (True, 10,
           ex_paint\<lparr>format := COLR_PAINTFORMAT_SOLID,
                    solid_color := \<lparr>palette_index = 1, color_alpha = 0x4000\<rparr>\<rparr>,
           \<lparr>it_num_layers = 1, it_layer = 1, it_p = Some 38\<rparr>)"
proof -
  have a: "tt_face_get_colr_layer_gradients
     (ex_face\<lparr>face_colr := Some (ex_v1_colr ex_v1_solid), mem_blocks := 1\<rparr>) 5
     (0, ex_paint, fresh_iterator) =
     Some (True, 10,
           ex_paint\<lparr>format := COLR_PAINTFORMAT_SOLID,
                    solid_color := \<lparr>palette_index = 1, color_alpha = 0x4000\<rparr>\<rparr>,
           \<lparr>it_num_layers = 1, it_layer = 1, it_p = Some 38\<rparr>)"
    by (simp add: gradients_defs read_defs size_defs paint_defs ex_face_def ex_v1_colr_def
        ex_v1_solid_def fresh_iterator_def ex_paint_def Let_def)
  have b: "face_num_glyphs ex_face = 10"
    by (simp add: ex_face_def)
  from load_ex_v1_solid a b show ?thesis by blast
qed

text \<open>What does hold of the two layer iterators: a pair that
  \<^verbatim>\<open>tt_face_get_colr_layer\<close> delivers has passed both tests, and a glyph index that
  \<^verbatim>\<open>tt_face_get_colr_layer_gradients\<close> delivers is at most the number of glyphs.\<close>

lemma colr_layer_delivered_is_valid:
  assumes "tt_face_get_colr_layer face base_glyph st = Some (True, g, c, iterator)"
  shows "g < to_FT_UInt (face_num_glyphs face) \<and>
         (c = 0xFFFF \<or> c < face_num_palette_entries face)"
proof -
  have next_valid: "g < to_FT_UInt (face_num_glyphs face) \<and>
         (c = 0xFFFF \<or> c < face_num_palette_entries face)"
    if "colr_layer_next face colr st' = Some (True, g, c, iterator)" for colr st'
    using that
    by (cases st')
       (auto simp: colr_layer_next_def Let_def bind_eq_Some_conv split: if_splits)
  show ?thesis
    using assms
    by (cases st)
       (auto simp: tt_face_get_colr_layer_def Let_def
          split: option.splits if_splits dest: next_valid)
qed

lemma colr_layer_gradients_delivered:
  assumes "tt_face_get_colr_layer_gradients face base_glyph st = Some (True, g, paint, iterator)"
  shows "g \<le> to_FT_UInt (face_num_glyphs face)"
proof -
  have next_le: "g \<le> to_FT_UInt (face_num_glyphs face)"
    if "colr_layer_gradients_next face colr st' = Some (True, g, paint, iterator)" for colr st'
    using that
    by (cases st')
       (auto simp: colr_layer_gradients_next_def Let_def bind_eq_Some_conv split: if_splits)
  show ?thesis
    using assms
    by (cases st)
       (auto simp: tt_face_get_colr_layer_gradients_def Let_def bind_eq_Some_conv
          split: option.splits if_splits dest: next_le)
qed

subsection \<open>The table decoder\<close>

text \<open>First what holds of the calls whose reads stay inside the table: a call that
  returns \<^verbatim>\<open>FT_Err_Ok\<close> has found the header and the three arrays fitting the table
  (\<open>load_colr_ok_fits\<close>), a call that returns an error leaves the face and the stream as
  they were (\<open>load_colr_failure_keeps_face\<close>), and a header that does not fit gives
  \<^verbatim>\<open>Invalid_Table\<close> (\<open>load_colr_unfit_invalid\<close>).\<close>

lemma peek_byte_bound: "peek_byte tbl a = Some v \<Longrightarrow> v < 256"
  using unsigned_less [of "tbl ! nat a", where 'a = nat]
  by (auto simp: peek_byte_def split: if_splits)

lemma peek_ulong_bound: "FT_PEEK_ULONG tbl a = Some v \<Longrightarrow> v < 2 ^ 32"
  by (auto simp: FT_PEEK_ULONG_def split: bind_splits dest!: peek_byte_bound)

lemma peek_ushort_bound: "FT_PEEK_USHORT tbl a = Some v \<Longrightarrow> v < 2 ^ 16"
  by (auto simp: FT_PEEK_USHORT_def split: bind_splits dest!: peek_byte_bound)

text \<open>With a 64-bit \<^verbatim>\<open>FT_ULong\<close> the product of a 32-bit count and the record size
  does not wrap.\<close>

lemma to_FT_ULong_count:
  "FT_PEEK_ULONG tbl a = Some v \<Longrightarrow> to_FT_ULong (int (v * 6)) = v * 6"
  using peek_ulong_bound [of tbl a v] by (simp add: to_FT_ULong_def nat_mod_distrib)

lemma to_FT_ULong_count':
  "FT_PEEK_ULONG tbl a = Some v \<Longrightarrow> to_FT_ULong (int v * 6) = v * 6"
  using to_FT_ULong_count [of tbl a v] by simp

lemma room_less_iff: "\<not> n \<le> (a::nat) \<Longrightarrow> (n - a < c) = (\<not> a + c \<le> n)"
  by arith

lemma FT_FREE_after_FT_NEW: "FT_FREE (face\<lparr>mem_blocks := Suc (mem_blocks face)\<rparr>) = face"
  by (simp add: FT_FREE_def)

lemma FT_FRAME_RELEASE_after_EXTRACT:
  "FT_FRAME_RELEASE (stream\<lparr>stream_frames := Suc (stream_frames stream)\<rparr>) = stream"
  by (simp add: FT_FRAME_RELEASE_def)

lemma load_colr_ok_fits:
  assumes "tt_face_load_colr face stream = Some (FT_Err_Ok, face', stream')"
  shows "colr_header_fits (goto_table_size stream)
           (take (goto_table_size stream) (stream_bytes stream)) \<and>
         (\<exists>colr. face_colr face' = Some colr \<and>
            colr_table colr = take (goto_table_size stream) (stream_bytes stream) \<and>
            colr_table_size colr = goto_table_size stream)"
  using assms
  unfolding tt_face_load_colr_def FT_FRAME_EXTRACT_def FT_NEW_def InvalidTable_def
    load_colr_finish_def colr_header_fits_def FT_NEXT_USHORT_def FT_NEXT_ULONG_def
  by (auto simp: Let_def to_FT_ULong_count to_FT_ULong_count' room_less_iff size_defs
      split: if_splits sum.splits bind_splits)

lemma load_colr_failure_keeps_face:
  assumes "tt_face_load_colr face stream = Some (error, face', stream')"
    and "error \<noteq> FT_Err_Ok"
  shows "face' = face \<and> stream' = stream"
  using assms
  unfolding tt_face_load_colr_def FT_FRAME_EXTRACT_def FT_NEW_def InvalidTable_def
    load_colr_finish_def FT_NEXT_USHORT_def FT_NEXT_ULONG_def
  by (auto simp: Let_def FT_FREE_after_FT_NEW FT_FRAME_RELEASE_after_EXTRACT
      split: if_splits sum.splits bind_splits)

lemma load_colr_unfit_invalid:
  assumes "tt_face_load_colr face stream = Some (error, face', stream')"
    and "face_cpal face" and "goto_table_error stream = FT_Err_Ok"
    and "goto_table_size stream \<le> length (stream_bytes stream)" and "\<not> mem_fails face"
    and "\<not> colr_header_fits (goto_table_size stream)
           (take (goto_table_size stream) (stream_bytes stream))"
  shows "error = Invalid_Table"
  using assms
  unfolding tt_face_load_colr_def FT_FRAME_EXTRACT_def FT_NEW_def InvalidTable_def
    load_colr_finish_def colr_header_fits_def FT_NEXT_USHORT_def FT_NEXT_ULONG_def
  by (auto simp: Let_def to_FT_ULong_count to_FT_ULong_count' room_less_iff size_defs
      split: if_splits sum.splits bind_splits)

lemma load_ex_v0_long_layers:
  "tt_face_load_colr ex_face (ex_stream ex_v0_long_layers) =
     Some (Invalid_Table, ex_face, ex_stream ex_v0_long_layers)"
  by (simp add: load_defs read_defs size_defs ex_face_def ex_stream_def ex_v0_long_layers_def)

text \<open>
  C2.  The claim is that for every buffer and declared length the decoder either
  succeeds, the header and the three arrays fitting the table, or returns
  \<^verbatim>\<open>Invalid_Table\<close> and leaves the face without a table.  The table \<open>ex_v1_short\<close> has
  14 bytes, the value of \<^verbatim>\<open>COLR_HEADER_SIZE\<close>, so that the test
  \<^verbatim>\<open>table_size < COLR_HEADER_SIZE\<close> lets it pass; its version is 1 and its two
  version 0 arrays are empty and at offset 0.  The header of a version 1 table has 18
  bytes: the decoder reads the offset of the v1 base-glyph array at offsets 14 to 17,
  outside the table.  The call neither succeeds nor returns \<^verbatim>\<open>Invalid_Table\<close>: the
  result is \<open>None\<close>.
\<close>

theorem tt_face_load_colr_reads_past_short_header:
  "goto_table_size (ex_stream ex_v1_short) = 14 \<and>
   length (stream_bytes (ex_stream ex_v1_short)) = 14 \<and>
   COLR_HEADER_SIZE = 14 \<and>
   FT_NEXT_USHORT ex_v1_short 0 = Some (1, 2) \<and>
   FT_NEXT_ULONG ex_v1_short 14 = None \<and>
   tt_face_load_colr ex_face (ex_stream ex_v1_short) = None"
proof -
  have a: "goto_table_size (ex_stream ex_v1_short) = 14"
    "length (stream_bytes (ex_stream ex_v1_short)) = 14"
    by (simp_all add: ex_stream_def ex_v1_short_def)
  have b: "FT_NEXT_USHORT ex_v1_short 0 = Some (1, 2)" "FT_NEXT_ULONG ex_v1_short 14 = None"
    by (simp_all add: read_defs ex_v1_short_def)
  have c: "tt_face_load_colr ex_face (ex_stream ex_v1_short) = None"
    by (simp add: load_defs read_defs size_defs ex_face_def ex_stream_def ex_v1_short_def)
  from a b c show ?thesis by (simp add: COLR_HEADER_SIZE_def)
qed

text \<open>The count of the v1 base-glyph array is read in the same way.  The test
  \<^verbatim>\<open>base_glyphs_v1_offset >= table_size\<close> lets the offset 18 of the 19-byte table
  \<open>ex_v1_count_at_end\<close> pass, and the four bytes of the count are read at offsets 18 to
  21.\<close>

lemma load_colr_count_read_outside:
  "tt_face_load_colr ex_face (ex_stream ex_v1_count_at_end) = None"
  by (simp add: load_defs read_defs size_defs ex_face_def ex_stream_def ex_v1_count_at_end_def)

text \<open>The test \<^verbatim>\<open>num_base_glyphs_v1 * BASE_GLYPH_V1_SIZE > table_size - base_glyphs_v1_offset\<close>
  leaves the four bytes of the count out.  The first 26 bytes of \<open>ex_v1_solid\<close> are
  accepted: the array is at offset 18 and has one record, which ends at offset 28; the
  search for a base glyph then reads outside the table.\<close>

lemma load_colr_accepts_cut_v1_array:
  "tt_face_load_colr ex_face (ex_stream (take 26 ex_v1_solid)) =
     Some (FT_Err_Ok,
           ex_face\<lparr>face_colr := Some (ex_v1_colr (take 26 ex_v1_solid)), mem_blocks := 1\<rparr>,
           (ex_stream (take 26 ex_v1_solid))\<lparr>stream_frames := 1\<rparr>)"
  by (simp add: load_defs read_defs size_defs ex_face_def ex_stream_def ex_v1_solid_def
      ex_v1_colr_def)

lemma cut_v1_array_search_reads_outside:
  "tt_face_get_colr_layer_gradients
     (ex_face\<lparr>face_colr := Some (ex_v1_colr (take 26 ex_v1_solid)), mem_blocks := 1\<rparr>) 5
     (0, ex_paint, fresh_iterator) = None"
  by (simp add: gradients_defs read_defs size_defs paint_defs ex_face_def ex_v1_colr_def
      ex_v1_solid_def fresh_iterator_def ex_paint_def Let_def)

subsection \<open>The binary searches\<close>

lemma peek_byte_inside:
  "0 \<le> a \<Longrightarrow> a < int (length tbl) \<Longrightarrow> peek_byte tbl a = Some (unat (tbl ! nat a))"
  by (simp add: peek_byte_def)

lemma FT_NEXT_USHORT_inside:
  "0 \<le> a \<Longrightarrow> a + 2 \<le> int (length tbl) \<Longrightarrow>
   FT_NEXT_USHORT tbl a = Some (u16_at tbl a, a + 2)"
  by (simp add: FT_NEXT_USHORT_def FT_PEEK_USHORT_def peek_byte_inside u16_at_def)

lemma FT_NEXT_ULONG_inside:
  "0 \<le> a \<Longrightarrow> a + 4 \<le> int (length tbl) \<Longrightarrow>
   FT_NEXT_ULONG tbl a = Some (u32_at tbl a, a + 4)"
  by (simp add: FT_NEXT_ULONG_def FT_PEEK_ULONG_def peek_byte_inside u32_at_def)

lemma midpoint_between:
  fixes lo hi :: int
  assumes "lo \<le> hi"
  shows "lo \<le> lo + (hi - lo) div 2" and "lo + (hi - lo) div 2 \<le> hi"
  using assms by auto

text \<open>One round of the loop of \<^verbatim>\<open>find_base_glyph_record\<close>, the probed record being
  inside the table.\<close>

lemma find_base_glyph_loop_step:
  assumes "0 \<le> base" and "base + 6 * int n \<le> int (length tbl)"
    and "0 \<le> lo" and "lo \<le> hi" and "hi < int n"
  defines "mid \<equiv> lo + (hi - lo) div 2"
  shows "find_base_glyph_loop tbl base g lo hi =
           (if bg_gid (BaseGlyphRecord_at tbl base (nat mid)) < g
            then find_base_glyph_loop tbl base g (mid + 1) hi
            else if bg_gid (BaseGlyphRecord_at tbl base (nat mid)) > g
            then find_base_glyph_loop tbl base g lo (mid - 1)
            else Some (Some (BaseGlyphRecord_at tbl base (nat mid))))"
proof -
  have m: "lo \<le> mid" "mid \<le> hi"
    using midpoint_between [OF \<open>lo \<le> hi\<close>] by (simp_all add: mid_def)
  with assms have mn: "0 \<le> mid" "mid < int n" by auto
  have b: "0 \<le> base + mid * 6" "base + mid * 6 + 6 \<le> int (length tbl)"
    using mn assms(1,2) by linarith+
  have r: "BaseGlyphRecord_at tbl base (nat mid) =
             \<lparr>bg_gid = u16_at tbl (base + mid * 6),
              bg_first_layer_index = u16_at tbl (base + mid * 6 + 2),
              bg_num_layers = u16_at tbl (base + mid * 6 + 2 + 2)\<rparr>"
    using mn by (simp add: BaseGlyphRecord_at_def algebra_simps)
  show ?thesis
    unfolding r using b
    by (subst find_base_glyph_loop.simps)
       (simp add: \<open>lo \<le> hi\<close> mid_def [symmetric] Let_def BASE_GLYPH_SIZE_def
          FT_NEXT_USHORT_inside)
qed

text \<open>An id that no record between \<open>lo\<close> and \<open>hi\<close> carries is not found; sortedness plays
  no part.\<close>

lemma find_base_glyph_loop_absent:
  assumes "0 \<le> base" and "base + 6 * int n \<le> int (length tbl)"
  shows "0 \<le> lo \<Longrightarrow> hi < int n \<Longrightarrow>
         (\<And>k. lo \<le> int k \<Longrightarrow> int k \<le> hi \<Longrightarrow> bg_gid (BaseGlyphRecord_at tbl base k) \<noteq> g) \<Longrightarrow>
         find_base_glyph_loop tbl base g lo hi = Some None"
proof (induction "nat (hi - lo + 1)" arbitrary: lo hi rule: less_induct)
  case less
  show ?case
  proof (cases "lo \<le> hi")
    case False
    then show ?thesis by (simp add: find_base_glyph_loop.simps)
  next
    case True
    define mid where "mid = lo + (hi - lo) div 2"
    have m: "lo \<le> mid" "mid \<le> hi"
      using midpoint_between [OF True] by (simp_all add: mid_def)
    with less.prems have mn: "0 \<le> mid" "mid < int n" by auto
    have ne: "bg_gid (BaseGlyphRecord_at tbl base (nat mid)) \<noteq> g"
      using less.prems(3) [of "nat mid"] m mn by simp
    have up: "find_base_glyph_loop tbl base g (mid + 1) hi = Some None"
      using less.hyps [of hi "mid + 1"] less.prems m mn by auto
    have dn: "find_base_glyph_loop tbl base g lo (mid - 1) = Some None"
      using less.hyps [of "mid - 1" lo] less.prems m mn by auto
    show ?thesis
      using find_base_glyph_loop_step [OF assms less.prems(1) True less.prems(2), of g] ne up dn
      by (simp add: mid_def)
  qed
qed

text \<open>An id that the record \<open>k\<close> between \<open>lo\<close> and \<open>hi\<close> carries is found, and the record
  returned is that one, when the ids ascend strictly.\<close>

lemma find_base_glyph_loop_present:
  assumes "0 \<le> base" and "base + 6 * int n \<le> int (length tbl)"
    and srt: "\<And>i j. i < j \<Longrightarrow> j < n \<Longrightarrow>
               bg_gid (BaseGlyphRecord_at tbl base i) < bg_gid (BaseGlyphRecord_at tbl base j)"
    and g: "bg_gid (BaseGlyphRecord_at tbl base k) = g"
  shows "0 \<le> lo \<Longrightarrow> hi < int n \<Longrightarrow> lo \<le> int k \<Longrightarrow> int k \<le> hi \<Longrightarrow>
         find_base_glyph_loop tbl base g lo hi = Some (Some (BaseGlyphRecord_at tbl base k))"
proof (induction "nat (hi - lo + 1)" arbitrary: lo hi rule: less_induct)
  case less
  have True: "lo \<le> hi" using less.prems by simp
  define mid where "mid = lo + (hi - lo) div 2"
  have m: "lo \<le> mid" "mid \<le> hi"
    using midpoint_between [OF True] by (simp_all add: mid_def)
  with less.prems have mn: "0 \<le> mid" "mid < int n" by auto
  have kn: "k < n" using less.prems by simp
  note step = find_base_glyph_loop_step [OF assms(1,2) less.prems(1) True less.prems(2), of g,
      folded mid_def]
  consider (lt) "nat mid < k" | (eq) "nat mid = k" | (gt) "k < nat mid" by linarith
  then show ?case
  proof cases
    case lt
    then have "bg_gid (BaseGlyphRecord_at tbl base (nat mid)) < g"
      using srt [of "nat mid" k] kn g by simp
    moreover have "find_base_glyph_loop tbl base g (mid + 1) hi =
                     Some (Some (BaseGlyphRecord_at tbl base k))"
      using less.hyps [of hi "mid + 1"] less.prems m mn lt by auto
    ultimately show ?thesis using step by simp
  next
    case eq
    then show ?thesis using step g by simp
  next
    case gt
    then have "g < bg_gid (BaseGlyphRecord_at tbl base (nat mid))"
      using srt [of k "nat mid"] mn g by simp
    moreover have "find_base_glyph_loop tbl base g lo (mid - 1) =
                     Some (Some (BaseGlyphRecord_at tbl base k))"
      using less.hyps [of "mid - 1" lo] less.prems m mn gt by auto
    ultimately show ?thesis using step by simp
  qed
qed

text \<open>The same three steps for \<^verbatim>\<open>find_base_glyph_v1_record\<close>, whose records start four
  bytes after \<open>base\<close>.\<close>

lemma find_base_glyph_v1_loop_step:
  assumes "0 \<le> base" and "base + 4 + 6 * int n \<le> int (length tbl)"
    and "0 \<le> lo" and "lo \<le> hi" and "hi < int n"
  defines "mid \<equiv> lo + (hi - lo) div 2"
  shows "find_base_glyph_v1_loop tbl base g lo hi =
           (if bgv1_gid (BaseGlyphV1Record_at tbl base (nat mid)) < g
            then find_base_glyph_v1_loop tbl base g (mid + 1) hi
            else if bgv1_gid (BaseGlyphV1Record_at tbl base (nat mid)) > g
            then find_base_glyph_v1_loop tbl base g lo (mid - 1)
            else Some (Some (BaseGlyphV1Record_at tbl base (nat mid))))"
proof -
  have m: "lo \<le> mid" "mid \<le> hi"
    using midpoint_between [OF \<open>lo \<le> hi\<close>] by (simp_all add: mid_def)
  with assms have mn: "0 \<le> mid" "mid < int n" by auto
  have b: "0 \<le> base + 4 + mid * 6" "base + 4 + mid * 6 + 6 \<le> int (length tbl)"
    using mn assms(1,2) by linarith+
  have r: "BaseGlyphV1Record_at tbl base (nat mid) =
             \<lparr>bgv1_gid = u16_at tbl (base + 4 + mid * 6),
              bgv1_layer_array_offset = u32_at tbl (base + 4 + mid * 6 + 2)\<rparr>"
    using mn by (simp add: BaseGlyphV1Record_at_def algebra_simps)
  show ?thesis
    unfolding r using b
    by (subst find_base_glyph_v1_loop.simps)
       (simp add: \<open>lo \<le> hi\<close> mid_def [symmetric] Let_def BASE_GLYPH_V1_SIZE_def
          FT_NEXT_USHORT_inside FT_NEXT_ULONG_inside)
qed

lemma find_base_glyph_v1_loop_absent:
  assumes "0 \<le> base" and "base + 4 + 6 * int n \<le> int (length tbl)"
  shows "0 \<le> lo \<Longrightarrow> hi < int n \<Longrightarrow>
         (\<And>k. lo \<le> int k \<Longrightarrow> int k \<le> hi \<Longrightarrow>
               bgv1_gid (BaseGlyphV1Record_at tbl base k) \<noteq> g) \<Longrightarrow>
         find_base_glyph_v1_loop tbl base g lo hi = Some None"
proof (induction "nat (hi - lo + 1)" arbitrary: lo hi rule: less_induct)
  case less
  show ?case
  proof (cases "lo \<le> hi")
    case False
    then show ?thesis by (simp add: find_base_glyph_v1_loop.simps)
  next
    case True
    define mid where "mid = lo + (hi - lo) div 2"
    have m: "lo \<le> mid" "mid \<le> hi"
      using midpoint_between [OF True] by (simp_all add: mid_def)
    with less.prems have mn: "0 \<le> mid" "mid < int n" by auto
    have ne: "bgv1_gid (BaseGlyphV1Record_at tbl base (nat mid)) \<noteq> g"
      using less.prems(3) [of "nat mid"] m mn by simp
    have up: "find_base_glyph_v1_loop tbl base g (mid + 1) hi = Some None"
      using less.hyps [of hi "mid + 1"] less.prems m mn by auto
    have dn: "find_base_glyph_v1_loop tbl base g lo (mid - 1) = Some None"
      using less.hyps [of "mid - 1" lo] less.prems m mn by auto
    show ?thesis
      using find_base_glyph_v1_loop_step [OF assms less.prems(1) True less.prems(2), of g]
        ne up dn
      by (simp add: mid_def)
  qed
qed

lemma find_base_glyph_v1_loop_present:
  assumes "0 \<le> base" and "base + 4 + 6 * int n \<le> int (length tbl)"
    and srt: "\<And>i j. i < j \<Longrightarrow> j < n \<Longrightarrow>
               bgv1_gid (BaseGlyphV1Record_at tbl base i) <
               bgv1_gid (BaseGlyphV1Record_at tbl base j)"
    and g: "bgv1_gid (BaseGlyphV1Record_at tbl base k) = g"
  shows "0 \<le> lo \<Longrightarrow> hi < int n \<Longrightarrow> lo \<le> int k \<Longrightarrow> int k \<le> hi \<Longrightarrow>
         find_base_glyph_v1_loop tbl base g lo hi =
           Some (Some (BaseGlyphV1Record_at tbl base k))"
proof (induction "nat (hi - lo + 1)" arbitrary: lo hi rule: less_induct)
  case less
  have True: "lo \<le> hi" using less.prems by simp
  define mid where "mid = lo + (hi - lo) div 2"
  have m: "lo \<le> mid" "mid \<le> hi"
    using midpoint_between [OF True] by (simp_all add: mid_def)
  with less.prems have mn: "0 \<le> mid" "mid < int n" by auto
  have kn: "k < n" using less.prems by simp
  note step = find_base_glyph_v1_loop_step [OF assms(1,2) less.prems(1) True less.prems(2),
      of g, folded mid_def]
  consider (lt) "nat mid < k" | (eq) "nat mid = k" | (gt) "k < nat mid" by linarith
  then show ?case
  proof cases
    case lt
    then have "bgv1_gid (BaseGlyphV1Record_at tbl base (nat mid)) < g"
      using srt [of "nat mid" k] kn g by simp
    moreover have "find_base_glyph_v1_loop tbl base g (mid + 1) hi =
                     Some (Some (BaseGlyphV1Record_at tbl base k))"
      using less.hyps [of hi "mid + 1"] less.prems m mn lt by auto
    ultimately show ?thesis using step by simp
  next
    case eq
    then show ?thesis using step g by simp
  next
    case gt
    then have "g < bgv1_gid (BaseGlyphV1Record_at tbl base (nat mid))"
      using srt [of k "nat mid"] mn g by simp
    moreover have "find_base_glyph_v1_loop tbl base g lo (mid - 1) =
                     Some (Some (BaseGlyphV1Record_at tbl base k))"
      using less.hyps [of "mid - 1" lo] less.prems m mn gt by auto
    ultimately show ?thesis using step by simp
  qed
qed

lemma sorted_base_glyph_gids:
  assumes "sorted_wrt (<) (base_glyph_gids tbl base n)" and "i < j" and "j < n"
  shows "bg_gid (BaseGlyphRecord_at tbl base i) < bg_gid (BaseGlyphRecord_at tbl base j)"
  using assms sorted_wrt_nth_less [of "(<)" "base_glyph_gids tbl base n" i j]
  by (simp add: base_glyph_gids_def)

lemma sorted_base_glyph_v1_gids:
  assumes "sorted_wrt (<) (base_glyph_v1_gids tbl base n)" and "i < j" and "j < n"
  shows "bgv1_gid (BaseGlyphV1Record_at tbl base i) < bgv1_gid (BaseGlyphV1Record_at tbl base j)"
  using assms sorted_wrt_nth_less [of "(<)" "base_glyph_v1_gids tbl base n" i j]
  by (simp add: base_glyph_v1_gids_def)

text \<open>
  C6.  An array of \<open>n\<close> base-glyph records (\<open>n\<close> any 16-bit count, 0 and 1 included) that
  lies inside the table and whose glyph ids ascend strictly:
  \<^verbatim>\<open>find_base_glyph_record\<close> returns, for the id of the \<open>i\<close>-th record, exactly the
  \<open>i\<close>-th record, and for an id that no record carries it returns 0.  The same holds
  of \<^verbatim>\<open>find_base_glyph_v1_record\<close> and an array of v1 records after its 4-byte count.
  Both loops probe \<open>min + (max - min) div 2\<close>.
\<close>

theorem find_base_glyph_records_correct:
  "(n \<le> 65535 \<and> 0 \<le> base \<and> base + 6 * int n \<le> int (length tbl) \<and>
    sorted_wrt (<) (base_glyph_gids tbl base n) \<longrightarrow>
      (\<forall>i<n. find_base_glyph_record tbl base (int n) (bg_gid (BaseGlyphRecord_at tbl base i)) =
                Some (Some (BaseGlyphRecord_at tbl base i))) \<and>
      (\<forall>g. g \<notin> set (base_glyph_gids tbl base n) \<longrightarrow>
            find_base_glyph_record tbl base (int n) g = Some None)) \<and>
   (n1 \<le> 65535 \<and> 0 \<le> base1 \<and> base1 + 4 + 6 * int n1 \<le> int (length tbl1) \<and>
    sorted_wrt (<) (base_glyph_v1_gids tbl1 base1 n1) \<longrightarrow>
      (\<forall>i<n1. find_base_glyph_v1_record tbl1 base1 (int n1)
                  (bgv1_gid (BaseGlyphV1Record_at tbl1 base1 i)) =
                Some (Some (BaseGlyphV1Record_at tbl1 base1 i))) \<and>
      (\<forall>g. g \<notin> set (base_glyph_v1_gids tbl1 base1 n1) \<longrightarrow>
            find_base_glyph_v1_record tbl1 base1 (int n1) g = Some None))"
proof (intro conjI impI allI; (elim conjE)?)
  fix i
  assume "0 \<le> base" "base + 6 * int n \<le> int (length tbl)"
    "sorted_wrt (<) (base_glyph_gids tbl base n)" "i < n"
  then show "find_base_glyph_record tbl base (int n) (bg_gid (BaseGlyphRecord_at tbl base i)) =
               Some (Some (BaseGlyphRecord_at tbl base i))"
    unfolding find_base_glyph_record_def
    by (intro find_base_glyph_loop_present [where n = n and k = i])
       (auto intro: sorted_base_glyph_gids)
next
  fix g
  assume "0 \<le> base" "base + 6 * int n \<le> int (length tbl)"
    "g \<notin> set (base_glyph_gids tbl base n)"
  then show "find_base_glyph_record tbl base (int n) g = Some None"
    unfolding find_base_glyph_record_def
    by (intro find_base_glyph_loop_absent [where n = n])
       (auto simp: base_glyph_gids_def)
next
  fix i
  assume "0 \<le> base1" "base1 + 4 + 6 * int n1 \<le> int (length tbl1)"
    "sorted_wrt (<) (base_glyph_v1_gids tbl1 base1 n1)" "i < n1"
  then show "find_base_glyph_v1_record tbl1 base1 (int n1)
               (bgv1_gid (BaseGlyphV1Record_at tbl1 base1 i)) =
               Some (Some (BaseGlyphV1Record_at tbl1 base1 i))"
    unfolding find_base_glyph_v1_record_def
    by (intro find_base_glyph_v1_loop_present [where n = n1 and k = i])
       (auto intro: sorted_base_glyph_v1_gids)
next
  fix g
  assume "0 \<le> base1" "base1 + 4 + 6 * int n1 \<le> int (length tbl1)"
    "g \<notin> set (base_glyph_v1_gids tbl1 base1 n1)"
  then show "find_base_glyph_v1_record tbl1 base1 (int n1) g = Some None"
    unfolding find_base_glyph_v1_record_def
    by (intro find_base_glyph_v1_loop_absent [where n = n1])
       (auto simp: base_glyph_v1_gids_def)
qed

text \<open>C6 at the three base-glyph records of \<open>ex_v0\<close> (ids 2, 5, 9 at offset 14) and at
  the single v1 record of \<open>ex_v1_solid\<close> (id 5 at offset 18 + 4).\<close>

theorem find_base_glyph_records_correct_witness:
  "base_glyph_gids ex_v0 14 3 = [2, 5, 9] \<and>
   14 + 6 * int 3 \<le> int (length ex_v0) \<and>
   find_base_glyph_record ex_v0 14 (int 3) 5 =
     Some (Some \<lparr>bg_gid = 5, bg_first_layer_index = 1, bg_num_layers = 2\<rparr>) \<and>
   find_base_glyph_record ex_v0 14 (int 3) 4 = Some None \<and>
   base_glyph_v1_gids ex_v1_solid 18 1 = [5] \<and>
   18 + 4 + 6 * int 1 \<le> int (length ex_v1_solid) \<and>
   find_base_glyph_v1_record ex_v1_solid 18 (int 1) 5 =
     Some (Some \<lparr>bgv1_gid = 5, bgv1_layer_array_offset = 10\<rparr>) \<and>
   find_base_glyph_v1_record ex_v1_solid 18 (int 1) 6 = Some None"
proof -
  have r0: "BaseGlyphRecord_at ex_v0 14 1 =
              \<lparr>bg_gid = 5, bg_first_layer_index = 1, bg_num_layers = 2\<rparr>"
    by (simp add: BaseGlyphRecord_at_def u16_at_def ex_v0_def)
  have r1: "BaseGlyphV1Record_at ex_v1_solid 18 0 =
              \<lparr>bgv1_gid = 5, bgv1_layer_array_offset = 10\<rparr>"
    by (simp add: BaseGlyphV1Record_at_def u16_at_def u32_at_def ex_v1_solid_def)
  have g0: "base_glyph_gids ex_v0 14 3 = [2, 5, 9]"
    by (simp add: base_glyph_gids_def BaseGlyphRecord_at_def u16_at_def ex_v0_def
        upt_conv_Cons numeral_3_eq_3)
  have g1: "base_glyph_v1_gids ex_v1_solid 18 1 = [5]"
    by (simp add: base_glyph_v1_gids_def BaseGlyphV1Record_at_def u16_at_def ex_v1_solid_def)
  have l0: "14 + 6 * int 3 \<le> int (length ex_v0)"
    by (simp add: ex_v0_def)
  have l1: "18 + 4 + 6 * int 1 \<le> int (length ex_v1_solid)"
    by (simp add: ex_v1_solid_def)
  note inst = find_base_glyph_records_correct [of 3 14 ex_v0 1 18 ex_v1_solid]
  have a: "find_base_glyph_record ex_v0 14 (int 3) 5 =
             Some (Some \<lparr>bg_gid = 5, bg_first_layer_index = 1, bg_num_layers = 2\<rparr>)"
    using inst l0 g0 r0 by (auto dest!: spec [where x = 1])
  have b: "find_base_glyph_record ex_v0 14 (int 3) 4 = Some None"
    using inst l0 g0 by auto
  have c: "find_base_glyph_v1_record ex_v1_solid 18 (int 1) 5 =
             Some (Some \<lparr>bgv1_gid = 5, bgv1_layer_array_offset = 10\<rparr>)"
    using inst l1 g1 r1 by auto
  have d: "find_base_glyph_v1_record ex_v1_solid 18 (int 1) 6 = Some None"
    using inst l1 g1 by auto
  from g0 l0 a b g1 l1 c d show ?thesis by blast
qed

subsection \<open>Iterating over the layers of a version 0 base glyph\<close>

lemma to_FT_UInt_in_range: "0 \<le> i \<Longrightarrow> i < 2 ^ 32 \<Longrightarrow> to_FT_UInt i = nat i"
  by (simp add: to_FT_UInt_def)

lemma incr_FT_UInt_small: "n < 65535 \<Longrightarrow> incr_FT_UInt n = n + 1"
  by (simp add: incr_FT_UInt_def)

lemma u16_at_bound: "u16_at tbl a < 65536"
proof -
  have "unat (tbl ! nat a) < 256" "unat (tbl ! nat (a + 1)) < 256"
    using unsigned_less [of "tbl ! nat a", where 'a = nat]
      unsigned_less [of "tbl ! nat (a + 1)", where 'a = nat] by simp_all
  then show ?thesis by (simp add: u16_at_def)
qed

text \<open>A call on a cursor that stands at layer \<open>j\<close> of \<open>k\<close>, the record being inside the
  table and valid: the pair of record \<open>j\<close>, and the cursor at layer \<open>j + 1\<close>.\<close>

lemma colr_layer_next_valid:
  assumes "0 \<le> L" and "L + 4 * int k \<le> int (length (colr_table colr))"
    and "0 \<le> face_num_glyphs face" and "face_num_glyphs face < 2 ^ 32"
    and "j < k" and "k \<le> 65535"
    and "layer_valid face (Layer_at (colr_table colr) L j)"
  shows "colr_layer_next face colr
           (g, c, \<lparr>it_num_layers = k, it_layer = j, it_p = Some (L + 4 * int j)\<rparr>) =
         Some (True, fst (Layer_at (colr_table colr) L j), snd (Layer_at (colr_table colr) L j),
               \<lparr>it_num_layers = k, it_layer = j + 1, it_p = Some (L + 4 * int (j + 1))\<rparr>)"
proof -
  have b: "0 \<le> L + 4 * int j" "L + 4 * int j + 4 \<le> int (length (colr_table colr))"
    using assms(1,2,5) by linarith+
  have v: "int (u16_at (colr_table colr) (L + 4 * int j)) < face_num_glyphs face"
    "u16_at (colr_table colr) (L + 4 * int j + 2) = 65535 \<or>
     u16_at (colr_table colr) (L + 4 * int j + 2) < face_num_palette_entries face"
    using assms(7) by (simp_all add: layer_valid_def Layer_at_def)
  from v(1) assms(3) have v1: "u16_at (colr_table colr) (L + 4 * int j) < nat (face_num_glyphs face)"
    by linarith
  show ?thesis
    using b v1 v(2) assms(5,6)
    by (auto simp: colr_layer_next_def FT_NEXT_USHORT_inside to_FT_UInt_in_range [OF assms(3,4)]
        incr_FT_UInt_small Layer_at_def algebra_simps)
qed

text \<open>A call on a cursor that has delivered all its layers.\<close>

lemma colr_layer_next_end:
  "colr_layer_next face colr (g, c, \<lparr>it_num_layers = k, it_layer = k, it_p = p\<rparr>) =
     Some (False, g, c, \<lparr>it_num_layers = k, it_layer = k, it_p = p\<rparr>)"
  by (simp add: colr_layer_next_def)

text \<open>The layer count of a record that the search returns is a 16-bit value.\<close>

lemma find_base_glyph_loop_num_layers:
  "find_base_glyph_loop tbl base g lo hi = Some (Some r) \<Longrightarrow> bg_num_layers r < 65536"
proof (induction "nat (hi - lo + 1)" arbitrary: lo hi rule: less_induct)
  case less
  have le: "lo \<le> hi"
    using less.prems by (subst (asm) find_base_glyph_loop.simps) (simp split: if_splits)
  define mid where "mid = lo + (hi - lo) div 2"
  have m: "lo \<le> mid" "mid \<le> hi"
    using midpoint_between [OF le] by (simp_all add: mid_def)
  obtain gid p where rd: "FT_NEXT_USHORT tbl (base + mid * int BASE_GLYPH_SIZE) = Some (gid, p)"
    using less.prems le
    by (subst (asm) find_base_glyph_loop.simps)
       (auto simp: Let_def mid_def split: option.splits)
  from less.prems le rd have
    "(if gid < g then find_base_glyph_loop tbl base g (mid + 1) hi
      else if g < gid then find_base_glyph_loop tbl base g lo (mid - 1)
      else FT_NEXT_USHORT tbl p \<bind> (\<lambda>(first_layer_index, p).
             FT_NEXT_USHORT tbl p \<bind> (\<lambda>(num_layers, p).
               Some (Some \<lparr>bg_gid = gid, bg_first_layer_index = first_layer_index,
                            bg_num_layers = num_layers\<rparr>)))) = Some (Some r)"
    by (subst (asm) find_base_glyph_loop.simps) (auto simp: Let_def mid_def split: if_splits)
  then consider
      (up) "find_base_glyph_loop tbl base g (mid + 1) hi = Some (Some r)"
    | (dn) "find_base_glyph_loop tbl base g lo (mid - 1) = Some (Some r)"
    | (hit) q n q' where "FT_NEXT_USHORT tbl q = Some (n, q')" "bg_num_layers r = n"
    by (auto split: if_splits bind_splits)
  then show ?case
  proof cases
    case up
    then show ?thesis using less.hyps [of hi "mid + 1"] m by simp
  next
    case dn
    then show ?thesis using less.hyps [of "mid - 1" lo] m by simp
  next
    case hit
    then show ?thesis
      using peek_ushort_bound [of tbl q n] by (auto simp: FT_NEXT_USHORT_def)
  qed
qed

text \<open>Any number of calls on a cursor standing at layer \<open>j\<close>: the remaining pairs in
  array order, then 0 for ever.\<close>

lemma colr_layer_calls_from:
  assumes "face_colr face = Some colr"
    and "0 \<le> L" and "L + 4 * int k \<le> int (length (colr_table colr))"
    and "0 \<le> face_num_glyphs face" and "face_num_glyphs face < 2 ^ 32"
    and "k \<le> 65535"
    and "\<forall>i<k. layer_valid face (Layer_at (colr_table colr) L i)"
  shows "j \<le> k \<Longrightarrow>
         colr_layer_calls m face base_glyph
           (g, c, \<lparr>it_num_layers = k, it_layer = j, it_p = Some (L + 4 * int j)\<rparr>) =
         Some (take m (map (\<lambda>i. Some (Layer_at (colr_table colr) L i)) [j..<k]) @
               replicate (m - (k - j)) None)"
proof (induction m arbitrary: j g c)
  case 0
  then show ?case by simp
next
  case (Suc m)
  show ?case
  proof (cases "j < k")
    case True
    have call: "tt_face_get_colr_layer face base_glyph
                  (g, c, \<lparr>it_num_layers = k, it_layer = j, it_p = Some (L + 4 * int j)\<rparr>) =
                Some (True, fst (Layer_at (colr_table colr) L j),
                      snd (Layer_at (colr_table colr) L j),
                      \<lparr>it_num_layers = k, it_layer = j + 1, it_p = Some (L + 4 * int (j + 1))\<rparr>)"
      using colr_layer_next_valid [OF assms(2,3,4,5) True assms(6), of g c] assms(1,7) True
      by (simp add: tt_face_get_colr_layer_def)
    have rest: "colr_layer_calls m face base_glyph
                  (fst (Layer_at (colr_table colr) L j), snd (Layer_at (colr_table colr) L j),
                   \<lparr>it_num_layers = k, it_layer = j + 1, it_p = Some (L + 4 * int (j + 1))\<rparr>) =
                Some (take m (map (\<lambda>i. Some (Layer_at (colr_table colr) L i)) [j + 1..<k]) @
                      replicate (m - (k - (j + 1))) None)"
      using Suc.IH [of "j + 1"] True by simp
    have l: "[j..<k] = j # [j + 1..<k]"
      using True by (simp add: upt_conv_Cons)
    have n: "Suc m - (k - j) = m - (k - (j + 1))"
      using True by simp
    show ?thesis
      unfolding colr_layer_calls.simps call l n using rest by simp
  next
    case False
    with Suc.prems have jk: "j = k" by simp
    have call: "tt_face_get_colr_layer face base_glyph
                  (g, c, \<lparr>it_num_layers = k, it_layer = k, it_p = Some (L + 4 * int k)\<rparr>) =
                Some (False, g, c, \<lparr>it_num_layers = k, it_layer = k, it_p = Some (L + 4 * int k)\<rparr>)"
      using assms(1) by (simp add: tt_face_get_colr_layer_def colr_layer_next_end)
    have rest: "colr_layer_calls m face base_glyph
                  (g, c, \<lparr>it_num_layers = k, it_layer = k, it_p = Some (L + 4 * int k)\<rparr>) =
                Some (replicate m None)"
      using Suc.IH [of k g c] by simp
    show ?thesis
      unfolding jk colr_layer_calls.simps call using rest by simp
  qed
qed

lemma iterator_all_fields:
  "(iterator :: FT_LayerIterator)\<lparr>it_layer := a, it_num_layers := b, it_p := p\<rparr> =
     \<lparr>it_num_layers = b, it_layer = a, it_p = p\<rparr>"
  by (cases iterator) simp

text \<open>A base glyph found with no layers: every call returns 0 and leaves the cursor's
  pointer \<^verbatim>\<open>NULL\<close>, so that the next call searches again.\<close>

lemma colr_layer_calls_no_layers:
  assumes "face_colr face = Some colr"
    and "find_base_glyph_record (colr_table colr) (colr_base_glyphs colr)
           (int (colr_num_base_glyphs colr)) base_glyph = Some (Some glyph_record)"
    and "bg_num_layers glyph_record = 0"
  shows "it_p iterator = None \<Longrightarrow>
         colr_layer_calls m face base_glyph (g, c, iterator) = Some (replicate m None)"
proof (induction m arbitrary: iterator)
  case 0
  then show ?case by simp
next
  case (Suc m)
  have call: "tt_face_get_colr_layer face base_glyph (g, c, iterator) =
                Some (False, g, c, iterator\<lparr>it_layer := 0\<rparr>)"
    using assms Suc.prems by (simp add: tt_face_get_colr_layer_def)
  have rest: "colr_layer_calls m face base_glyph (g, c, iterator\<lparr>it_layer := 0\<rparr>) =
                Some (replicate m None)"
    using Suc.IH [of "iterator\<lparr>it_layer := 0\<rparr>"] Suc.prems by simp
  show ?case
    unfolding colr_layer_calls.simps call using rest by simp
qed

text \<open>
  C7.  A face whose \<^verbatim>\<open>num_glyphs\<close> is an unsigned 32-bit value and whose table has
  the size of its buffer; a base glyph that \<^verbatim>\<open>find_base_glyph_record\<close> finds, with
  \<open>k\<close> layers from layer index \<open>first\<close> on, all of them inside the table and passing the
  per-layer validation.  Then \<open>m\<close> calls of \<^verbatim>\<open>tt_face_get_colr_layer\<close> on a fresh
  cursor (\<^verbatim>\<open>iterator->p\<close> is \<^verbatim>\<open>NULL\<close>) all return, the first \<open>k\<close> of them with the
  pairs of the layer records \<open>first\<close>, \<open>first + 1\<close>, ... in the order of the layer
  array, every later one with 0.  With \<open>k = 0\<close> every call returns 0.
\<close>

theorem colr_layer_iteration:
  assumes "face_colr face = Some colr"
    and "colr_table_size colr = length (colr_table colr)"
    and "0 \<le> face_num_glyphs face" and "face_num_glyphs face < 2 ^ 32"
    and "find_base_glyph_record (colr_table colr) (colr_base_glyphs colr)
           (int (colr_num_base_glyphs colr)) base_glyph = Some (Some glyph_record)"
    and "0 \<le> colr_layers colr"
    and "colr_layers colr +
           4 * int (bg_first_layer_index glyph_record + bg_num_layers glyph_record) \<le>
         int (length (colr_table colr))"
    and "\<forall>i<bg_num_layers glyph_record.
           layer_valid face
             (Layer_at (colr_table colr)
                (colr_layers colr + 4 * int (bg_first_layer_index glyph_record)) i)"
    and "it_p iterator = None"
  shows "colr_layer_calls m face base_glyph (g, c, iterator) =
           Some (take m (map (\<lambda>i. Some (Layer_at (colr_table colr)
                                 (colr_layers colr + 4 * int (bg_first_layer_index glyph_record)) i))
                          [0..<bg_num_layers glyph_record]) @
                 replicate (m - bg_num_layers glyph_record) None)"
proof (cases "bg_num_layers glyph_record = 0")
  case True
  then show ?thesis
    using colr_layer_calls_no_layers [OF assms(1,5) True assms(9), of m g c] by simp
next
  case False
  define k where "k = bg_num_layers glyph_record"
  define L where "L = colr_layers colr + 4 * int (bg_first_layer_index glyph_record)"
  have k16: "k \<le> 65535"
    using find_base_glyph_loop_num_layers [OF assms(5) [unfolded find_base_glyph_record_def]]
    by (simp add: k_def)
  have L0: "0 \<le> L" using assms(6) by (simp add: L_def)
  have Lk: "L + 4 * int k \<le> int (length (colr_table colr))"
    using assms(7) by (simp add: L_def k_def)
  have valid: "\<forall>i<k. layer_valid face (Layer_at (colr_table colr) L i)"
    using assms(8) by (simp add: L_def k_def)
  have fits: "\<not> LAYER_SIZE * bg_first_layer_index glyph_record +
                LAYER_SIZE * bg_num_layers glyph_record > colr_table_size colr"
    using assms(2,6,7) by (simp add: LAYER_SIZE_def)
  note steady = colr_layer_calls_from [OF assms(1) L0 Lk assms(3,4) k16 valid]
  show ?thesis
  proof (cases m)
    case 0
    then show ?thesis by simp
  next
    case (Suc m')
    have k0: "0 < k" using False by (simp add: k_def)
    have first: "tt_face_get_colr_layer face base_glyph (g, c, iterator) =
                   colr_layer_next face colr
                     (g, c, \<lparr>it_num_layers = k, it_layer = 0, it_p = Some (L + 4 * int 0)\<rparr>)"
      using assms(1,5,9) False fits
      by (simp add: tt_face_get_colr_layer_def Let_def k_def L_def LAYER_SIZE_def
          iterator_all_fields)
    have call: "tt_face_get_colr_layer face base_glyph (g, c, iterator) =
                  tt_face_get_colr_layer face base_glyph
                    (g, c, \<lparr>it_num_layers = k, it_layer = 0, it_p = Some (L + 4 * int 0)\<rparr>)"
      unfolding first using assms(1) by (simp add: tt_face_get_colr_layer_def)
    have "colr_layer_calls (Suc m') face base_glyph (g, c, iterator) =
            colr_layer_calls (Suc m') face base_glyph
              (g, c, \<lparr>it_num_layers = k, it_layer = 0, it_p = Some (L + 4 * int 0)\<rparr>)"
      unfolding colr_layer_calls.simps call ..
    then show ?thesis
      using steady [of 0 "Suc m'" base_glyph g c] Suc by (simp add: k_def L_def)
  qed
qed

text \<open>C7 at \<open>ex_v0\<close>: four calls for base glyph 5 (two layers, from layer index 1) and
  two calls for base glyph 9 (no layer).\<close>

theorem colr_layer_iteration_witness:
  "find_base_glyph_record ex_v0 14 3 5 =
     Some (Some \<lparr>bg_gid = 5, bg_first_layer_index = 1, bg_num_layers = 2\<rparr>) \<and>
   colr_layer_calls 4 (ex_face\<lparr>face_colr := Some (ex_v0_colr ex_v0), mem_blocks := 1\<rparr>) 5
     (0, 0, fresh_iterator) = Some [Some (8, 1), Some (3, 0xFFFF), None, None] \<and>
   find_base_glyph_record ex_v0 14 3 9 =
     Some (Some \<lparr>bg_gid = 9, bg_first_layer_index = 3, bg_num_layers = 0\<rparr>) \<and>
   colr_layer_calls 2 (ex_face\<lparr>face_colr := Some (ex_v0_colr ex_v0), mem_blocks := 1\<rparr>) 9
     (0, 0, fresh_iterator) = Some [None, None]"
proof -
  define face where "face = ex_face\<lparr>face_colr := Some (ex_v0_colr ex_v0), mem_blocks := 1\<rparr>"
  have len: "length ex_v0 = 44" by (simp add: ex_v0_def)
  have c: "face_colr face = Some (ex_v0_colr ex_v0)"
    by (simp add: face_def)
  have sz: "colr_table_size (ex_v0_colr ex_v0) = length (colr_table (ex_v0_colr ex_v0))"
    by (simp add: ex_v0_colr_def)
  have n: "0 \<le> face_num_glyphs face" "face_num_glyphs face < 2 ^ 32"
    by (simp_all add: face_def ex_face_def)
  have f5: "find_base_glyph_record ex_v0 14 3 5 =
              Some (Some \<lparr>bg_gid = 5, bg_first_layer_index = 1, bg_num_layers = 2\<rparr>)"
    by (simp add: find_base_glyph_record_def find_base_glyph_loop.simps read_defs size_defs
        ex_v0_def Let_def)
  have f9: "find_base_glyph_record ex_v0 14 3 9 =
              Some (Some \<lparr>bg_gid = 9, bg_first_layer_index = 3, bg_num_layers = 0\<rparr>)"
    by (simp add: find_base_glyph_record_def find_base_glyph_loop.simps read_defs size_defs
        ex_v0_def Let_def)
  have l0: "Layer_at ex_v0 36 0 = (8, 1)" and l1: "Layer_at ex_v0 36 1 = (3, 0xFFFF)"
    by (simp_all add: Layer_at_def u16_at_def ex_v0_def)
  have v5: "\<forall>i<2. layer_valid face (Layer_at ex_v0 36 i)"
    using l0 l1 by (auto simp: less_2_cases_iff layer_valid_def face_def ex_face_def)
  have it: "it_p fresh_iterator = None"
    by (simp add: fresh_iterator_def)
  have a: "colr_layer_calls 4 face 5 (0, 0, fresh_iterator) =
             Some [Some (8, 1), Some (3, 0xFFFF), None, None]"
    using colr_layer_iteration [OF c sz n, of 5
        "\<lparr>bg_gid = 5, bg_first_layer_index = 1, bg_num_layers = 2\<rparr>" fresh_iterator 4 0 0]
      f5 v5 it len l0 l1
    by (simp add: ex_v0_colr_def upt_conv_Cons numeral_2_eq_2)
  have b: "colr_layer_calls 2 face 9 (0, 0, fresh_iterator) = Some [None, None]"
    using colr_layer_iteration [OF c sz n, of 9
        "\<lparr>bg_gid = 9, bg_first_layer_index = 3, bg_num_layers = 0\<rparr>" fresh_iterator 2 0 0]
      f9 it len
    by (simp add: ex_v0_colr_def numeral_2_eq_2)
  from f5 a f9 b show ?thesis unfolding face_def by blast
qed

subsection \<open>Blending a layer\<close>

lemma idx4_small: "4 * w \<le> 2 ^ 32 \<Longrightarrow> x < w \<Longrightarrow> c < 4 \<Longrightarrow> idx4 x c = int (4 * x + c)"
  by (simp add: idx4_def)

text \<open>The inner loop from column \<open>x\<close> on, source row at \<open>S\<close> and destination row at \<open>D\<close>
  inside their buffers: it returns, changes no byte outside the columns from \<open>x\<close> on, and
  stores in each column the blended pixel.\<close>

lemma blend_row_columns:
  assumes "4 * w \<le> 2 ^ 32" and "S + w \<le> length sbuf"
  shows "x \<le> w \<Longrightarrow> D + 4 * w \<le> length dbuf \<Longrightarrow>
         \<exists>dbuf'. blend_row x w sbuf (int S) dbuf (int D) color = Some dbuf' \<and>
           length dbuf' = length dbuf \<and>
           (\<forall>i. i < D + 4 * x \<or> D + 4 * w \<le> i \<longrightarrow> dbuf' ! i = dbuf ! i) \<and>
           (\<forall>x'. x \<le> x' \<and> x' < w \<longrightarrow>
              (dbuf' ! (D + 4 * x'), dbuf' ! (D + 4 * x' + 1),
               dbuf' ! (D + 4 * x' + 2), dbuf' ! (D + 4 * x' + 3)) =
              blend_pixel color (int (unat (sbuf ! (S + x'))))
                (int (unat (dbuf ! (D + 4 * x'))), int (unat (dbuf ! (D + 4 * x' + 1))),
                 int (unat (dbuf ! (D + 4 * x' + 2))), int (unat (dbuf ! (D + 4 * x' + 3)))))"
proof (induction "w - x" arbitrary: x dbuf)
  case 0
  then have "x = w" by simp
  then show ?case by (auto simp: blend_row.simps)
next
  case (Suc n)
  then have xw: "x < w" by simp
  define px where "px = blend_pixel color (int (unat (sbuf ! (S + x))))
                (int (unat (dbuf ! (D + 4 * x))), int (unat (dbuf ! (D + 4 * x + 1))),
                 int (unat (dbuf ! (D + 4 * x + 2))), int (unat (dbuf ! (D + 4 * x + 3))))"
  obtain nb ng nr na where px4: "px = (nb, ng, nr, na)" by (cases px) auto
  define dbuf1 where "dbuf1 = dbuf[D + 4 * x := nb, D + 4 * x + 1 := ng,
                                    D + 4 * x + 2 := nr, D + 4 * x + 3 := na]"
  have in_d: "D + 4 * x + 3 < length dbuf" using xw Suc.prems by simp
  have in_s: "S + x < length sbuf" using xw assms(2) by simp
  have i4: "idx4 x 0 = int (4 * x)" "idx4 x 1 = int (4 * x + 1)"
    "idx4 x 2 = int (4 * x + 2)" "idx4 x 3 = int (4 * x + 3)"
    using idx4_small [OF assms(1) xw] by simp_all
  have n4: "nat (int D + idx4 x 0) = D + 4 * x" "nat (int D + idx4 x 1) = D + 4 * x + 1"
    "nat (int D + idx4 x 2) = D + 4 * x + 2" "nat (int D + idx4 x 3) = D + 4 * x + 3"
    "nat (int S + int x) = S + x"
    unfolding i4 by simp_all
  have pk: "peek_byte sbuf (int S + int x) = Some (unat (sbuf ! (S + x)))"
    "peek_byte dbuf (int D + idx4 x 0) = Some (unat (dbuf ! (D + 4 * x)))"
    "peek_byte dbuf (int D + idx4 x 1) = Some (unat (dbuf ! (D + 4 * x + 1)))"
    "peek_byte dbuf (int D + idx4 x 2) = Some (unat (dbuf ! (D + 4 * x + 2)))"
    "peek_byte dbuf (int D + idx4 x 3) = Some (unat (dbuf ! (D + 4 * x + 3)))"
    unfolding peek_byte_def n4 unfolding i4 using in_d in_s by simp_all
  have step: "blend_row x w sbuf (int S) dbuf (int D) color =
                blend_row (x + 1) w sbuf (int S) dbuf1 (int D) color"
    by (subst blend_row.simps)
       (simp only: xw if_True pk option.case prod.case px_def [symmetric] px4 dbuf1_def n4)
  have len1: "length dbuf1 = length dbuf" by (simp add: dbuf1_def)
  have ih: "\<exists>dbuf'. blend_row (x + 1) w sbuf (int S) dbuf1 (int D) color = Some dbuf' \<and>
           length dbuf' = length dbuf1 \<and>
           (\<forall>i. i < D + 4 * (x + 1) \<or> D + 4 * w \<le> i \<longrightarrow> dbuf' ! i = dbuf1 ! i) \<and>
           (\<forall>x'. x + 1 \<le> x' \<and> x' < w \<longrightarrow>
              (dbuf' ! (D + 4 * x'), dbuf' ! (D + 4 * x' + 1),
               dbuf' ! (D + 4 * x' + 2), dbuf' ! (D + 4 * x' + 3)) =
              blend_pixel color (int (unat (sbuf ! (S + x'))))
                (int (unat (dbuf1 ! (D + 4 * x'))), int (unat (dbuf1 ! (D + 4 * x' + 1))),
                 int (unat (dbuf1 ! (D + 4 * x' + 2))), int (unat (dbuf1 ! (D + 4 * x' + 3)))))"
  proof (rule Suc.hyps(1))
    show "n = w - (x + 1)" using Suc.hyps(2) by simp
    show "x + 1 \<le> w" using xw by simp
    show "D + 4 * w \<le> length dbuf1" using Suc.prems len1 by simp
  qed
  then obtain dbuf' where r: "blend_row (x + 1) w sbuf (int S) dbuf1 (int D) color = Some dbuf'"
    and l: "length dbuf' = length dbuf1"
    and fr0: "\<forall>i. i < D + 4 * (x + 1) \<or> D + 4 * w \<le> i \<longrightarrow> dbuf' ! i = dbuf1 ! i"
    and px0: "\<forall>x'. x + 1 \<le> x' \<and> x' < w \<longrightarrow>
              (dbuf' ! (D + 4 * x'), dbuf' ! (D + 4 * x' + 1),
               dbuf' ! (D + 4 * x' + 2), dbuf' ! (D + 4 * x' + 3)) =
              blend_pixel color (int (unat (sbuf ! (S + x'))))
                (int (unat (dbuf1 ! (D + 4 * x'))), int (unat (dbuf1 ! (D + 4 * x' + 1))),
                 int (unat (dbuf1 ! (D + 4 * x' + 2))), int (unat (dbuf1 ! (D + 4 * x' + 3))))"
    by blast
  have fr: "\<And>i. i < D + 4 * (x + 1) \<or> D + 4 * w \<le> i \<Longrightarrow> dbuf' ! i = dbuf1 ! i"
    using fr0 by blast
  have px': "\<And>x'. x + 1 \<le> x' \<Longrightarrow> x' < w \<Longrightarrow>
              (dbuf' ! (D + 4 * x'), dbuf' ! (D + 4 * x' + 1),
               dbuf' ! (D + 4 * x' + 2), dbuf' ! (D + 4 * x' + 3)) =
              blend_pixel color (int (unat (sbuf ! (S + x'))))
                (int (unat (dbuf1 ! (D + 4 * x'))), int (unat (dbuf1 ! (D + 4 * x' + 1))),
                 int (unat (dbuf1 ! (D + 4 * x' + 2))), int (unat (dbuf1 ! (D + 4 * x' + 3))))"
    using px0 by blast
  have same1: "\<And>i. i < D + 4 * x \<or> D + 4 * x + 4 \<le> i \<Longrightarrow> dbuf1 ! i = dbuf ! i"
    by (auto simp: dbuf1_def)
  have here: "dbuf1 ! (D + 4 * x) = nb" "dbuf1 ! (D + 4 * x + 1) = ng"
    "dbuf1 ! (D + 4 * x + 2) = nr" "dbuf1 ! (D + 4 * x + 3) = na"
    using in_d by (simp_all add: dbuf1_def)
  show ?case
  proof (intro exI conjI allI impI)
    show "blend_row x w sbuf (int S) dbuf (int D) color = Some dbuf'"
      using step r by simp
    show "length dbuf' = length dbuf" using l len1 by simp
  next
    fix i assume "i < D + 4 * x \<or> D + 4 * w \<le> i"
    then show "dbuf' ! i = dbuf ! i"
      using fr [of i] same1 [of i] xw by auto
  next
    fix x' assume a: "x \<le> x' \<and> x' < w"
    show "(dbuf' ! (D + 4 * x'), dbuf' ! (D + 4 * x' + 1),
           dbuf' ! (D + 4 * x' + 2), dbuf' ! (D + 4 * x' + 3)) =
          blend_pixel color (int (unat (sbuf ! (S + x'))))
            (int (unat (dbuf ! (D + 4 * x'))), int (unat (dbuf ! (D + 4 * x' + 1))),
             int (unat (dbuf ! (D + 4 * x' + 2))), int (unat (dbuf ! (D + 4 * x' + 3))))"
    proof (cases "x' = x")
      case True
      have "dbuf' ! (D + 4 * x) = nb" "dbuf' ! (D + 4 * x + 1) = ng"
        "dbuf' ! (D + 4 * x + 2) = nr" "dbuf' ! (D + 4 * x + 3) = na"
        using fr [of "D + 4 * x"] fr [of "D + 4 * x + 1"] fr [of "D + 4 * x + 2"]
          fr [of "D + 4 * x + 3"] here by simp_all
      then show ?thesis
        unfolding True using px4 px_def by simp
    next
      case False
      with a have b: "x + 1 \<le> x'" "x' < w" by simp_all
      have "dbuf1 ! (D + 4 * x') = dbuf ! (D + 4 * x')"
        "dbuf1 ! (D + 4 * x' + 1) = dbuf ! (D + 4 * x' + 1)"
        "dbuf1 ! (D + 4 * x' + 2) = dbuf ! (D + 4 * x' + 2)"
        "dbuf1 ! (D + 4 * x' + 3) = dbuf ! (D + 4 * x' + 3)"
        using b same1 [of "D + 4 * x'"] same1 [of "D + 4 * x' + 1"]
          same1 [of "D + 4 * x' + 2"] same1 [of "D + 4 * x' + 3"] by simp_all
      then show ?thesis using px' [OF b] by simp
    qed
  qed
qed

lemma bgra_at_cong:
  "a ! i = b ! i \<Longrightarrow> a ! (i + 1) = b ! (i + 1) \<Longrightarrow> a ! (i + 2) = b ! (i + 2) \<Longrightarrow>
   a ! (i + 3) = b ! (i + 3) \<Longrightarrow> bgra_at a i = bgra_at b i"
  by (simp add: bgra_at_def)

lemma blend_row_pixels:
  assumes "4 * w \<le> 2 ^ 32" and "S + w \<le> length sbuf" and "D + 4 * w \<le> length dbuf"
  shows "\<exists>dbuf'. blend_row 0 w sbuf (int S) dbuf (int D) color = Some dbuf' \<and>
           length dbuf' = length dbuf \<and>
           (\<forall>i. i < D \<or> D + 4 * w \<le> i \<longrightarrow> dbuf' ! i = dbuf ! i) \<and>
           (\<forall>x<w. bgra_at dbuf' (D + 4 * x) =
                     blend_bgra color (sbuf ! (S + x)) (bgra_at dbuf (D + 4 * x)))"
  using blend_row_columns [OF assms(1,2), of 0 D dbuf color] assms(3)
  by (simp add: bgra_at_def blend_bgra_def)

text \<open>The outer loop with \<open>k\<close> rows to go, the source rows \<open>SP\<close> bytes apart and the
  destination rows \<open>DP\<close> bytes apart, \<open>DP\<close> at least the four bytes per pixel of a row, all
  rows inside their buffers.\<close>

lemma blend_rows_pixels:
  assumes "4 * w \<le> 2 ^ 32" and "4 * w \<le> DP"
  shows "nrows - y = k \<Longrightarrow>
         (0 < k \<longrightarrow> S + (k - 1) * SP + w \<le> length sbuf \<and>
                   D + (k - 1) * DP + 4 * w \<le> length dbuf) \<Longrightarrow>
         \<exists>dbuf'. blend_rows y nrows w sbuf (int S) (int SP) dbuf (int D) (int DP) color =
                    Some dbuf' \<and>
           length dbuf' = length dbuf \<and>
           (\<forall>i<D. dbuf' ! i = dbuf ! i) \<and>
           (\<forall>r x. r < k \<and> x < w \<longrightarrow>
              bgra_at dbuf' (D + r * DP + 4 * x) =
              blend_bgra color (sbuf ! (S + r * SP + x)) (bgra_at dbuf (D + r * DP + 4 * x)))"
proof (induction k arbitrary: y S D dbuf)
  case 0
  then have "\<not> y < nrows" by simp
  then show ?case by (simp add: blend_rows.simps)
next
  case (Suc k)
  then have yn: "y < nrows" by simp
  have sb: "S + k * SP + w \<le> length sbuf" and db: "D + k * DP + 4 * w \<le> length dbuf"
    using Suc.prems(2) by simp_all
  have "S + w \<le> length sbuf" "D + 4 * w \<le> length dbuf"
    using sb db by (simp_all add: add_leE)
  from blend_row_pixels [OF assms(1) this, of color]
  obtain dbuf1 where r1: "blend_row 0 w sbuf (int S) dbuf (int D) color = Some dbuf1"
    and l1: "length dbuf1 = length dbuf"
    and f1: "\<forall>i. i < D \<or> D + 4 * w \<le> i \<longrightarrow> dbuf1 ! i = dbuf ! i"
    and p1: "\<forall>x<w. bgra_at dbuf1 (D + 4 * x) =
                     blend_bgra color (sbuf ! (S + x)) (bgra_at dbuf (D + 4 * x))"
    by blast
  have ih: "\<exists>dbuf'. blend_rows (y + 1) nrows w sbuf (int (S + SP)) (int SP) dbuf1
                       (int (D + DP)) (int DP) color = Some dbuf' \<and>
           length dbuf' = length dbuf1 \<and>
           (\<forall>i<D + DP. dbuf' ! i = dbuf1 ! i) \<and>
           (\<forall>r x. r < k \<and> x < w \<longrightarrow>
              bgra_at dbuf' (D + DP + r * DP + 4 * x) =
              blend_bgra color (sbuf ! (S + SP + r * SP + x))
                (bgra_at dbuf1 (D + DP + r * DP + 4 * x)))"
  proof (rule Suc.IH)
    show "nrows - (y + 1) = k" using Suc.prems(1) by simp
    show "0 < k \<longrightarrow> S + SP + (k - 1) * SP + w \<le> length sbuf \<and>
                     D + DP + (k - 1) * DP + 4 * w \<le> length dbuf1"
    proof
      assume "0 < k"
      then obtain k' where k': "k = Suc k'" by (cases k) auto
      show "S + SP + (k - 1) * SP + w \<le> length sbuf \<and>
            D + DP + (k - 1) * DP + 4 * w \<le> length dbuf1"
        using sb db l1 unfolding k' by (simp add: algebra_simps)
    qed
  qed
  then obtain dbuf' where r2: "blend_rows (y + 1) nrows w sbuf (int (S + SP)) (int SP) dbuf1
                       (int (D + DP)) (int DP) color = Some dbuf'"
    and l2: "length dbuf' = length dbuf1"
    and f2: "\<forall>i<D + DP. dbuf' ! i = dbuf1 ! i"
    and p2: "\<forall>r x. r < k \<and> x < w \<longrightarrow>
              bgra_at dbuf' (D + DP + r * DP + 4 * x) =
              blend_bgra color (sbuf ! (S + SP + r * SP + x))
                (bgra_at dbuf1 (D + DP + r * DP + 4 * x))"
    by blast
  have run: "blend_rows y nrows w sbuf (int S) (int SP) dbuf (int D) (int DP) color = Some dbuf'"
    using r2 by (subst blend_rows.simps) (simp add: yn r1)
  show ?case
  proof (intro exI conjI allI impI)
    show "blend_rows y nrows w sbuf (int S) (int SP) dbuf (int D) (int DP) color = Some dbuf'"
      by (rule run)
    show "length dbuf' = length dbuf" using l1 l2 by simp
  next
    fix i assume "i < D"
    then show "dbuf' ! i = dbuf ! i" using f1 f2 by simp
  next
    fix r x assume a: "r < Suc k \<and> x < w"
    show "bgra_at dbuf' (D + r * DP + 4 * x) =
            blend_bgra color (sbuf ! (S + r * SP + x)) (bgra_at dbuf (D + r * DP + 4 * x))"
    proof (cases r)
      case 0
      have "D + 4 * x + 3 < D + DP" using a assms(2) by simp
      then have "bgra_at dbuf' (D + 4 * x) = bgra_at dbuf1 (D + 4 * x)"
        using f2 by (intro bgra_at_cong) simp_all
      then show ?thesis using p1 a 0 by simp
    next
      case (Suc r')
      have "D + 4 * w \<le> D + DP + r' * DP + 4 * x" using assms(2) by simp
      then have "bgra_at dbuf1 (D + DP + r' * DP + 4 * x) = bgra_at dbuf (D + DP + r' * DP + 4 * x)"
        using f1 by (intro bgra_at_cong) simp_all
      moreover have "bgra_at dbuf' (D + DP + r' * DP + 4 * x) =
              blend_bgra color (sbuf ! (S + SP + r' * SP + x))
                (bgra_at dbuf1 (D + DP + r' * DP + 4 * x))"
        using p2 a Suc by simp
      moreover have "D + r * DP + 4 * x = D + DP + r' * DP + 4 * x"
        "S + r * SP + x = S + SP + r' * SP + x"
        using Suc by simp_all
      ultimately show ?thesis by (simp add: add.assoc)
    qed
  qed
qed







lemma tt_face_colr_blend_layer_prepared:
  assumes "blend_prepare face dstSlot srcSlot = Some (FT_Err_Ok, canvas)"
    and "blend_color face color_index = Some color"
    and "buffer (bitmap canvas) = Some before"
    and "buffer (bitmap srcSlot) = Some src"
  shows "tt_face_colr_blend_layer face color_index dstSlot srcSlot =
           map_option (\<lambda>b. (FT_Err_Ok, canvas\<lparr>bitmap := (bitmap canvas)\<lparr>buffer := Some b\<rparr>\<rparr>))
             (blend_rows 0 (rows (bitmap srcSlot)) (width (bitmap srcSlot)) src
                0 (pitch (bitmap srcSlot)) before
                (blend_origin canvas srcSlot) (pitch (bitmap canvas)) color)"
  using assms
  by (cases "blend_rows 0 (rows (bitmap srcSlot)) (width (bitmap srcSlot)) src
                0 (pitch (bitmap srcSlot)) before
                (blend_origin canvas srcSlot) (pitch (bitmap canvas)) color")
     (simp_all add: tt_face_colr_blend_layer_def blend_origin_def)


lemmas prepare_defs = blend_prepare_def blend_init_def blend_resize_def
  ft_glyphslot_alloc_bitmap_def FT_ALLOC_def to_FT_Int_def to_FT_UInt_def mul_FT_UInt_def



subsection \<open>Growing the canvas\<close>

lemma FT_MEM_COPY_bytes:
  assumes "Q + n \<le> length dst" and "P + n \<le> length src"
  shows "\<exists>dst'. FT_MEM_COPY dst (int Q) src (int P) n = Some dst' \<and>
           length dst' = length dst \<and>
           (\<forall>i<n. dst' ! (Q + i) = src ! (P + i)) \<and>
           (\<forall>j. (j < Q \<or> Q + n \<le> j) \<and> j < length dst \<longrightarrow> dst' ! j = dst ! j)"
proof (cases "n = 0")
  case True
  then show ?thesis by (simp add: FT_MEM_COPY_def)
next
  case False
  define front where "front = take Q dst"
  define mid where "mid = take n (drop P src)"
  define rest where "rest = drop (Q + n) dst"
  define dst' where "dst' = front @ mid @ rest"
  have lf: "length front = Q" using assms(1) by (simp add: front_def)
  have lm: "length mid = n" using assms(2) by (simp add: mid_def)
  have lb: "length rest = length dst - (Q + n)" by (simp add: rest_def)
  have c: "FT_MEM_COPY dst (int Q) src (int P) n = Some dst'"
    using assms False by (simp add: FT_MEM_COPY_def dst'_def front_def mid_def rest_def)
  have l: "length dst' = length dst"
    using assms(1) lf lm lb by (simp add: dst'_def)
  have a: "\<forall>i<n. dst' ! (Q + i) = src ! (P + i)"
  proof (intro allI impI)
    fix i assume i: "i < n"
    have "dst' ! (Q + i) = mid ! i"
      using i lf lm by (simp add: dst'_def nth_append)
    also have "\<dots> = src ! (P + i)"
      using i assms(2) by (simp add: mid_def)
    finally show "dst' ! (Q + i) = src ! (P + i)" .
  qed
  have b: "\<forall>j. (j < Q \<or> Q + n \<le> j) \<and> j < length dst \<longrightarrow> dst' ! j = dst ! j"
  proof (intro allI impI, elim conjE)
    fix j assume jl: "j < length dst"
    assume "j < Q \<or> Q + n \<le> j"
    then show "dst' ! j = dst ! j"
    proof
      assume "j < Q"
      then show ?thesis using lf by (simp add: dst'_def nth_append front_def)
    next
      assume j: "Q + n \<le> j"
      then have "\<not> j < Q" "\<not> j - Q < n" "j - Q - n = j - (Q + n)" by arith+
      then have "dst' ! j = rest ! (j - (Q + n))"
        using lf lm by (simp add: dst'_def nth_append)
      also have "\<dots> = dst ! j"
        using j jl assms(1) by (simp add: rest_def)
      finally show ?thesis .
    qed
  qed
  from c l a b show ?thesis by blast
qed

text \<open>The copy loop with \<open>k\<close> rows to go, rows of \<open>n\<close> bytes, the new rows \<open>QP\<close> bytes
  apart (at least \<open>n\<close>) and the old ones \<open>PP\<close> bytes apart, all inside their buffers.\<close>

lemma copy_rows_bytes:
  assumes "n \<le> QP"
  shows "nrows - y = k \<Longrightarrow>
         (0 < k \<longrightarrow> Q + (k - 1) * QP + n \<le> length buf \<and> P + (k - 1) * PP + n \<le> length old) \<Longrightarrow>
         \<exists>buf'. copy_rows y nrows buf (int Q) (int QP) old (int P) (int PP) n = Some buf' \<and>
           length buf' = length buf \<and>
           (\<forall>j. j < Q \<and> j < length buf \<longrightarrow> buf' ! j = buf ! j) \<and>
           (\<forall>r i. r < k \<and> i < n \<longrightarrow> buf' ! (Q + r * QP + i) = old ! (P + r * PP + i))"
proof (induction k arbitrary: y Q P buf)
  case 0
  then have "\<not> y < nrows" by simp
  then show ?case by (simp add: copy_rows.simps)
next
  case (Suc k)
  then have yn: "y < nrows" by simp
  have qb: "Q + k * QP + n \<le> length buf" and pb: "P + k * PP + n \<le> length old"
    using Suc.prems(2) by simp_all
  have "Q + n \<le> length buf" "P + n \<le> length old"
    using qb pb by (simp_all add: add_leE)
  from FT_MEM_COPY_bytes [OF this]
  obtain buf1 where c1: "FT_MEM_COPY buf (int Q) old (int P) n = Some buf1"
    and l1: "length buf1 = length buf"
    and a1: "\<forall>i<n. buf1 ! (Q + i) = old ! (P + i)"
    and f1: "\<forall>j. (j < Q \<or> Q + n \<le> j) \<and> j < length buf \<longrightarrow> buf1 ! j = buf ! j"
    by blast
  have ih: "\<exists>buf'. copy_rows (y + 1) nrows buf1 (int (Q + QP)) (int QP) old (int (P + PP))
                      (int PP) n = Some buf' \<and>
           length buf' = length buf1 \<and>
           (\<forall>j. j < Q + QP \<and> j < length buf1 \<longrightarrow> buf' ! j = buf1 ! j) \<and>
           (\<forall>r i. r < k \<and> i < n \<longrightarrow>
              buf' ! (Q + QP + r * QP + i) = old ! (P + PP + r * PP + i))"
  proof (rule Suc.IH)
    show "nrows - (y + 1) = k" using Suc.prems(1) by simp
    show "0 < k \<longrightarrow> Q + QP + (k - 1) * QP + n \<le> length buf1 \<and>
                     P + PP + (k - 1) * PP + n \<le> length old"
    proof
      assume "0 < k"
      then obtain k' where k': "k = Suc k'" by (cases k) auto
      show "Q + QP + (k - 1) * QP + n \<le> length buf1 \<and>
            P + PP + (k - 1) * PP + n \<le> length old"
        using qb pb l1 unfolding k' by (simp add: algebra_simps)
    qed
  qed
  then obtain buf' where c2: "copy_rows (y + 1) nrows buf1 (int (Q + QP)) (int QP) old
                                (int (P + PP)) (int PP) n = Some buf'"
    and l2: "length buf' = length buf1"
    and f2: "\<forall>j. j < Q + QP \<and> j < length buf1 \<longrightarrow> buf' ! j = buf1 ! j"
    and a2: "\<forall>r i. r < k \<and> i < n \<longrightarrow>
              buf' ! (Q + QP + r * QP + i) = old ! (P + PP + r * PP + i)"
    by blast
  have run: "copy_rows y nrows buf (int Q) (int QP) old (int P) (int PP) n = Some buf'"
    using c2 by (subst copy_rows.simps) (simp add: yn c1)
  show ?case
  proof (intro exI conjI allI impI)
    show "copy_rows y nrows buf (int Q) (int QP) old (int P) (int PP) n = Some buf'"
      by (rule run)
    show "length buf' = length buf" using l1 l2 by simp
  next
    fix j assume "j < Q \<and> j < length buf"
    then show "buf' ! j = buf ! j" using f1 f2 l1 by simp
  next
    fix r i assume a: "r < Suc k \<and> i < n"
    show "buf' ! (Q + r * QP + i) = old ! (P + r * PP + i)"
    proof (cases r)
      case 0
      have "Q + i < Q + QP" "Q + i < length buf1"
        using a assms \<open>Q + n \<le> length buf\<close> l1 by simp_all
      then have "buf' ! (Q + i) = buf1 ! (Q + i)" using f2 by simp
      then show ?thesis using a1 a 0 by simp
    next
      case (Suc r')
      have "buf' ! (Q + QP + r' * QP + i) = old ! (P + PP + r' * PP + i)"
        using a2 a Suc by simp
      moreover have "Q + r * QP + i = Q + QP + r' * QP + i" "P + r * PP + i = P + PP + r' * PP + i"
        using Suc by simp_all
      ultimately show ?thesis by (simp add: add.assoc)
    qed
  qed
qed

lemma to_FT_Int_small: "n < 2 ^ 31 \<Longrightarrow> to_FT_Int n = int n"
  by (simp add: to_FT_Int_def Let_def)

lemma mul_FT_UInt_small: "a * b < 2 ^ 32 \<Longrightarrow> mul_FT_UInt a b = a * b"
  by (simp add: mul_FT_UInt_def)

text \<open>A footprint of \<open>w\<close> bytes by \<open>R\<close> rows that starts \<open>t\<close> rows down and \<open>a\<close> bytes in,
  in a buffer of \<open>Rc\<close> rows of \<open>QP\<close> bytes, ends inside the buffer.\<close>

lemma footprint_end_inside:
  fixes QP :: nat
  assumes "a + w \<le> QP" and "t + R \<le> Rc" and "0 < R"
  shows "QP * t + a + (R - 1) * QP + w \<le> Rc * QP"
proof -
  obtain R' where R': "R = Suc R'" using assms(3) by (cases R) auto
  have "QP * t + a + (R - 1) * QP + w = QP * (t + R') + (a + w)"
    by (simp add: R' algebra_simps)
  also have "\<dots> \<le> QP * (t + R') + QP" using assms(1) by simp
  also have "\<dots> = QP * (t + R)" by (simp add: R')
  also have "\<dots> \<le> QP * Rc" using assms(2) by simp
  finally show ?thesis by (simp add: mult.commute)
qed

text \<open>The test at \<^verbatim>\<open>if ( x_min != dstSlot->bitmap_left || ... )\<close> says that the
  footprint does not lie inside the canvas.\<close>

lemma grow_condition:
  "(union_x_min dstSlot srcSlot \<noteq> bitmap_left dstSlot \<or>
    union_x_max dstSlot srcSlot \<noteq> bitmap_left dstSlot + int (width (bitmap dstSlot)) \<or>
    union_y_min dstSlot srcSlot \<noteq> bitmap_top dstSlot - int (rows (bitmap dstSlot)) \<or>
    union_y_max dstSlot srcSlot \<noteq> bitmap_top dstSlot) = (\<not> footprint_inside srcSlot dstSlot)"
  by (auto simp: union_x_min_def union_x_max_def union_y_min_def union_y_max_def
      footprint_inside_def)

lemma blend_resize_grows:
  assumes grow: "\<not> footprint_inside srcSlot dstSlot"
    and uw: "union_x_max dstSlot srcSlot - union_x_min dstSlot srcSlot < 2 ^ 29"
    and uh: "union_y_max dstSlot srcSlot - union_y_min dstSlot srcSlot < 2 ^ 31"
    and sz: "(union_y_max dstSlot srcSlot - union_y_min dstSlot srcSlot) *
             (4 * (union_x_max dstSlot srcSlot - union_x_min dstSlot srcSlot)) < 2 ^ 32"
  defines "Wn \<equiv> nat (union_x_max dstSlot srcSlot - union_x_min dstSlot srcSlot)"
    and "Rn \<equiv> nat (union_y_max dstSlot srcSlot - union_y_min dstSlot srcSlot)"
  shows "blend_resize face dstSlot old srcSlot =
           (case FT_ALLOC face (Rn * (4 * Wn)) of
              Inl error \<Rightarrow> Some (error, dstSlot)
            | Inr buf \<Rightarrow>
                map_option
                  (\<lambda>buf. (FT_Err_Ok,
                     dstSlot\<lparr>bitmap := (bitmap dstSlot)\<lparr>buffer := Some buf, width := Wn,
                                                         rows := Rn, pitch := int (4 * Wn)\<rparr>,
                             bitmap_top := union_y_max dstSlot srcSlot,
                             bitmap_left := union_x_min dstSlot srcSlot,
                             own_bitmap := True,
                             slot_format := FT_GLYPH_FORMAT_BITMAP\<rparr>))
                  (copy_rows 0 (rows (bitmap dstSlot)) buf
                     (int (4 * Wn) * (union_y_max dstSlot srcSlot - bitmap_top dstSlot) +
                      4 * (bitmap_left dstSlot - union_x_min dstSlot srcSlot))
                     (int (4 * Wn)) old 0 (pitch (bitmap dstSlot))
                     (4 * width (bitmap dstSlot))))"
proof -
  have x: "union_x_min dstSlot srcSlot \<le> bitmap_left dstSlot"
    "bitmap_left dstSlot + int (width (bitmap dstSlot)) \<le> union_x_max dstSlot srcSlot"
    "union_x_min dstSlot srcSlot \<le> bitmap_left srcSlot"
    "bitmap_left srcSlot + int (width (bitmap srcSlot)) \<le> union_x_max dstSlot srcSlot"
    by (simp_all add: union_x_min_def union_x_max_def)
  have y: "union_y_min dstSlot srcSlot \<le> bitmap_top dstSlot - int (rows (bitmap dstSlot))"
    "bitmap_top dstSlot \<le> union_y_max dstSlot srcSlot"
    "union_y_min dstSlot srcSlot \<le> bitmap_top srcSlot - int (rows (bitmap srcSlot))"
    "bitmap_top srcSlot \<le> union_y_max dstSlot srcSlot"
    by (simp_all add: union_y_min_def union_y_max_def)
  have w0: "0 \<le> union_x_max dstSlot srcSlot - union_x_min dstSlot srcSlot"
    and h0: "0 \<le> union_y_max dstSlot srcSlot - union_y_min dstSlot srcSlot"
    using x y by linarith+
  have "int (width (bitmap dstSlot)) < 2 ^ 31" "int (width (bitmap srcSlot)) < 2 ^ 31"
    "int (rows (bitmap dstSlot)) < 2 ^ 31" "int (rows (bitmap srcSlot)) < 2 ^ 31"
    using x y uw uh by simp_all
  then have small: "width (bitmap dstSlot) < 2 ^ 31" "width (bitmap srcSlot) < 2 ^ 31"
    "rows (bitmap dstSlot) < 2 ^ 31" "rows (bitmap srcSlot) < 2 ^ 31"
    by simp_all
  have cast: "to_FT_Int (width (bitmap dstSlot)) = int (width (bitmap dstSlot))"
    "to_FT_Int (width (bitmap srcSlot)) = int (width (bitmap srcSlot))"
    "to_FT_Int (rows (bitmap dstSlot)) = int (rows (bitmap dstSlot))"
    "to_FT_Int (rows (bitmap srcSlot)) = int (rows (bitmap srcSlot))"
    using small by (simp_all add: to_FT_Int_small)
  have W: "to_FT_UInt (union_x_max dstSlot srcSlot - union_x_min dstSlot srcSlot) = Wn"
    using w0 uw by (simp add: to_FT_UInt_in_range Wn_def)
  have R: "to_FT_UInt (union_y_max dstSlot srcSlot - union_y_min dstSlot srcSlot) = Rn"
    using h0 uh by (simp add: to_FT_UInt_in_range Rn_def)
  have Wn29: "Wn < 2 ^ 29" using uw w0 by (simp add: Wn_def)
  have P: "mul_FT_UInt Wn 4 = 4 * Wn"
    using Wn29 by (simp add: mul_FT_UInt_small mult.commute)
  have "int (Rn * (4 * Wn)) < 2 ^ 32"
    using sz w0 h0 by (simp add: Wn_def Rn_def)
  then have S: "mul_FT_UInt Rn (4 * Wn) = Rn * (4 * Wn)"
    by (intro mul_FT_UInt_small) (simp flip: of_nat_less_iff [where 'a = int])
  have Pi: "to_FT_Int (4 * Wn) = int (4 * Wn)"
    using Wn29 by (intro to_FT_Int_small) simp
  have n: "mul_FT_UInt (width (bitmap dstSlot)) 4 = 4 * width (bitmap dstSlot)"
  proof -
    have "int (width (bitmap dstSlot)) < 2 ^ 29" using x uw by simp
    then have "width (bitmap dstSlot) * 4 < 2 ^ 32" by simp
    then show ?thesis by (simp add: mul_FT_UInt_small mult.commute)
  qed
  have cond: "union_x_min dstSlot srcSlot \<noteq> bitmap_left dstSlot \<or>
    union_x_max dstSlot srcSlot \<noteq> bitmap_left dstSlot + int (width (bitmap dstSlot)) \<or>
    union_y_min dstSlot srcSlot \<noteq> bitmap_top dstSlot - int (rows (bitmap dstSlot)) \<or>
    union_y_max dstSlot srcSlot \<noteq> bitmap_top dstSlot"
    unfolding grow_condition by (rule grow)
  show ?thesis
    unfolding blend_resize_def cast
      union_x_min_def [symmetric] union_x_max_def [symmetric]
      union_y_min_def [symmetric] union_y_max_def [symmetric]
    unfolding Let_def W R P S Pi n if_P [OF cond]
    by (cases "FT_ALLOC face (Rn * (4 * Wn))";
        cases "copy_rows 0 (rows (bitmap dstSlot)) (projr (FT_ALLOC face (Rn * (4 * Wn))))
                     (int (4 * Wn) * (union_y_max dstSlot srcSlot - bitmap_top dstSlot) +
                      4 * (bitmap_left dstSlot - union_x_min dstSlot srcSlot))
                     (int (4 * Wn)) old 0 (pitch (bitmap dstSlot))
                     (4 * width (bitmap dstSlot))")
       simp_all
qed

text \<open>
  First what holds when no product wraps.  A canvas that holds its rows and a layer
  whose footprint does not lie inside it, the union bounding box being less than \<open>2^29\<close>
  pixels wide, less than \<open>2^31\<close> rows high and less than \<open>2^32\<close> bytes large.  If the
  allocator delivers, the preparation of \<^verbatim>\<open>tt_face_colr_blend_layer\<close> returns
  \<^verbatim>\<open>FT_Err_Ok\<close> with a canvas that is the union bounding box with four bytes per pixel
  and no padding, holds its rows, and has every byte of every pixel (column \<open>x\<close>, row
  \<open>y\<close>) of the old canvas at the place of that pixel in the new one (as many rows below
  the new top and columns right of the new left edge as the old origin lies from the new
  one, plus \<open>y\<close> and \<open>x\<close>).  If the allocation fails, the preparation and the whole call
  return the error together with the destination slot as it was passed.
\<close>

lemma blend_prepare_grows_canvas:
  assumes old: "bitmap_holds_rows 4 (bitmap dstSlot) old"
    and grow: "\<not> footprint_inside srcSlot dstSlot"
    and uw: "union_x_max dstSlot srcSlot - union_x_min dstSlot srcSlot < 2 ^ 29"
    and uh: "union_y_max dstSlot srcSlot - union_y_min dstSlot srcSlot < 2 ^ 31"
    and sz: "(union_y_max dstSlot srcSlot - union_y_min dstSlot srcSlot) *
             (4 * (union_x_max dstSlot srcSlot - union_x_min dstSlot srcSlot)) < 2 ^ 32"
  shows "(\<not> mem_fails face \<longrightarrow>
           (\<exists>canvas new.
              blend_prepare face dstSlot srcSlot = Some (FT_Err_Ok, canvas) \<and>
              bitmap_holds_rows 4 (bitmap canvas) new \<and>
              bitmap_left canvas = union_x_min dstSlot srcSlot \<and>
              bitmap_top canvas = union_y_max dstSlot srcSlot \<and>
              int (width (bitmap canvas)) =
                union_x_max dstSlot srcSlot - union_x_min dstSlot srcSlot \<and>
              int (rows (bitmap canvas)) =
                union_y_max dstSlot srcSlot - union_y_min dstSlot srcSlot \<and>
              pitch (bitmap canvas) = 4 * int (width (bitmap canvas)) \<and>
              (\<forall>x y c. x < width (bitmap dstSlot) \<and> y < rows (bitmap dstSlot) \<and> c < 4 \<longrightarrow>
                 new ! nat (blend_origin canvas dstSlot + int y * pitch (bitmap canvas) +
                            4 * int x + int c) =
                 old ! nat (int y * pitch (bitmap dstSlot) + 4 * int x + int c)))) \<and>
         (mem_fails face \<longrightarrow>
            blend_prepare face dstSlot srcSlot = Some (Out_Of_Memory, dstSlot) \<and>
            tt_face_colr_blend_layer face color_index dstSlot srcSlot =
              Some (Out_Of_Memory, dstSlot))"
proof (intro conjI impI)
  define Wn where "Wn = nat (union_x_max dstSlot srcSlot - union_x_min dstSlot srcSlot)"
  define Rn where "Rn = nat (union_y_max dstSlot srcSlot - union_y_min dstSlot srcSlot)"
  define wd where "wd = width (bitmap dstSlot)"
  define rd where "rd = rows (bitmap dstSlot)"
  define PP where "PP = nat (pitch (bitmap dstSlot))"
  define QP where "QP = 4 * Wn"
  define t where "t = nat (union_y_max dstSlot srcSlot - bitmap_top dstSlot)"
  define l where "l = nat (bitmap_left dstSlot - union_x_min dstSlot srcSlot)"
  define Q where "Q = QP * t + 4 * l"
  note resize = blend_resize_grows [OF grow uw uh sz, of face old, folded Wn_def Rn_def]
  have obuf: "buffer (bitmap dstSlot) = Some old"
    and ow: "int (4 * wd) \<le> pitch (bitmap dstSlot)"
    and ol: "int rd * pitch (bitmap dstSlot) \<le> int (length old)"
    using old by (simp_all add: bitmap_holds_rows_def wd_def rd_def)
  have pp: "pitch (bitmap dstSlot) = int PP" using ow by (simp add: PP_def)
  have prep: "blend_prepare face dstSlot srcSlot = blend_resize face dstSlot old srcSlot"
    by (simp add: blend_prepare_def obuf)
  {
    assume "mem_fails face"
    then have r: "blend_resize face dstSlot old srcSlot = Some (Out_Of_Memory, dstSlot)"
      by (simp add: resize FT_ALLOC_def)
    then show "blend_prepare face dstSlot srcSlot = Some (Out_Of_Memory, dstSlot)"
      by (simp add: prep)
    then show "tt_face_colr_blend_layer face color_index dstSlot srcSlot =
                 Some (Out_Of_Memory, dstSlot)"
      by (simp add: tt_face_colr_blend_layer_def)
  }
  assume mem: "\<not> mem_fails face"
  have x: "union_x_min dstSlot srcSlot \<le> bitmap_left dstSlot"
    "bitmap_left dstSlot + int wd \<le> union_x_max dstSlot srcSlot"
    by (simp_all add: union_x_min_def union_x_max_def wd_def)
  have y: "union_y_min dstSlot srcSlot \<le> bitmap_top dstSlot - int rd"
    "bitmap_top dstSlot \<le> union_y_max dstSlot srcSlot"
    by (simp_all add: union_y_min_def union_y_max_def rd_def)
  have W: "int Wn = union_x_max dstSlot srcSlot - union_x_min dstSlot srcSlot"
    and R: "int Rn = union_y_max dstSlot srcSlot - union_y_min dstSlot srcSlot"
    using x y by (simp_all add: Wn_def Rn_def)
  have tl: "union_y_max dstSlot srcSlot - bitmap_top dstSlot = int t"
    "bitmap_left dstSlot - union_x_min dstSlot srcSlot = int l"
    using x y by (simp_all add: t_def l_def)
  have lw: "l + wd \<le> Wn" and tr: "t + rd \<le> Rn"
    using x y W R tl by linarith+
  have q: "int (4 * Wn) * (union_y_max dstSlot srcSlot - bitmap_top dstSlot) +
           4 * (bitmap_left dstSlot - union_x_min dstSlot srcSlot) = int Q"
    by (simp add: tl Q_def QP_def)
  have n_le: "4 * wd \<le> QP" using lw by (simp add: QP_def)
  have wpp: "4 * wd \<le> PP" using ow pp by simp
  have len_old: "rd * PP \<le> length old" using ol pp by (simp flip: of_nat_mult)
  define buf0 :: "FT_Byte list" where "buf0 = replicate (Rn * (4 * Wn)) 0"
  have alloc: "FT_ALLOC face (Rn * (4 * Wn)) = Inr buf0"
    using mem by (simp add: FT_ALLOC_def buf0_def)
  have len0: "length buf0 = Rn * QP" by (simp add: buf0_def QP_def)
  have fits: "0 < rd \<longrightarrow> Q + (rd - 1) * QP + 4 * wd \<le> length buf0 \<and>
                           0 + (rd - 1) * PP + 4 * wd \<le> length old"
  proof
    assume r0: "0 < rd"
    have "4 * l + 4 * wd \<le> QP" using lw by (simp add: QP_def)
    from footprint_end_inside [OF this tr r0]
    have a: "Q + (rd - 1) * QP + 4 * wd \<le> length buf0" by (simp add: Q_def len0)
    have "0 + 4 * wd \<le> PP" "0 + rd \<le> rd" using wpp by simp_all
    from footprint_end_inside [OF this r0]
    have "0 + (rd - 1) * PP + 4 * wd \<le> length old" using len_old by simp
    with a show "Q + (rd - 1) * QP + 4 * wd \<le> length buf0 \<and>
                 0 + (rd - 1) * PP + 4 * wd \<le> length old" by simp
  qed
  have "rd - 0 = rd" by simp
  from copy_rows_bytes [OF n_le this fits]
  obtain new where cp: "copy_rows 0 rd buf0 (int Q) (int QP) old (int 0) (int PP) (4 * wd) = Some new"
    and lnew: "length new = length buf0"
    and bytes: "\<forall>r i. r < rd \<and> i < 4 * wd \<longrightarrow> new ! (Q + r * QP + i) = old ! (0 + r * PP + i)"
    by blast
  define canvas where "canvas =
    dstSlot\<lparr>bitmap := (bitmap dstSlot)\<lparr>buffer := Some new, width := Wn, rows := Rn,
                                        pitch := int (4 * Wn)\<rparr>,
            bitmap_top := union_y_max dstSlot srcSlot,
            bitmap_left := union_x_min dstSlot srcSlot,
            own_bitmap := True,
            slot_format := FT_GLYPH_FORMAT_BITMAP\<rparr>"
  have r: "blend_prepare face dstSlot srcSlot = Some (FT_Err_Ok, canvas)"
    unfolding prep resize alloc q
    using cp by (simp add: canvas_def QP_def pp wd_def rd_def)
  have holds: "bitmap_holds_rows 4 (bitmap canvas) new"
    using lnew len0 by (simp add: bitmap_holds_rows_def canvas_def QP_def)
  have "blend_origin canvas dstSlot =
          int (4 * Wn) * (union_y_max dstSlot srcSlot - bitmap_top dstSlot) +
          4 * (bitmap_left dstSlot - union_x_min dstSlot srcSlot)"
    unfolding blend_origin_def canvas_def by simp
  then have origin: "blend_origin canvas dstSlot = int Q"
    unfolding q .
  have pc: "pitch (bitmap canvas) = int QP"
    by (simp add: canvas_def QP_def)
  have pix: "\<forall>x y c. x < width (bitmap dstSlot) \<and> y < rows (bitmap dstSlot) \<and> c < 4 \<longrightarrow>
                 new ! nat (blend_origin canvas dstSlot + int y * pitch (bitmap canvas) +
                            4 * int x + int c) =
                 old ! nat (int y * pitch (bitmap dstSlot) + 4 * int x + int c)"
  proof (intro allI impI)
    fix x y c
    assume a: "x < width (bitmap dstSlot) \<and> y < rows (bitmap dstSlot) \<and> c < (4 :: nat)"
    then have i: "4 * x + c < 4 * wd" and yr: "y < rd" by (simp_all add: wd_def rd_def)
    have "blend_origin canvas dstSlot + int y * pitch (bitmap canvas) + 4 * int x + int c =
            int (Q + y * QP + (4 * x + c))"
      by (simp add: origin pc)
    then have n1: "nat (blend_origin canvas dstSlot + int y * pitch (bitmap canvas) +
                        4 * int x + int c) = Q + y * QP + (4 * x + c)"
      by (simp only: nat_int)
    have "int y * pitch (bitmap dstSlot) + 4 * int x + int c = int (0 + y * PP + (4 * x + c))"
      by (simp add: pp)
    then have n2: "nat (int y * pitch (bitmap dstSlot) + 4 * int x + int c) =
                     0 + y * PP + (4 * x + c)"
      by (simp only: nat_int)
    show "new ! nat (blend_origin canvas dstSlot + int y * pitch (bitmap canvas) +
                     4 * int x + int c) =
          old ! nat (int y * pitch (bitmap dstSlot) + 4 * int x + int c)"
      unfolding n1 n2 using bytes i yr by blast
  qed
  show "\<exists>canvas new.
          blend_prepare face dstSlot srcSlot = Some (FT_Err_Ok, canvas) \<and>
          bitmap_holds_rows 4 (bitmap canvas) new \<and>
          bitmap_left canvas = union_x_min dstSlot srcSlot \<and>
          bitmap_top canvas = union_y_max dstSlot srcSlot \<and>
          int (width (bitmap canvas)) =
            union_x_max dstSlot srcSlot - union_x_min dstSlot srcSlot \<and>
          int (rows (bitmap canvas)) =
            union_y_max dstSlot srcSlot - union_y_min dstSlot srcSlot \<and>
          pitch (bitmap canvas) = 4 * int (width (bitmap canvas)) \<and>
          (\<forall>x y c. x < width (bitmap dstSlot) \<and> y < rows (bitmap dstSlot) \<and> c < 4 \<longrightarrow>
             new ! nat (blend_origin canvas dstSlot + int y * pitch (bitmap canvas) +
                        4 * int x + int c) =
             old ! nat (int y * pitch (bitmap dstSlot) + 4 * int x + int c))"
    using r holds pix W R by (intro exI [of _ canvas] exI [of _ new]) (simp add: canvas_def)
qed

text \<open>The canvas \<open>ex_canvas_red\<close> (one pixel at column 0, top 1) and the layer
  \<open>ex_src_up_left\<close> (one pixel at column -1, top 2): the union is two by two pixels and the
  old pixel is the last of its sixteen bytes.\<close>

lemma blend_prepare_grows_canvas_example:
  "bitmap_holds_rows 4 (bitmap ex_canvas_red) [0, 0, 255, 255] \<and>
   \<not> footprint_inside ex_src_up_left ex_canvas_red \<and>
   union_x_max ex_canvas_red ex_src_up_left - union_x_min ex_canvas_red ex_src_up_left = 2 \<and>
   union_y_max ex_canvas_red ex_src_up_left - union_y_min ex_canvas_red ex_src_up_left = 2 \<and>
   (\<exists>canvas new.
      blend_prepare ex_face ex_canvas_red ex_src_up_left = Some (FT_Err_Ok, canvas) \<and>
      bitmap_holds_rows 4 (bitmap canvas) new \<and>
      bitmap_left canvas = - 1 \<and> bitmap_top canvas = 2 \<and>
      width (bitmap canvas) = 2 \<and> rows (bitmap canvas) = 2 \<and> pitch (bitmap canvas) = 8 \<and>
      bgra_at new 12 = (0, 0, 255, 255)) \<and>
   tt_face_colr_blend_layer (ex_face\<lparr>mem_fails := True\<rparr>) 0 ex_canvas_red ex_src_up_left =
     Some (Out_Of_Memory, ex_canvas_red)"
proof -
  have old: "bitmap_holds_rows 4 (bitmap ex_canvas_red) [0, 0, 255, 255]"
    by (simp add: bitmap_holds_rows_def ex_canvas_red_def ex_canvas_1x1_def)
  have grow: "\<not> footprint_inside ex_src_up_left ex_canvas_red"
    by (simp add: footprint_inside_def ex_canvas_red_def ex_canvas_1x1_def ex_src_up_left_def)
  have xmin: "union_x_min ex_canvas_red ex_src_up_left = - 1"
    and xmax: "union_x_max ex_canvas_red ex_src_up_left = 1"
    and ymin: "union_y_min ex_canvas_red ex_src_up_left = 0"
    and ymax: "union_y_max ex_canvas_red ex_src_up_left = 2"
    by (simp_all add: union_x_min_def union_x_max_def union_y_min_def union_y_max_def
        ex_canvas_red_def ex_canvas_1x1_def ex_src_up_left_def)
  have uw: "union_x_max ex_canvas_red ex_src_up_left - union_x_min ex_canvas_red ex_src_up_left
              < 2 ^ 29"
    and uh: "union_y_max ex_canvas_red ex_src_up_left - union_y_min ex_canvas_red ex_src_up_left
              < 2 ^ 31"
    and sz: "(union_y_max ex_canvas_red ex_src_up_left - union_y_min ex_canvas_red ex_src_up_left) *
             (4 * (union_x_max ex_canvas_red ex_src_up_left -
                   union_x_min ex_canvas_red ex_src_up_left)) < 2 ^ 32"
    by (simp_all add: xmin xmax ymin ymax)
  note inst = blend_prepare_grows_canvas [OF old grow uw uh sz]
  have ok: "\<not> mem_fails ex_face" by (simp add: ex_face_def)
  from inst [of ex_face 0] ok
  obtain canvas new where
    r: "blend_prepare ex_face ex_canvas_red ex_src_up_left = Some (FT_Err_Ok, canvas)"
    and h: "bitmap_holds_rows 4 (bitmap canvas) new"
    and g: "bitmap_left canvas = - 1" "bitmap_top canvas = 2"
      "int (width (bitmap canvas)) = 2" "int (rows (bitmap canvas)) = 2"
      "pitch (bitmap canvas) = 4 * int (width (bitmap canvas))"
    and p: "\<forall>x y c. x < width (bitmap ex_canvas_red) \<and> y < rows (bitmap ex_canvas_red) \<and> c < 4 \<longrightarrow>
              new ! nat (blend_origin canvas ex_canvas_red + int y * pitch (bitmap canvas) +
                         4 * int x + int c) =
              [0 :: FT_Byte, 0, 255, 255] ! nat (int y * pitch (bitmap ex_canvas_red) +
                                                 4 * int x + int c)"
    unfolding xmin xmax ymin ymax by auto
  have w: "width (bitmap canvas) = 2" "rows (bitmap canvas) = 2" "pitch (bitmap canvas) = 8"
    using g by simp_all
  have o: "blend_origin canvas ex_canvas_red = 12"
    by (simp add: blend_origin_def w g ex_canvas_red_def ex_canvas_1x1_def)
  have d: "width (bitmap ex_canvas_red) = 1" "rows (bitmap ex_canvas_red) = 1"
    by (simp_all add: ex_canvas_red_def ex_canvas_1x1_def)
  have "new ! 12 = 0" "new ! 13 = 0" "new ! 14 = 255" "new ! 15 = 255"
    using p [rule_format, of 0 0 0] p [rule_format, of 0 0 1] p [rule_format, of 0 0 2]
      p [rule_format, of 0 0 3]
    by (simp_all add: o d)
  then have b: "bgra_at new 12 = (0, 0, 255, 255)"
    by (simp add: bgra_at_def)
  have f: "tt_face_colr_blend_layer (ex_face\<lparr>mem_fails := True\<rparr>) 0 ex_canvas_red ex_src_up_left =
             Some (Out_Of_Memory, ex_canvas_red)"
    using inst [of "ex_face\<lparr>mem_fails := True\<rparr>" 0] by simp
  from old grow xmin xmax ymin ymax r h g(1,2) w b f show ?thesis by auto
qed

text \<open>The outer loop of the blend changes no byte outside the rows of the layer's
  footprint.\<close>

lemma blend_rows_frame:
  assumes "4 * w \<le> 2 ^ 32" and "4 * w \<le> DP"
  shows "nrows - y = k \<Longrightarrow>
         (0 < k \<longrightarrow> S + (k - 1) * SP + w \<le> length sbuf \<and>
                   D + (k - 1) * DP + 4 * w \<le> length dbuf) \<Longrightarrow>
         blend_rows y nrows w sbuf (int S) (int SP) dbuf (int D) (int DP) color = Some dbuf' \<Longrightarrow>
         (\<forall>r<k. i < D + r * DP \<or> D + r * DP + 4 * w \<le> i) \<Longrightarrow>
         dbuf' ! i = dbuf ! i"
proof (induction k arbitrary: y S D dbuf)
  case 0
  then have "\<not> y < nrows" by simp
  with 0 show ?case by (simp add: blend_rows.simps)
next
  case (Suc k)
  then have yn: "y < nrows" by simp
  have sb: "S + k * SP + w \<le> length sbuf" and db: "D + k * DP + 4 * w \<le> length dbuf"
    using Suc.prems(2) by simp_all
  have "S + w \<le> length sbuf" "D + 4 * w \<le> length dbuf"
    using sb db by (simp_all add: add_leE)
  from blend_row_pixels [OF assms(1) this, of color]
  obtain dbuf1 where r1: "blend_row 0 w sbuf (int S) dbuf (int D) color = Some dbuf1"
    and l1: "length dbuf1 = length dbuf"
    and f1: "\<forall>i. i < D \<or> D + 4 * w \<le> i \<longrightarrow> dbuf1 ! i = dbuf ! i"
    by blast
  have run: "blend_rows (y + 1) nrows w sbuf (int (S + SP)) (int SP) dbuf1
               (int (D + DP)) (int DP) color = Some dbuf'"
    using Suc.prems(3) by (subst (asm) blend_rows.simps) (simp add: yn r1)
  have "dbuf' ! i = dbuf1 ! i"
  proof (rule Suc.IH [OF _ _ run])
    show "nrows - (y + 1) = k" using Suc.prems(1) by simp
    show "0 < k \<longrightarrow> S + SP + (k - 1) * SP + w \<le> length sbuf \<and>
                     D + DP + (k - 1) * DP + 4 * w \<le> length dbuf1"
    proof
      assume "0 < k"
      then obtain k' where k': "k = Suc k'" by (cases k) auto
      show "S + SP + (k - 1) * SP + w \<le> length sbuf \<and>
            D + DP + (k - 1) * DP + 4 * w \<le> length dbuf1"
        using sb db l1 unfolding k' by (simp add: algebra_simps)
    qed
    show "\<forall>r<k. i < D + DP + r * DP \<or> D + DP + r * DP + 4 * w \<le> i"
    proof (intro allI impI)
      fix r assume "r < k"
      then have "Suc r < Suc k" by simp
      with Suc.prems(4) have "i < D + Suc r * DP \<or> D + Suc r * DP + 4 * w \<le> i"
        by blast
      then show "i < D + DP + r * DP \<or> D + DP + r * DP + 4 * w \<le> i"
        by (simp add: algebra_simps)
    qed
  qed
  moreover have "i < D + 0 * DP \<or> D + 0 * DP + 4 * w \<le> i"
    using Suc.prems(4) by blast
  then have "dbuf1 ! i = dbuf ! i" using f1 by auto
  ultimately show ?case by simp
qed

text \<open>An offset into a buffer of rows of \<open>QP\<close> bytes determines its row.\<close>

lemma row_col_unique:
  fixes QP :: nat
  assumes "u < QP" and "QP * b \<le> QP * a + u" and "QP * a + u < QP * b + QP"
  shows "a = b"
proof (rule ccontr)
  assume "a \<noteq> b"
  then consider "a < b" | "b < a" by linarith
  then show False
  proof cases
    case 1
    then have "Suc a \<le> b" by simp
    then have "QP * Suc a \<le> QP * b" by (rule mult_le_mono2)
    then show False using assms(1,2) by simp
  next
    case 2
    then have "Suc b \<le> a" by simp
    then have "QP * Suc b \<le> QP * a" by (rule mult_le_mono2)
    then show False using assms(3) by simp
  qed
qed

text \<open>The whole call under the same conditions, the source holding its rows, the
  color resolving and the allocator delivering: it returns \<^verbatim>\<open>FT_Err_Ok\<close> with a
  canvas that is the union bounding box and holds its rows, and every pixel of the old
  canvas that the layer does not cover has its four bytes at its place in the new
  canvas.\<close>

lemma blend_layer_grows_canvas_call:
  assumes old: "bitmap_holds_rows 4 (bitmap dstSlot) old"
    and src: "bitmap_holds_rows 1 (bitmap srcSlot) src"
    and grow: "\<not> footprint_inside srcSlot dstSlot"
    and uw: "union_x_max dstSlot srcSlot - union_x_min dstSlot srcSlot < 2 ^ 29"
    and uh: "union_y_max dstSlot srcSlot - union_y_min dstSlot srcSlot < 2 ^ 31"
    and sz: "(union_y_max dstSlot srcSlot - union_y_min dstSlot srcSlot) *
             (4 * (union_x_max dstSlot srcSlot - union_x_min dstSlot srcSlot)) < 2 ^ 32"
    and col: "blend_color face color_index = Some color"
    and mem: "\<not> mem_fails face"
  shows "\<exists>canvas after.
           tt_face_colr_blend_layer face color_index dstSlot srcSlot = Some (FT_Err_Ok, canvas) \<and>
           bitmap_holds_rows 4 (bitmap canvas) after \<and>
           bitmap_left canvas = union_x_min dstSlot srcSlot \<and>
           bitmap_top canvas = union_y_max dstSlot srcSlot \<and>
           int (width (bitmap canvas)) =
             union_x_max dstSlot srcSlot - union_x_min dstSlot srcSlot \<and>
           int (rows (bitmap canvas)) =
             union_y_max dstSlot srcSlot - union_y_min dstSlot srcSlot \<and>
           pitch (bitmap canvas) = 4 * int (width (bitmap canvas)) \<and>
           (\<forall>x y c. x < width (bitmap dstSlot) \<and> y < rows (bitmap dstSlot) \<and> c < 4 \<and>
                    \<not> (bitmap_left srcSlot \<le> bitmap_left dstSlot + int x \<and>
                       bitmap_left dstSlot + int x <
                         bitmap_left srcSlot + int (width (bitmap srcSlot)) \<and>
                       bitmap_top dstSlot - int y \<le> bitmap_top srcSlot \<and>
                       bitmap_top srcSlot - int (rows (bitmap srcSlot)) <
                         bitmap_top dstSlot - int y) \<longrightarrow>
              after ! nat (blend_origin canvas dstSlot + int y * pitch (bitmap canvas) +
                           4 * int x + int c) =
              old ! nat (int y * pitch (bitmap dstSlot) + 4 * int x + int c))"
proof -
  from blend_prepare_grows_canvas [OF old grow uw uh sz, of face color_index] mem
  obtain canvas new where
    prep: "blend_prepare face dstSlot srcSlot = Some (FT_Err_Ok, canvas)"
    and holds: "bitmap_holds_rows 4 (bitmap canvas) new"
    and bl: "bitmap_left canvas = union_x_min dstSlot srcSlot"
    and bt: "bitmap_top canvas = union_y_max dstSlot srcSlot"
    and cwid: "int (width (bitmap canvas)) =
                 union_x_max dstSlot srcSlot - union_x_min dstSlot srcSlot"
    and crow: "int (rows (bitmap canvas)) =
                 union_y_max dstSlot srcSlot - union_y_min dstSlot srcSlot"
    and cp: "pitch (bitmap canvas) = 4 * int (width (bitmap canvas))"
    and pix: "\<forall>x y c. x < width (bitmap dstSlot) \<and> y < rows (bitmap dstSlot) \<and> c < 4 \<longrightarrow>
                 new ! nat (blend_origin canvas dstSlot + int y * pitch (bitmap canvas) +
                            4 * int x + int c) =
                 old ! nat (int y * pitch (bitmap dstSlot) + 4 * int x + int c)"
    by blast
  define W where "W = width (bitmap srcSlot)"
  define R where "R = rows (bitmap srcSlot)"
  define wd where "wd = width (bitmap dstSlot)"
  define rd where "rd = rows (bitmap dstSlot)"
  define Wc where "Wc = width (bitmap canvas)"
  define Rc where "Rc = rows (bitmap canvas)"
  define SP where "SP = nat (pitch (bitmap srcSlot))"
  define QP where "QP = 4 * Wc"
  define t where "t = nat (union_y_max dstSlot srcSlot - bitmap_top dstSlot)"
  define l where "l = nat (bitmap_left dstSlot - union_x_min dstSlot srcSlot)"
  define ts where "ts = nat (union_y_max dstSlot srcSlot - bitmap_top srcSlot)"
  define ls where "ls = nat (bitmap_left srcSlot - union_x_min dstSlot srcSlot)"
  define D where "D = QP * ts + 4 * ls"
  define Q where "Q = QP * t + 4 * l"
  have cbuf: "buffer (bitmap canvas) = Some new"
    and cl: "int Rc * pitch (bitmap canvas) \<le> int (length new)"
    using holds by (simp_all add: bitmap_holds_rows_def Rc_def)
  have sbuf: "buffer (bitmap srcSlot) = Some src"
    and sw: "int W \<le> pitch (bitmap srcSlot)"
    and sl: "int R * pitch (bitmap srcSlot) \<le> int (length src)"
    using src by (simp_all add: bitmap_holds_rows_def W_def R_def)
  have sp: "pitch (bitmap srcSlot) = int SP" using sw by (simp add: SP_def)
  have dp: "pitch (bitmap canvas) = int QP" using cp by (simp add: QP_def Wc_def)
  have x: "union_x_min dstSlot srcSlot \<le> bitmap_left dstSlot"
    "bitmap_left dstSlot + int wd \<le> union_x_max dstSlot srcSlot"
    "union_x_min dstSlot srcSlot \<le> bitmap_left srcSlot"
    "bitmap_left srcSlot + int W \<le> union_x_max dstSlot srcSlot"
    by (simp_all add: union_x_min_def union_x_max_def wd_def W_def)
  have y: "union_y_min dstSlot srcSlot \<le> bitmap_top dstSlot - int rd"
    "bitmap_top dstSlot \<le> union_y_max dstSlot srcSlot"
    "union_y_min dstSlot srcSlot \<le> bitmap_top srcSlot - int R"
    "bitmap_top srcSlot \<le> union_y_max dstSlot srcSlot"
    by (simp_all add: union_y_min_def union_y_max_def rd_def R_def)
  have tl: "union_y_max dstSlot srcSlot - bitmap_top dstSlot = int t"
    "bitmap_left dstSlot - union_x_min dstSlot srcSlot = int l"
    "union_y_max dstSlot srcSlot - bitmap_top srcSlot = int ts"
    "bitmap_left srcSlot - union_x_min dstSlot srcSlot = int ls"
    using x y by (simp_all add: t_def l_def ts_def ls_def)
  have cw': "int Wc = union_x_max dstSlot srcSlot - union_x_min dstSlot srcSlot"
    and cr': "int Rc = union_y_max dstSlot srcSlot - union_y_min dstSlot srcSlot"
    using cwid crow by (simp_all add: Wc_def Rc_def)
  have lw: "l + wd \<le> Wc" and tr: "t + rd \<le> Rc" and lsw: "ls + W \<le> Wc" and tsr: "ts + R \<le> Rc"
    using x y tl cw' cr' by linarith+
  have originS: "blend_origin canvas srcSlot = int D"
    by (simp add: blend_origin_def dp bl bt tl D_def)
  have originD: "blend_origin canvas dstSlot = int Q"
    by (simp add: blend_origin_def dp bl bt tl Q_def)
  have "int Wc < 2 ^ 29" using cw' uw by simp
  then have Wc29: "Wc < 2 ^ 29" by simp
  have w4: "4 * W \<le> 2 ^ 32" using lsw Wc29 by simp
  have wdp: "4 * W \<le> QP" using lsw by (simp add: QP_def)
  have wsp: "W \<le> SP" using sw sp by simp
  have len_s: "R * SP \<le> length src" and len_c: "Rc * QP \<le> length new"
    using sl cl sp dp by (simp_all flip: of_nat_mult)
  have fits: "0 < R \<longrightarrow> 0 + (R - 1) * SP + W \<le> length src \<and>
                          D + (R - 1) * QP + 4 * W \<le> length new"
  proof
    assume r0: "0 < R"
    have "0 + W \<le> SP" "0 + R \<le> R" using wsp by simp_all
    from footprint_end_inside [OF this r0]
    have a: "0 + (R - 1) * SP + W \<le> length src" using len_s by simp
    have "4 * ls + 4 * W \<le> QP" using lsw by (simp add: QP_def)
    from footprint_end_inside [OF this tsr r0]
    have "D + (R - 1) * QP + 4 * W \<le> length new" using len_c by (simp add: D_def)
    with a show "0 + (R - 1) * SP + W \<le> length src \<and> D + (R - 1) * QP + 4 * W \<le> length new"
      by simp
  qed
  have R0: "R - 0 = R" by simp
  from blend_rows_pixels [OF w4 wdp R0 fits, of color]
  obtain after where run: "blend_rows 0 R W src (int 0) (int SP) new (int D) (int QP) color =
                             Some after"
    and len: "length after = length new"
    by blast
  note frame = blend_rows_frame [OF w4 wdp R0 fits run]
  define canvas' where "canvas' = canvas\<lparr>bitmap := (bitmap canvas)\<lparr>buffer := Some after\<rparr>\<rparr>"
  have call: "tt_face_colr_blend_layer face color_index dstSlot srcSlot = Some (FT_Err_Ok, canvas')"
    using run
    by (simp add: tt_face_colr_blend_layer_prepared [OF prep col cbuf sbuf] originS dp sp
        W_def R_def canvas'_def)
  have holds': "bitmap_holds_rows 4 (bitmap canvas') after"
    using holds len by (simp add: bitmap_holds_rows_def canvas'_def)
  have geo: "bitmap_left canvas' = bitmap_left canvas" "bitmap_top canvas' = bitmap_top canvas"
    "width (bitmap canvas') = width (bitmap canvas)" "rows (bitmap canvas') = rows (bitmap canvas)"
    "pitch (bitmap canvas') = pitch (bitmap canvas)"
    "blend_origin canvas' dstSlot = blend_origin canvas dstSlot"
    by (simp_all add: canvas'_def blend_origin_def)
  have kept: "\<forall>x y c. x < width (bitmap dstSlot) \<and> y < rows (bitmap dstSlot) \<and> c < 4 \<and>
                    \<not> (bitmap_left srcSlot \<le> bitmap_left dstSlot + int x \<and>
                       bitmap_left dstSlot + int x <
                         bitmap_left srcSlot + int (width (bitmap srcSlot)) \<and>
                       bitmap_top dstSlot - int y \<le> bitmap_top srcSlot \<and>
                       bitmap_top srcSlot - int (rows (bitmap srcSlot)) <
                         bitmap_top dstSlot - int y) \<longrightarrow>
              after ! nat (blend_origin canvas' dstSlot + int y * pitch (bitmap canvas') +
                           4 * int x + int c) =
              old ! nat (int y * pitch (bitmap dstSlot) + 4 * int x + int c)"
  proof (intro allI impI)
    fix x y c
    assume a: "x < width (bitmap dstSlot) \<and> y < rows (bitmap dstSlot) \<and> c < (4 :: nat) \<and>
                    \<not> (bitmap_left srcSlot \<le> bitmap_left dstSlot + int x \<and>
                       bitmap_left dstSlot + int x <
                         bitmap_left srcSlot + int (width (bitmap srcSlot)) \<and>
                       bitmap_top dstSlot - int y \<le> bitmap_top srcSlot \<and>
                       bitmap_top srcSlot - int (rows (bitmap srcSlot)) <
                         bitmap_top dstSlot - int y)"
    then have xw: "x < wd" and yr: "y < rd" and c4: "c < 4" by (simp_all add: wd_def rd_def)
    from a have out: "\<not> (bitmap_left srcSlot \<le> bitmap_left dstSlot + int x \<and>
                       bitmap_left dstSlot + int x < bitmap_left srcSlot + int W \<and>
                       bitmap_top dstSlot - int y \<le> bitmap_top srcSlot \<and>
                       bitmap_top srcSlot - int R < bitmap_top dstSlot - int y)"
      by (simp add: W_def R_def)
    define u where "u = 4 * (l + x) + c"
    define i where "i = Q + y * QP + 4 * x + c"
    have i_row: "i = QP * (t + y) + u"
      by (simp add: i_def Q_def u_def algebra_simps)
    have u_lt: "u < QP" using xw c4 lw by (simp add: u_def QP_def)
    have idx: "nat (blend_origin canvas dstSlot + int y * pitch (bitmap canvas) +
                    4 * int x + int c) = i"
    proof -
      have "blend_origin canvas dstSlot + int y * pitch (bitmap canvas) + 4 * int x + int c =
              int i"
        by (simp add: originD dp i_def)
      then show ?thesis by (simp only: nat_int)
    qed
    have outside: "\<forall>r<R. i < D + r * QP \<or> D + r * QP + 4 * W \<le> i"
    proof (intro allI impI)
      fix r assume rR: "r < R"
      show "i < D + r * QP \<or> D + r * QP + 4 * W \<le> i"
      proof (rule ccontr)
        assume "\<not> (i < D + r * QP \<or> D + r * QP + 4 * W \<le> i)"
        then have lo: "D + r * QP \<le> i" and hi: "i < D + r * QP + 4 * W" by simp_all
        have Dr: "D + r * QP = QP * (ts + r) + 4 * ls"
          by (simp add: D_def algebra_simps)
        have "QP * (ts + r) \<le> QP * (t + y) + u"
          using lo unfolding Dr i_row by simp
        moreover have "QP * (t + y) + u < QP * (ts + r) + QP"
        proof -
          have "QP * (t + y) + u < QP * (ts + r) + 4 * ls + 4 * W"
            using hi unfolding Dr i_row .
          also have "\<dots> \<le> QP * (ts + r) + QP" using lsw by (simp add: QP_def)
          finally show ?thesis .
        qed
        ultimately have rows_eq: "t + y = ts + r"
          using row_col_unique [OF u_lt] by blast
        have "4 * ls \<le> u" "u < 4 * ls + 4 * W"
          using lo hi unfolding Dr i_row rows_eq by simp_all
        then have cols: "ls \<le> l + x" "l + x < ls + W"
          using c4 by (simp_all add: u_def)
        have "bitmap_left srcSlot \<le> bitmap_left dstSlot + int x"
          "bitmap_left dstSlot + int x < bitmap_left srcSlot + int W"
          using cols tl by linarith+
        moreover have "int t + int y = int ts + int r"
          using rows_eq by (simp flip: of_nat_add)
        then have "bitmap_top dstSlot - int y = bitmap_top srcSlot - int r"
          using tl by linarith
        then have "bitmap_top dstSlot - int y \<le> bitmap_top srcSlot"
          "bitmap_top srcSlot - int R < bitmap_top dstSlot - int y"
          using rR by simp_all
        ultimately show False using out by blast
      qed
    qed
    have "after ! i = new ! i" by (rule frame [OF outside])
    also have "new ! i = old ! nat (int y * pitch (bitmap dstSlot) + 4 * int x + int c)"
      using pix a unfolding idx [symmetric] by blast
    finally show "after ! nat (blend_origin canvas' dstSlot + int y * pitch (bitmap canvas') +
                           4 * int x + int c) =
              old ! nat (int y * pitch (bitmap dstSlot) + 4 * int x + int c)"
      unfolding geo idx .
  qed
  show ?thesis
    using call holds' kept bl bt cwid crow cp
    by (intro exI [of _ canvas'] exI [of _ after]) (simp add: geo)
qed

text \<open>
  C9.  The claim is that a layer whose footprint does not lie inside the canvas makes
  the call reallocate the canvas to the union bounding box, every pixel written before
  staying at its place.  The canvas \<open>ex_canvas_red\<close> is one pixel at column 0, top 1,
  and holds its row; the layer \<open>ex_src_tall\<close> is one pixel wide and 16385 pixels high
  at column 65535, top 1, and holds its rows.  The union bounding box is 65536 by 16385
  pixels: 16385 rows of 262144 bytes.  \<^verbatim>\<open>size\<close> is an \<^verbatim>\<open>FT_ULong\<close>, but \<^verbatim>\<open>rows\<close> and
  \<^verbatim>\<open>pitch\<close> are \<^verbatim>\<open>FT_UInt\<close> and the product \<^verbatim>\<open>rows * pitch\<close> is formed modulo
  \<open>2^32\<close>: it is 262144.  The preparation returns \<^verbatim>\<open>FT_Err_Ok\<close> with the bounds of
  the union box and a buffer of one row, which does not hold the rows of these bounds;
  the second row of the layer is then blended at offset 524284, outside the buffer: the
  result of the call is \<open>None\<close>.
\<close>

theorem blend_layer_size_wraps:
  "bitmap_holds_rows 4 (bitmap ex_canvas_red) [0, 0, 255, 255] \<and>
   bitmap_holds_rows 1 (bitmap ex_src_tall) (replicate 16385 255) \<and>
   \<not> footprint_inside ex_src_tall ex_canvas_red \<and>
   union_x_max ex_canvas_red ex_src_tall - union_x_min ex_canvas_red ex_src_tall = 65536 \<and>
   union_y_max ex_canvas_red ex_src_tall - union_y_min ex_canvas_red ex_src_tall = 16385 \<and>
   mul_FT_UInt 65536 4 = 262144 \<and>
   mul_FT_UInt 16385 262144 = 262144 \<and>
   blend_prepare ex_face ex_canvas_red ex_src_tall = Some (FT_Err_Ok, ex_canvas_wrapped) \<and>
   \<not> bitmap_holds_rows 4 (bitmap ex_canvas_wrapped) ([0, 0, 255, 255] @ replicate 262140 0) \<and>
   tt_face_colr_blend_layer ex_face 0 ex_canvas_red ex_src_tall = None"
proof -
  have a: "bitmap_holds_rows 4 (bitmap ex_canvas_red) [0, 0, 255, 255]"
    "bitmap_holds_rows 1 (bitmap ex_src_tall) (replicate 16385 255)"
    "\<not> bitmap_holds_rows 4 (bitmap ex_canvas_wrapped) ([0, 0, 255, 255] @ replicate 262140 0)"
    by (simp_all add: bitmap_holds_rows_def ex_canvas_red_def ex_canvas_1x1_def ex_src_tall_def
        ex_canvas_wrapped_def)
  have b: "\<not> footprint_inside ex_src_tall ex_canvas_red"
    by (simp add: footprint_inside_def ex_canvas_red_def ex_canvas_1x1_def ex_src_tall_def)
  have c: "union_x_max ex_canvas_red ex_src_tall - union_x_min ex_canvas_red ex_src_tall = 65536"
    "union_y_max ex_canvas_red ex_src_tall - union_y_min ex_canvas_red ex_src_tall = 16385"
    by (simp_all add: union_x_min_def union_x_max_def union_y_min_def union_y_max_def
        ex_canvas_red_def ex_canvas_1x1_def ex_src_tall_def)
  have d: "mul_FT_UInt 65536 4 = 262144" "mul_FT_UInt 16385 262144 = 262144"
    by (simp_all add: mul_FT_UInt_def)
  have e: "blend_prepare ex_face ex_canvas_red ex_src_tall = Some (FT_Err_Ok, ex_canvas_wrapped)"
    by (simp add: prepare_defs ex_face_def ex_canvas_red_def ex_canvas_1x1_def ex_src_tall_def
        ex_canvas_wrapped_def Let_def to_FT_Int_def to_FT_UInt_def mul_FT_UInt_def FT_ALLOC_def
        copy_rows.simps FT_MEM_COPY_def)
  have f: "tt_face_colr_blend_layer ex_face 0 ex_canvas_red ex_src_tall = None"
    unfolding tt_face_colr_blend_layer_def e
    by (simp add: blend_color_def nth_opt_def ex_face_def ex_canvas_wrapped_def ex_src_tall_def
        blend_rows.simps blend_row.simps peek_byte_def idx4_def blend_pixel_def Let_def
        nth_append)
  from a b c d e f show ?thesis by blast
qed

end
